(* ===== verification/Prelude.thy ===== *)
theory Prelude
  imports Main "HOL-Library.Word" "HOL-Library.AList"
begin

text \<open>
  Shared vocabulary of the development: the machine types of the Go sources (\<open>byte\<close>,
  \<open>uint32\<close>, \<open>uint64\<close> as words, \<open>int64\<close> as \<open>int\<close> with the two's-complement wrap written out
  by \<open>i64\<close>), Go strings and byte slices and the conversions between them, big-endian
  integers, fixed-size arrays filled by \<open>copy\<close>, the loop that cuts a slice into fixed-size
  pieces, the in-place compaction idiom \<open>kept := xs[:0]\<close>, Go maps as association lists with
  distinct keys, and the lemma collections the component theories draw on.
\<close>

unbundle bit_operations_syntax

section \<open>Collections\<close>

named_theorems len_simps \<open>lengths of encodings and digests\<close>
named_theorems limit_defs \<open>numeric limits of protocol/limits.go\<close>
named_theorems alist_simps \<open>lookups after updates and deletions of a Go map\<close>

section \<open>Machine types\<close>

type_synonym byte = "8 word"
type_synonym bytes = "byte list"
type_synonym u8 = "8 word"
type_synonym u32 = "32 word"
type_synonym u64 = "64 word"

text \<open>\<open>int64\<close> arithmetic: the mathematical result reduced to two's complement.\<close>

definition i64 :: "int \<Rightarrow> int" where
  "i64 x = signed_take_bit 63 x"

lemma i64_id: "- (2 ^ 63) \<le> x \<Longrightarrow> x < 2 ^ 63 \<Longrightarrow> i64 x = x"
  by (simp add: i64_def signed_take_bit_int_eq_self)

lemma i64_range: "- (2 ^ 63) \<le> i64 x \<and> i64 x < 2 ^ 63"
  unfolding i64_def
  using signed_take_bit_int_greater_eq_minus_exp [of 63 x] signed_take_bit_int_less_exp [of 63 x]
  by simp

text \<open>Conversions between unsigned and signed 64-bit values keep the bit pattern.\<close>

definition int64_of_u64 :: "u64 \<Rightarrow> int" where
  "int64_of_u64 w = sint w"

definition u64_of_int64 :: "int \<Rightarrow> u64" where
  "u64_of_int64 x = word_of_int x"

lemma int64_of_u64_small: "unat w < 2 ^ 63 \<Longrightarrow> int64_of_u64 w = int (unat w)"
proof -
  assume "unat w < 2 ^ 63"
  then have "int (unat w) < int (2 ^ 63)" by (simp only: of_nat_less_iff)
  then have "uint w < 2 ^ 63" by simp
  moreover have "- (2 ^ 63) \<le> uint w"
    by (rule order_trans [of _ 0]) simp_all
  ultimately show ?thesis
    by (simp add: int64_of_u64_def sint_uint signed_take_bit_int_eq_self)
qed

lemma int64_u64_id: "- (2 ^ 63) \<le> x \<Longrightarrow> x < 2 ^ 63 \<Longrightarrow> int64_of_u64 (u64_of_int64 x) = x"
  by (simp add: int64_of_u64_def u64_of_int64_def sint_sbintrunc' signed_take_bit_int_eq_self)

lemma i64_wrap: "2 ^ 63 \<le> x \<Longrightarrow> x < 2 ^ 64 + 2 ^ 63 \<Longrightarrow> i64 x = x - 2 ^ 64"
proof -
  assume x: "2 ^ 63 \<le> x" "x < 2 ^ 64 + 2 ^ 63"
  define y where "y = x - 2 ^ 63"
  have y: "0 \<le> y" "y < 2 ^ 64" and eq: "x + 2 ^ 63 = y + 2 ^ 64" using x by (simp_all add: y_def)
  have "take_bit 64 (x + 2 ^ 63) = (y + 2 ^ 64) mod 2 ^ 64" by (simp only: take_bit_eq_mod eq)
  also have "\<dots> = y" using y by (simp only: mod_add_self2 mod_pos_pos_trivial)
  finally have "i64 x = y - 2 ^ 63"
    by (simp add: i64_def signed_take_bit_eq_take_bit_shift)
  then show ?thesis by (simp add: y_def)
qed

lemma int64_of_u64_i64: "int64_of_u64 w = i64 (int (unat w))"
  by (simp add: int64_of_u64_def sint_uint i64_def)

lemma u64_bound: "int (unat (w :: u64)) < 2 ^ 64"
proof -
  have "uint w < 2 ^ LENGTH(64)" by (rule unsigned_less)
  then show ?thesis by simp
qed

lemma byte_mod [simp]: "unat (w :: byte) mod 256 = unat w"
proof -
  have "unat w < 2 ^ LENGTH(8)" by (rule unsigned_less)
  then show ?thesis by simp
qed

section \<open>Go strings\<close>

text \<open>A Go string is a sequence of bytes; \<open>[]byte(s)\<close> and \<open>string(b)\<close> keep them.\<close>

definition bytes_of :: "string \<Rightarrow> bytes" where
  "bytes_of s = map (\<lambda>c. word_of_nat (of_char c)) s"

definition string_of :: "bytes \<Rightarrow> string" where
  "string_of b = map (\<lambda>w. char_of (unat w)) b"

lemma string_of_bytes_of [simp]: "string_of (bytes_of s) = s"
  by (simp add: string_of_def bytes_of_def comp_def unat_of_nat char_of_eq_iff take_bit_eq_mod map_idI)

lemma bytes_of_string_of [simp]: "bytes_of (string_of b) = b"
  by (simp add: string_of_def bytes_of_def comp_def map_idI)

lemma length_bytes_of [simp]: "length (bytes_of s) = length s"
  by (simp add: bytes_of_def)

lemma length_string_of [simp]: "length (string_of b) = length b"
  by (simp add: string_of_def)

lemma bytes_of_inject: "bytes_of s = bytes_of t \<longleftrightarrow> s = t"
  by (metis string_of_bytes_of)

lemma string_of_Nil_iff [simp]: "string_of b = [] \<longleftrightarrow> b = []"
  by (simp add: string_of_def)

lemma bytes_of_Nil_iff [simp]: "bytes_of s = [] \<longleftrightarrow> s = []"
  by (simp add: bytes_of_def)

text \<open>Decimal digits, the \<open>%d\<close> verb of package fmt.\<close>

fun decimal :: "nat \<Rightarrow> string" where
  "decimal n = (if n < 10 then [char_of (48 + n)] else decimal (n div 10) @ [char_of (48 + n mod 10)])"

declare decimal.simps [simp del]

definition decimal_int :: "int \<Rightarrow> string" where
  "decimal_int n = (if n < 0 then ''-'' @ decimal (nat (- n)) else decimal (nat n))"

section \<open>Big-endian integers\<close>

text \<open>\<open>binary.BigEndian.PutUint32\<close>, \<open>PutUint64\<close> and their readers.\<close>

definition be32 :: "u32 \<Rightarrow> bytes" where
  "be32 v = [ucast (drop_bit 24 v), ucast (drop_bit 16 v), ucast (drop_bit 8 v), ucast v]"

definition be64 :: "u64 \<Rightarrow> bytes" where
  "be64 v =
     [ucast (drop_bit 56 v), ucast (drop_bit 48 v), ucast (drop_bit 40 v), ucast (drop_bit 32 v),
      ucast (drop_bit 24 v), ucast (drop_bit 16 v), ucast (drop_bit 8 v), ucast v]"

definition get32 :: "bytes \<Rightarrow> u32" where
  "get32 b = push_bit 24 (ucast (b ! 0)) OR push_bit 16 (ucast (b ! 1))
             OR push_bit 8 (ucast (b ! 2)) OR ucast (b ! 3)"

definition get64 :: "bytes \<Rightarrow> u64" where
  "get64 b = push_bit 56 (ucast (b ! 0)) OR push_bit 48 (ucast (b ! 1))
             OR push_bit 40 (ucast (b ! 2)) OR push_bit 32 (ucast (b ! 3))
             OR push_bit 24 (ucast (b ! 4)) OR push_bit 16 (ucast (b ! 5))
             OR push_bit 8 (ucast (b ! 6)) OR ucast (b ! 7)"

lemmas bit_assemble = bit_or_iff bit_push_bit_iff bit_ucast_iff bit_drop_bit_eq less_diff_conv2

lemma get32_be32 [simp]: "get32 (be32 v) = v"
proof (rule bit_word_eqI)
  fix n
  assume "n < LENGTH(32)"
  then consider "n < 8" | "8 \<le> n" "n < 16" | "16 \<le> n" "n < 24" | "24 \<le> n" "n < 32"
    by fastforce
  then show "bit (get32 (be32 v)) n = bit v n"
    by cases (simp_all add: get32_def be32_def bit_assemble)
qed

lemma get64_be64 [simp]: "get64 (be64 v) = v"
proof (rule bit_word_eqI)
  fix n
  assume "n < LENGTH(64)"
  then consider "n < 8" | "8 \<le> n" "n < 16" | "16 \<le> n" "n < 24" | "24 \<le> n" "n < 32"
    | "32 \<le> n" "n < 40" | "40 \<le> n" "n < 48" | "48 \<le> n" "n < 56" | "56 \<le> n" "n < 64"
    by fastforce
  then show "bit (get64 (be64 v)) n = bit v n"
    by cases (simp_all add: get64_def be64_def bit_assemble)
qed

lemma length_be32 [simp, len_simps]: "length (be32 v) = 4"
  by (simp add: be32_def)

lemma length_be64 [simp, len_simps]: "length (be64 v) = 8"
  by (simp add: be64_def)

lemma be32_inject [simp]: "be32 v = be32 w \<longleftrightarrow> v = w"
  by (metis get32_be32)

lemma be64_inject [simp]: "be64 v = be64 w \<longleftrightarrow> v = w"
  by (metis get64_be64)

lemma be32_neq_Nil [simp]: "be32 v \<noteq> []"
  by (simp add: be32_def)

lemma get32_append [simp]: "get32 (be32 v @ xs) = v"
proof -
  have "get32 (be32 v @ xs) = get32 (be32 v)"
    by (simp add: get32_def nth_append)
  then show ?thesis by simp
qed

section \<open>Fixed-size arrays\<close>

text \<open>\<open>var a [n]byte; copy(a[:], b)\<close>: the first \<open>n\<close> bytes of \<open>b\<close>, zero-filled.\<close>

definition copy_array :: "nat \<Rightarrow> bytes \<Rightarrow> bytes" where
  "copy_array n b = take n (b @ replicate n 0)"

lemma length_copy_array [simp, len_simps]: "length (copy_array n b) = n"
  by (simp add: copy_array_def)

lemma copy_array_id [simp]: "length b = n \<Longrightarrow> copy_array n b = b"
  by (simp add: copy_array_def)

section \<open>Cutting a slice into pieces\<close>

text \<open>\<open>for off := 0; off < len(xs); off += n { ... xs[off:min(off+n,len(xs))] ... }\<close>\<close>

function chunks :: "nat \<Rightarrow> 'a list \<Rightarrow> 'a list list" where
  "chunks n xs = (if n = 0 \<or> xs = [] then [] else take n xs # chunks n (drop n xs))"
  by pat_completeness auto
termination
  by (relation "measure (\<lambda>(n, xs). length xs)") auto

declare chunks.simps [simp del]

lemma chunks_Nil [simp]: "chunks n [] = []"
  by (simp add: chunks.simps)

lemma chunks_append [simp]:
  "length xs = n \<Longrightarrow> 0 < n \<Longrightarrow> chunks n (xs @ ys) = xs # chunks n ys"
  by (subst chunks.simps) auto

lemma concat_chunks: "0 < n \<Longrightarrow> concat (chunks n xs) = xs"
proof (induction n xs rule: chunks.induct)
  case (1 n xs)
  then show ?case
    by (cases "xs = []") (simp_all add: chunks.simps [of n xs])
qed

lemma chunks_concat:
  "0 < n \<Longrightarrow> (\<And>x. x \<in> set xss \<Longrightarrow> length x = n) \<Longrightarrow> chunks n (concat xss) = xss"
  by (induction xss) simp_all

lemma length_concat_const:
  "(\<And>x. x \<in> set xss \<Longrightarrow> length x = n) \<Longrightarrow> length (concat xss) = n * length xss"
  by (induction xss) simp_all

lemma length_chunks: "0 < n \<Longrightarrow> length (chunks n xs) = (length xs + n - 1) div n"
proof (induction n xs rule: chunks.induct)
  case (1 n xs)
  show ?case
  proof (cases "xs = []")
    case True
    with "1.prems" show ?thesis by simp
  next
    case False
    with 1 have IH: "length (chunks n (drop n xs)) = (length xs - n + n - 1) div n"
      by simp
    have "Suc ((length xs - n + n - 1) div n) = (length xs + n - 1) div n"
    proof (cases "n \<le> length xs")
      case True
      with "1.prems" have "length xs + n - 1 = (length xs - n + n - 1) + n" by simp
      with "1.prems" show ?thesis by (metis Suc_eq_plus1 div_add_self2 less_numeral_extra(3))
    next
      case below: False
      with False "1.prems" have "(length xs + n - 1) div n = 1"
        by (intro div_nat_eqI) (auto simp: neq_Nil_conv)
      moreover from below "1.prems" have "(length xs - n + n - 1) div n = 0" by simp
      ultimately show ?thesis by simp
    qed
    with False "1.prems" IH show ?thesis by (simp add: chunks.simps [of n xs])
  qed
qed

lemma nth_chunks:
  "0 < n \<Longrightarrow> i < length (chunks n xs) \<Longrightarrow> chunks n xs ! i = take n (drop (i * n) xs)"
proof (induction n xs arbitrary: i rule: chunks.induct)
  case (1 n xs)
  have ne: "xs \<noteq> []" using "1.prems" by auto
  with "1.prems" have eq: "chunks n xs = take n xs # chunks n (drop n xs)"
    by (simp add: chunks.simps [of n xs])
  show ?case
  proof (cases i)
    case 0
    with eq show ?thesis by simp
  next
    case (Suc j)
    with "1.prems" eq have "j < length (chunks n (drop n xs))" by simp
    with "1.IH" "1.prems" ne have "chunks n (drop n xs) ! j = take n (drop (j * n) (drop n xs))"
      by simp
    with eq Suc show ?thesis by (simp add: add.commute)
  qed
qed

section \<open>In-place compaction\<close>

text \<open>
  The idiom \<open>kept := xs[:0]; for _, m := range xs { if keep(m) { kept = append(kept, m) } }\<close>
  writes the kept elements over the front of the array it reads. \<open>compact_loop\<close> is that
  loop on the shared array: read index \<open>i\<close>, write index \<open>w\<close>.
\<close>

function compact_loop :: "('a \<Rightarrow> bool) \<Rightarrow> 'a list \<Rightarrow> nat \<Rightarrow> nat \<Rightarrow> 'a list \<times> nat" where
  "compact_loop keep arr i w =
     (if i < length arr then
        (if keep (arr ! i) then compact_loop keep (arr[w := arr ! i]) (Suc i) (Suc w)
         else compact_loop keep arr (Suc i) w)
      else (arr, w))"
  by pat_completeness auto
termination
  by (relation "measure (\<lambda>(keep, arr, i, w). length arr - i)") auto

declare compact_loop.simps [simp del]

definition compact :: "('a \<Rightarrow> bool) \<Rightarrow> 'a list \<Rightarrow> 'a list" where
  "compact keep arr = (case compact_loop keep arr 0 0 of (arr', w) \<Rightarrow> take w arr')"

lemma compact_loop_filter:
  "w \<le> i \<Longrightarrow> i \<le> length arr \<Longrightarrow>
   (case compact_loop keep arr i w of (arr', w') \<Rightarrow> take w' arr')
     = take w arr @ filter keep (drop i arr)"
proof (induction keep arr i w rule: compact_loop.induct)
  case (1 keep arr i w)
  show ?case
  proof (cases "i < length arr")
    case False
    with "1.prems" show ?thesis by (subst compact_loop.simps) simp
  next
    case True
    have drop: "drop i arr = arr ! i # drop (Suc i) arr"
      using True by (simp add: Cons_nth_drop_Suc)
    show ?thesis
    proof (cases "keep (arr ! i)")
      case keep: True
      have "take (Suc w) (arr[w := arr ! i]) = take w arr @ [arr ! i]"
        using True "1.prems" by (simp add: take_Suc_conv_app_nth take_update_cancel)
      with True keep "1.IH"(1) "1.prems" drop show ?thesis
        by (simp add: compact_loop.simps [of keep arr i w])
    next
      case skip: False
      with True "1.IH"(2) "1.prems" drop show ?thesis
        by (simp add: compact_loop.simps [of keep arr i w])
    qed
  qed
qed

lemma compact_filter: "compact keep arr = filter keep arr"
  using compact_loop_filter [of 0 0 arr keep] by (simp add: compact_def)

section \<open>Go maps\<close>

text \<open>
  A Go map is an association list with distinct keys: \<open>m[k] = v\<close> is \<open>AList.update\<close>,
  \<open>delete(m, k)\<close> is \<open>AList.delete\<close>, \<open>v, ok := m[k]\<close> is \<open>map_of\<close>. Iteration visits the
  pairs in list order; the results computed from an iteration do not depend on it.
\<close>

declare map_of_eq_Some_iff [simp del] Some_eq_map_of_iff [simp del]

lemmas alist_base [alist_simps] =
  update_conv' delete_conv' distinct_update

lemma distinct_delete [alist_simps]:
  "distinct (map fst xs) \<Longrightarrow> distinct (map fst (AList.delete k xs))"
  by (simp add: AList.delete_eq distinct_map_filter)

lemma distinct_filter_keys [alist_simps]:
  "distinct (map fst xs) \<Longrightarrow> distinct (map fst (filter P xs))"
  by (rule distinct_map_filter)

lemma sum_update_new:
  "map_of xs k = None \<Longrightarrow>
   sum_list (map f (AList.update k v xs)) = sum_list (map f xs) + (f (k, v) :: int)"
  by (induction xs) (auto split: if_splits)

lemma sum_update_old:
  "distinct (map fst xs) \<Longrightarrow> map_of xs k = Some old \<Longrightarrow>
   sum_list (map f (AList.update k v xs)) = sum_list (map f xs) - f (k, old) + (f (k, v) :: int)"
proof (induction xs)
  case Nil
  then show ?case by simp
next
  case (Cons x xs)
  obtain a b where x: "x = (a, b)" by fastforce
  show ?case
  proof (cases "a = k")
    case True
    with Cons.prems x show ?thesis by simp
  next
    case False
    with Cons x show ?thesis by simp
  qed
qed

lemma map_of_filter_keys:
  "distinct (map fst xs) \<Longrightarrow>
   map_of (filter (\<lambda>(k, v). P k v) xs) k
     = (case map_of xs k of None \<Rightarrow> None | Some v \<Rightarrow> if P k v then Some v else None)"
proof (induction xs)
  case Nil
  then show ?case by simp
next
  case (Cons x xs)
  obtain a b where x: "x = (a, b)" by fastforce
  have "a = k \<Longrightarrow> map_of xs k = None"
    using Cons.prems x by (auto simp: map_of_eq_None_iff)
  with Cons x show ?case by (auto split: option.splits)
qed

end
