(* ===== verification/Sha256.thy ===== *)
theory Sha256
  imports Prelude
begin

text \<open>
  The parts of Go's standard library that the sources hash with: SHA-256
  (\<open>crypto/sha256\<close>), HMAC-SHA-256 (\<open>crypto/hmac\<close>) and lower-case hexadecimal
  (\<open>encoding/hex\<close>). They are executable definitions after FIPS 180-4, RFC 2104 and the
  package documentation; the lemmas the protocol proofs use are the digest lengths and the
  injectivity of hexadecimal.
\<close>

section \<open>SHA-256\<close>

text \<open>
  The round constants and the initial state are defined as the standard states them: the first 32
  bits of the fractional parts of the cube roots of the first 64 primes, and of the square roots of
  the first 8. \<open>iroot e k n r\<close> adds the bits below \<open>2 ^ k\<close> of the \<open>e\<close>-th root of \<open>n\<close> to \<open>r\<close>.
\<close>

fun iroot :: "nat \<Rightarrow> nat \<Rightarrow> int \<Rightarrow> int \<Rightarrow> int" where
  "iroot e 0 n r = r"
| "iroot e (Suc k) n r = iroot e k n (if (r + 2 ^ k) ^ e \<le> n then r + 2 ^ k else r)"

lemma iroot_floor:
  assumes "r ^ e \<le> n" "n < (r + 2 ^ k) ^ e"
  shows "iroot e k n r ^ e \<le> n \<and> n < (iroot e k n r + 1) ^ e"
  using assms
proof (induction k arbitrary: r)
  case 0
  then show ?case by simp
next
  case (Suc k)
  have "r + 2 ^ Suc k = (r + 2 ^ k) + 2 ^ k" by simp
  then have "n < (r + 2 ^ k + 2 ^ k) ^ e" using Suc.prems(2) by (simp only:)
  then show ?case
    using Suc.IH [of r] Suc.IH [of "r + 2 ^ k"] Suc.prems(1)
    by (cases "(r + 2 ^ k) ^ e \<le> n") simp_all
qed

definition sha_primes :: "int list" where
  "sha_primes = filter (\<lambda>p. \<forall>d \<in> set [2..p - 1]. p mod d \<noteq> 0) [2..311]"

definition root_bits :: "nat \<Rightarrow> int \<Rightarrow> u32" where
  "root_bits e p = word_of_int (iroot e 40 (p * 2 ^ (32 * e)) 0)"

definition K256 :: "u32 list" where
  "K256 = map (root_bits 3) sha_primes"

text \<open>The eight working variables \<open>a\<close> to \<open>h\<close>.\<close>

datatype sha_state = Sha u32 u32 u32 u32 u32 u32 u32 u32

definition sha_init :: sha_state where
  "sha_init =
     Sha (root_bits 2 2) (root_bits 2 3) (root_bits 2 5) (root_bits 2 7)
         (root_bits 2 11) (root_bits 2 13) (root_bits 2 17) (root_bits 2 19)"

definition rotr32 :: "nat \<Rightarrow> u32 \<Rightarrow> u32" where
  "rotr32 n x = drop_bit n x OR push_bit (32 - n) x"

definition small_sigma0 :: "u32 \<Rightarrow> u32" where
  "small_sigma0 x = rotr32 7 x XOR rotr32 18 x XOR drop_bit 3 x"

definition small_sigma1 :: "u32 \<Rightarrow> u32" where
  "small_sigma1 x = rotr32 17 x XOR rotr32 19 x XOR drop_bit 10 x"

definition big_sigma0 :: "u32 \<Rightarrow> u32" where
  "big_sigma0 x = rotr32 2 x XOR rotr32 13 x XOR rotr32 22 x"

definition big_sigma1 :: "u32 \<Rightarrow> u32" where
  "big_sigma1 x = rotr32 6 x XOR rotr32 11 x XOR rotr32 25 x"

text \<open>The message schedule, newest word first while it grows from 16 to 64 words.\<close>

fun sha_expand :: "nat \<Rightarrow> u32 list \<Rightarrow> u32 list" where
  "sha_expand 0 ws = ws"
| "sha_expand (Suc k) ws =
     sha_expand k ((small_sigma1 (ws ! 1) + ws ! 6 + small_sigma0 (ws ! 14) + ws ! 15) # ws)"

definition sha_schedule :: "bytes \<Rightarrow> u32 list" where
  "sha_schedule blk = rev (sha_expand 48 (rev (map get32 (chunks 4 blk))))"

fun sha_round :: "sha_state \<Rightarrow> u32 \<times> u32 \<Rightarrow> sha_state" where
  "sha_round (Sha a b c d e f g h) (k, w) =
     (let t1 = h + big_sigma1 e + ((e AND f) XOR (NOT e AND g)) + k + w;
          t2 = big_sigma0 a + ((a AND b) XOR (a AND c) XOR (b AND c))
      in Sha (t1 + t2) a b c (d + t1) e f g)"

fun sha_add :: "sha_state \<Rightarrow> sha_state \<Rightarrow> sha_state" where
  "sha_add (Sha a b c d e f g h) (Sha a' b' c' d' e' f' g' h') =
     Sha (a + a') (b + b') (c + c') (d + d') (e + e') (f + f') (g + g') (h + h')"

definition sha_compress :: "sha_state \<Rightarrow> bytes \<Rightarrow> sha_state" where
  "sha_compress st blk = sha_add st (foldl sha_round st (zip K256 (sha_schedule blk)))"

definition sha_pad :: "bytes \<Rightarrow> bytes" where
  "sha_pad m =
     m @ [0x80] @ replicate ((119 - length m mod 64) mod 64) 0 @ be64 (of_nat (8 * length m))"

fun sha_digest :: "sha_state \<Rightarrow> bytes" where
  "sha_digest (Sha a b c d e f g h) =
     be32 a @ be32 b @ be32 c @ be32 d @ be32 e @ be32 f @ be32 g @ be32 h"

definition sha256 :: "bytes \<Rightarrow> bytes" where
  "sha256 m = sha_digest (foldl sha_compress sha_init (chunks 64 (sha_pad m)))"

lemma length_sha256 [simp, len_simps]: "length (sha256 m) = 32"
  unfolding sha256_def by (cases "foldl sha_compress sha_init (chunks 64 (sha_pad m))") simp

lemma sha256_neq_Nil [simp]: "sha256 m \<noteq> []"
  using length_sha256 [of m] by (metis list.size(3) zero_neq_numeral)

text \<open>Padding fills a whole number of 64-byte blocks.\<close>

lemma sha_pad_blocks: "length (sha_pad m) mod 64 = 0"
proof -
  define r where "r = length m mod 64"
  have r: "r < 64" by (simp add: r_def)
  have "(r + 9 + (119 - r) mod 64) mod 64 = 0"
  proof (cases "r < 56")
    case True
    then have "119 - r = 64 + (55 - r)" by simp
    then have "(119 - r) mod 64 = 55 - r" by (simp only: mod_add_self1) simp
    with True show ?thesis by simp
  next
    case False
    with r have "(119 - r) mod 64 = 119 - r" by simp
    with False r show ?thesis by simp
  qed
  then have "(length m + (9 + (119 - r) mod 64)) mod 64 = 0"
    by (simp add: r_def add.assoc mod_add_left_eq)
  then show ?thesis by (simp add: sha_pad_def r_def add.commute add.left_commute)
qed

section \<open>HMAC-SHA-256\<close>

definition hmac_key :: "bytes \<Rightarrow> bytes" where
  "hmac_key key =
     (let k = (if length key > 64 then sha256 key else key)
      in k @ replicate (64 - length k) 0)"

definition hmac_sha256 :: "bytes \<Rightarrow> bytes \<Rightarrow> bytes" where
  "hmac_sha256 key msg =
     sha256 (map (\<lambda>b. b XOR 0x5c) (hmac_key key)
             @ sha256 (map (\<lambda>b. b XOR 0x36) (hmac_key key) @ msg))"

lemma length_hmac_sha256 [simp, len_simps]: "length (hmac_sha256 k m) = 32"
  by (simp add: hmac_sha256_def)

section \<open>Hexadecimal\<close>

definition hextable :: string where
  "hextable = ''0123456789abcdef''"

definition hex_encode :: "bytes \<Rightarrow> string" where
  "hex_encode b = concat (map (\<lambda>w. [hextable ! unat (drop_bit 4 w), hextable ! unat (w AND 0x0f)]) b)"

lemma length_hex_encode [simp]: "length (hex_encode b) = 2 * length b"
  by (induction b) (simp_all add: hex_encode_def)

lemma distinct_hextable: "distinct hextable"
  by (simp add: hextable_def)

lemma length_hextable: "length hextable = 16"
  by (simp add: hextable_def)

lemma high_nibble_bound: "unat (drop_bit 4 (w :: byte)) < 16"
proof -
  have "unat w < 2 ^ LENGTH(8)" by (rule unsigned_less)
  then show ?thesis by (simp add: unat_drop_bit_eq) (simp add: drop_bit_eq_div)
qed

lemma low_nibble_bound: "unat ((w :: byte) AND 0x0f) < 16"
proof -
  have "unat (w AND 0x0f) \<le> unat (0x0f :: byte)"
    by (rule word_and_le1 [THEN word_le_nat_alt [THEN iffD1]])
  then show ?thesis by simp
qed

lemma nibbles_inject:
  assumes "drop_bit 4 (v :: byte) = drop_bit 4 w" and "v AND 0x0f = w AND 0x0f"
  shows "v = w"
proof (rule bit_word_eqI)
  fix n
  assume "n < LENGTH(8)"
  then have n8: "n < 8" by simp
  have mask: "(0x0f :: byte) = mask 4" by (simp add: mask_eq_exp_minus_1)
  show "bit v n = bit w n"
  proof (cases "n < 4")
    case True
    from assms(2) have "bit (v AND 0x0f) n = bit (w AND 0x0f) n" by simp
    with True show ?thesis by (simp add: mask bit_and_iff bit_mask_iff)
  next
    case False
    from assms(1) have "bit (drop_bit 4 v) (n - 4) = bit (drop_bit 4 w) (n - 4)" by simp
    with False show ?thesis by (simp add: bit_drop_bit_eq)
  qed
qed

lemma hex_encode_inject: "hex_encode v = hex_encode w \<longleftrightarrow> v = w"
proof
  assume "hex_encode v = hex_encode w"
  then show "v = w"
  proof (induction v arbitrary: w)
    case Nil
    then show ?case by (cases w) (simp_all add: hex_encode_def)
  next
    case (Cons a v)
    then obtain b w' where w: "w = b # w'" by (cases w) (auto simp: hex_encode_def)
    from Cons.prems w have heads:
      "hextable ! unat (drop_bit 4 a) = hextable ! unat (drop_bit 4 b)"
      "hextable ! unat (a AND 0x0f) = hextable ! unat (b AND 0x0f)"
      and tails: "hex_encode v = hex_encode w'"
      by (simp_all add: hex_encode_def)
    have "unat (drop_bit 4 a) = unat (drop_bit 4 b)" "unat (a AND 0x0f) = unat (b AND 0x0f)"
      using heads high_nibble_bound low_nibble_bound distinct_hextable length_hextable
      by (simp_all add: nth_eq_iff_index_eq)
    then have "a = b" using nibbles_inject [of a b] by (simp add: word_unat_eq_iff)
    with Cons.IH tails w show ?case by simp
  qed
qed simp

end
