(* ===== verification/Errors.thy ===== *)
theory Errors
  imports Sha256
begin

text \<open>
  Constants and errors of package protocol: the limits of \<open>limits.go\<close>, the numeric error codes
  and \<open>ProtocolError\<close> of \<open>errors.go\<close>, the length check of \<open>framing.go\<close> and the mapping of an
  arbitrary Go error to a \<open>ProtocolError\<close> of \<open>error_codec.go\<close>. A Go \<open>error\<close> is a
  \<open>go_error\<close>; a function that returns a value and an error returns \<open>go_error + 'a\<close>; a
  validation that returns only an error returns \<open>go_error option\<close> (None is nil).
\<close>

section \<open>Limits\<close>

definition MaxMessageBytes :: nat where [simp, limit_defs]: "MaxMessageBytes = 32768"
definition MaxChunkBytes :: nat where [simp, limit_defs]: "MaxChunkBytes = 65536"
definition MaxFileBytes :: nat where [simp, limit_defs]: "MaxFileBytes = 1073741824"
definition MaxChunksPerTransfer :: nat where [simp, limit_defs]: "MaxChunksPerTransfer = 16384"
definition MaxActiveTransfersPerMailbox :: nat where
  [simp, limit_defs]: "MaxActiveTransfersPerMailbox = 16"
definition MaxQueuedMessages :: nat where [simp, limit_defs]: "MaxQueuedMessages = 100"
definition MaxStoredBytesPerMailbox :: int where
  [simp, limit_defs]: "MaxStoredBytesPerMailbox = 16777216"
definition MaxRequestBytes :: nat where [simp, limit_defs]: "MaxRequestBytes = 131072"
definition MaxBatchMessages :: nat where [simp, limit_defs]: "MaxBatchMessages = 32"
definition MaxMissingRanges :: nat where [simp, limit_defs]: "MaxMissingRanges = 1024"
definition MaxManifestBytes :: nat where [simp, limit_defs]: "MaxManifestBytes = 4096"

text \<open>Times to live, in seconds; the store works in milliseconds.\<close>

definition MsgTTLSeconds :: int where [simp, limit_defs]: "MsgTTLSeconds = 1209600"
definition MailboxTTLSeconds :: int where [simp, limit_defs]: "MailboxTTLSeconds = 31536000"
definition UploadTTLSeconds :: int where [simp, limit_defs]: "UploadTTLSeconds = 86400"
definition UploadTTLMaxSeconds :: int where [simp, limit_defs]: "UploadTTLMaxSeconds = 604800"
definition CompleteTTLSeconds :: int where [simp, limit_defs]: "CompleteTTLSeconds = 1209600"
definition CapabilityTTLSeconds :: int where [simp, limit_defs]: "CapabilityTTLSeconds = 31536000"
definition RoutingTableTTLSeconds :: int where [simp, limit_defs]: "RoutingTableTTLSeconds = 3600"
definition ReplayWindowSeconds :: int where [simp, limit_defs]: "ReplayWindowSeconds = 90"
definition MaxClockSkewMillis :: int where [simp, limit_defs]: "MaxClockSkewMillis = 30000"

section \<open>Error codes\<close>

abbreviation (input) ErrOK :: u32 where "ErrOK \<equiv> 0"
abbreviation (input) ErrInvalidRequest :: u32 where "ErrInvalidRequest \<equiv> 1"
abbreviation (input) ErrUnsupportedProtocol :: u32 where "ErrUnsupportedProtocol \<equiv> 2"
abbreviation (input) ErrAuthFailed :: u32 where "ErrAuthFailed \<equiv> 3"
abbreviation (input) ErrReplayDetected :: u32 where "ErrReplayDetected \<equiv> 4"
abbreviation (input) ErrExpiredRequest :: u32 where "ErrExpiredRequest \<equiv> 5"
abbreviation (input) ErrMailboxNotFound :: u32 where "ErrMailboxNotFound \<equiv> 6"
abbreviation (input) ErrMailboxExpired :: u32 where "ErrMailboxExpired \<equiv> 7"
abbreviation (input) ErrMessageTooLarge :: u32 where "ErrMessageTooLarge \<equiv> 8"
abbreviation (input) ErrQuotaExceeded :: u32 where "ErrQuotaExceeded \<equiv> 9"
abbreviation (input) ErrTransferNotFound :: u32 where "ErrTransferNotFound \<equiv> 10"
abbreviation (input) ErrTransferExpired :: u32 where "ErrTransferExpired \<equiv> 11"
abbreviation (input) ErrChunkInvalid :: u32 where "ErrChunkInvalid \<equiv> 12"
abbreviation (input) ErrChunkConflict :: u32 where "ErrChunkConflict \<equiv> 13"
abbreviation (input) ErrChunkOutOfRange :: u32 where "ErrChunkOutOfRange \<equiv> 14"
abbreviation (input) ErrStorageUnavailable :: u32 where "ErrStorageUnavailable \<equiv> 15"
abbreviation (input) ErrRateLimited :: u32 where "ErrRateLimited \<equiv> 16"
abbreviation (input) ErrServerUnavailable :: u32 where "ErrServerUnavailable \<equiv> 17"
abbreviation (input) ErrTransferConflict :: u32 where "ErrTransferConflict \<equiv> 18"
abbreviation (input) ErrHashMismatch :: u32 where "ErrHashMismatch \<equiv> 19"
abbreviation (input) ErrPayloadTooLarge :: u32 where "ErrPayloadTooLarge \<equiv> 20"
abbreviation (input) ErrBatchTooLarge :: u32 where "ErrBatchTooLarge \<equiv> 21"

section \<open>Errors\<close>

record ProtocolError =
  Code :: u32
  Detail :: string
  RetryAfter :: u32

text \<open>
  A Go error is a \<open>*ProtocolError\<close>, the sentinel \<open>nanopack.ErrShortBody\<close>, or an error of
  a package outside the repository.
\<close>

datatype go_error = ProtoErr ProtocolError | ErrShortBody | ForeignErr string

definition mk_error :: "u32 \<Rightarrow> string \<Rightarrow> ProtocolError" where
  "mk_error code detail = \<lparr>Code = code, Detail = detail, RetryAfter = 0\<rparr>"

abbreviation perr :: "u32 \<Rightarrow> string \<Rightarrow> go_error" where
  "perr code detail \<equiv> ProtoErr (mk_error code detail)"

lemma mk_error_sel [simp]:
  "Code (mk_error c d) = c" "Detail (mk_error c d) = d" "RetryAfter (mk_error c d) = 0"
  by (simp_all add: mk_error_def)

definition AsProtocolError :: "go_error \<Rightarrow> ProtocolError" where
  "AsProtocolError err =
     (case err of ProtoErr pe \<Rightarrow> pe | _ \<Rightarrow> mk_error ErrInvalidRequest ''invalid request'')"

lemma AsProtocolError_simps [simp]:
  "AsProtocolError (ProtoErr pe) = pe"
  "AsProtocolError ErrShortBody = mk_error ErrInvalidRequest ''invalid request''"
  "AsProtocolError (ForeignErr s) = mk_error ErrInvalidRequest ''invalid request''"
  by (simp_all add: AsProtocolError_def)

subsection \<open>The decimal rendering of a code\<close>

text \<open>
  \<open>itoa\<close> fills a 10-byte buffer from its end: the loop prepends one digit per step.
\<close>

function itoa_loop :: "u32 \<Rightarrow> string \<Rightarrow> string" where
  "itoa_loop v b =
     (if 0 < v then itoa_loop (v div 10) (char_of (48 + unat (v mod 10)) # b) else b)"
  by pat_completeness auto
termination
proof (relation "measure (\<lambda>(v, b). unat v)")
  fix v :: u32 and b :: string
  assume "0 < v"
  then show "((v div 10, char_of (48 + unat (v mod 10)) # b), v, b) \<in> measure (\<lambda>(v, b). unat v)"
    by (simp add: unat_div word_less_nat_alt)
qed simp

declare itoa_loop.simps [simp del]

definition itoa :: "u32 \<Rightarrow> string" where
  "itoa v = (if v = 0 then ''0'' else itoa_loop v [])"

definition error_string :: "ProtocolError \<Rightarrow> string" where
  "error_string e =
     (if Detail e \<noteq> [] then ''filerelay error '' @ itoa (Code e) @ '': '' @ Detail e
      else ''filerelay error '' @ itoa (Code e))"

lemma itoa_loop_decimal: "0 < v \<Longrightarrow> itoa_loop v b = decimal (unat v) @ b"
proof (induction v b rule: itoa_loop.induct)
  case (1 v b)
  have step: "itoa_loop v b = itoa_loop (v div 10) (char_of (48 + unat (v mod 10)) # b)"
    using "1.prems" by (simp add: itoa_loop.simps [of v b])
  show ?case
  proof (cases "unat v < 10")
    case True
    then have "v div 10 = 0" "unat (v mod 10) = unat v"
      by (simp_all add: word_unat_eq_iff unat_div unat_mod)
    with True step show ?thesis
      by (simp add: itoa_loop.simps [of 0] decimal.simps [of "unat v"])
  next
    case False
    then have "0 < v div 10" by (simp add: word_less_nat_alt unat_div)
    with False "1.IH" "1.prems" step show ?thesis
      by (simp add: decimal.simps [of "unat v"] unat_div unat_mod)
  qed
qed

lemma itoa_decimal: "itoa v = decimal (unat v)"
  by (simp add: itoa_def itoa_loop_decimal word_neq_0_conv decimal.simps char_of_def bit_0)

lemma length_decimal: "n < 10 ^ k \<Longrightarrow> 0 < k \<Longrightarrow> length (decimal n) \<le> k"
proof (induction n arbitrary: k rule: decimal.induct)
  case (1 n)
  show ?case
  proof (cases "n < 10")
    case True
    with "1.prems" show ?thesis by (simp add: decimal.simps [of n])
  next
    case False
    from "1.prems" obtain j where k: "k = Suc j" by (cases k) auto
    with False "1.prems" have j: "0 < j" by (cases j) auto
    from k "1.prems" have lt: "n < 10 * 10 ^ j" by simp
    then have "n div 10 < 10 ^ j" by (simp add: less_mult_imp_div_less mult.commute)
    with "1.IH" False j k show ?thesis by (simp add: decimal.simps [of n])
  qed
qed

section \<open>Length checks\<close>

definition CheckBodyLen :: "int \<Rightarrow> int \<Rightarrow> go_error option" where
  "CheckBodyLen n limit =
     (if n < 0 \<or> n > limit
      then Some (perr ErrPayloadTooLarge
                  (''declared len '' @ decimal_int n @ '' exceeds '' @ decimal_int limit))
      else None)"

definition EncodeHTTPBody :: "bytes \<Rightarrow> go_error + bytes" where
  "EncodeHTTPBody body =
     (if length body > MaxRequestBytes \<and> length body > MaxChunkBytes + 1024
      then Inl (perr ErrPayloadTooLarge ''body exceeds max request'')
      else Inr body)"

lemma CheckBodyLen_None [simp]: "CheckBodyLen (int n) (int limit) = None \<longleftrightarrow> n \<le> limit"
  by (simp add: CheckBodyLen_def)

section \<open>Packets on a stream\<close>

text \<open>The packet functions of the serialisation library are the arguments \<open>wrapPacket\<close> (schema id, body,
  flags) and \<open>unwrapPacket\<close>, which gives major and minor version, schema id, flags, body and the number of
  bytes read.\<close>

definition WrapStream :: "(u8 \<Rightarrow> bytes \<Rightarrow> u8 \<Rightarrow> bytes) \<Rightarrow> u8 \<Rightarrow> bytes \<Rightarrow> bytes" where
  "WrapStream wrapPacket schemaID body = wrapPacket schemaID body 0"

definition UnwrapStream ::
  "(bytes \<Rightarrow> go_error + u8 \<times> u8 \<times> u8 \<times> u8 \<times> bytes \<times> nat) \<Rightarrow> bytes \<Rightarrow> go_error + u8 \<times> bytes \<times> nat" where
  "UnwrapStream unwrapPacket buf =
     (case unwrapPacket buf of
        Inl e \<Rightarrow> Inl e
      | Inr (major, minor, schemaID, flags, body, n) \<Rightarrow> Inr (schemaID, body, n))"

end
