(* ===== verification/Nanopack.thy ===== *)
theory Nanopack
  imports Errors
begin

text \<open>
  The serialisation library \<open>github.com/erfanheydarzade/nanopack\<close> is not part of the
  repository: its encoder and decoder are a parameter \<open>np\<close> of every codec. What the codecs
  rely on is the locale \<open>nanopack_codec\<close>: decoding an encoding gives the encoded fields back,
  and the size of an encoding is the one of the layout that \<open>FRAMING.md\<close> documents. The layout
  itself, written out as \<open>framing\<close>, satisfies both laws, so they are consistent, and with it the
  modelled codecs reproduce the repository's cross-language vectors (\<open>Wire_Properties\<close>).

  The theory also holds the integer helpers of \<open>schemas.go\<close> and the loop
  \<open>for _, f := range fields { switch f.ID ... }\<close> that every \<open>Unmarshal\<close> function runs.
\<close>

type_synonym field = "u8 \<times> bytes"

record nanopack =
  np_bytes :: "field list \<Rightarrow> go_error + bytes"   \<comment> \<open>\<open>Encoder.AddID\<close> calls, then \<open>Bytes\<close>\<close>
  np_decode :: "bytes \<Rightarrow> go_error + field list"  \<comment> \<open>\<open>DecodeID\<close>\<close>

section \<open>Integer helpers\<close>

definition putU64 :: "u64 \<Rightarrow> bytes" where "putU64 v = be64 v"

definition putU32 :: "u32 \<Rightarrow> bytes" where "putU32 v = be32 v"

definition getU64 :: "bytes \<Rightarrow> go_error + u64" where
  "getU64 b = (if length b \<noteq> 8 then Inl ErrShortBody else Inr (get64 b))"

definition getU32 :: "bytes \<Rightarrow> go_error + u32" where
  "getU32 b = (if length b \<noteq> 4 then Inl ErrShortBody else Inr (get32 b))"

text \<open>The inline test \<open>if len(f.Data) != 1 { return nil, nanopack.ErrShortBody }\<close>.\<close>

definition getU8 :: "bytes \<Rightarrow> go_error + u8" where
  "getU8 b = (if length b \<noteq> 1 then Inl ErrShortBody else Inr (b ! 0))"

lemma getU_put [simp]:
  "getU64 (putU64 v) = Inr v" "getU32 (putU32 w) = Inr w" "getU8 [c] = Inr c"
  by (simp_all add: getU64_def putU64_def getU32_def putU32_def getU8_def)

lemma length_putU [simp, len_simps]: "length (putU64 v) = 8" "length (putU32 w) = 4"
  by (simp_all add: putU64_def putU32_def)

section \<open>The field loop\<close>

text \<open>
  \<open>step out id data\<close> is the body of the \<open>switch\<close>: it stores the field, ignores an unknown
  id, or returns an error, which ends the loop.
\<close>

fun run_fields :: "('s \<Rightarrow> u8 \<Rightarrow> bytes \<Rightarrow> go_error + 's) \<Rightarrow> 's \<Rightarrow> field list \<Rightarrow> go_error + 's" where
  "run_fields step s [] = Inr s"
| "run_fields step s ((fid, d) # fs) =
     (case step s fid d of Inl e \<Rightarrow> Inl e | Inr s' \<Rightarrow> run_fields step s' fs)"

text \<open>
  The shape of every \<open>Unmarshal\<close> function: check the length, decode, run the loop from the
  zero value, check the result.
\<close>

definition unmarshal ::
  "nanopack \<Rightarrow> nat \<Rightarrow> ('s \<Rightarrow> u8 \<Rightarrow> bytes \<Rightarrow> go_error + 's) \<Rightarrow> 's \<Rightarrow> ('s \<Rightarrow> go_error + 'a) \<Rightarrow> bytes
   \<Rightarrow> go_error + 'a" where
  "unmarshal np limit step zero finish body =
     (case CheckBodyLen (int (length body)) (int limit) of
        Some e \<Rightarrow> Inl e
      | None \<Rightarrow>
          (case np_decode np body of
             Inl e \<Rightarrow> Inl e
           | Inr flds \<Rightarrow>
               (case run_fields step zero flds of Inl e \<Rightarrow> Inl e | Inr s \<Rightarrow> finish s)))"

text \<open>Storing a decoded integer in the message under construction.\<close>

definition store_field :: "go_error + 'v \<Rightarrow> ('v \<Rightarrow> 's) \<Rightarrow> go_error + 's" where
  "store_field r k = (case r of Inl e \<Rightarrow> Inl e | Inr v \<Rightarrow> Inr (k v))"

lemma store_field_simps [simp]:
  "store_field (Inl e) k = Inl e" "store_field (Inr v) k = Inr (k v)"
  by (simp_all add: store_field_def)

text \<open>The check that ends an \<open>Unmarshal\<close> function or starts a \<open>Marshal\<close> function.\<close>

definition check :: "go_error option \<Rightarrow> 'a \<Rightarrow> go_error + 'a" where
  "check err v = (case err of Some e \<Rightarrow> Inl e | None \<Rightarrow> Inr v)"

lemma check_Inr [simp]: "check err v = Inr w \<longleftrightarrow> err = None \<and> w = v"
  by (auto simp: check_def split: option.splits)

lemma check_None [simp]: "check None v = Inr v"
  by (simp add: check_def)

definition marshal :: "nanopack \<Rightarrow> go_error option \<Rightarrow> field list \<Rightarrow> go_error + bytes" where
  "marshal np err fs = (case err of Some e \<Rightarrow> Inl e | None \<Rightarrow> np_bytes np fs)"

lemma marshal_Inr: "marshal np err fs = Inr body \<longleftrightarrow> err = None \<and> np_bytes np fs = Inr body"
  by (auto simp: marshal_def split: option.splits)

lemma run_fields_append:
  "run_fields step s (fs @ gs)
     = (case run_fields step s fs of Inl e \<Rightarrow> Inl e | Inr s' \<Rightarrow> run_fields step s' gs)"
  by (induction fs arbitrary: s) (auto split: sum.splits)

text \<open>Fields a step ignores can be inserted anywhere without changing the result.\<close>

lemma run_fields_unknown:
  assumes "\<And>s. step s fid d = Inr s"
  shows "run_fields step s (fs @ (fid, d) # gs) = run_fields step s (fs @ gs)"
  by (simp add: run_fields_append assms split: sum.splits)

section \<open>The laws the codecs rely on\<close>

text \<open>Length of the ULEB128 form of a length, and of a whole body: \<open>FRAMING.md\<close>.\<close>

fun uleb_size :: "nat \<Rightarrow> nat" where
  "uleb_size n = (if n < 128 then 1 else Suc (uleb_size (n div 128)))"

declare uleb_size.simps [simp del]

definition body_size :: "field list \<Rightarrow> nat" where
  "body_size fs = 1 + sum_list (map (\<lambda>(fid, d). 1 + uleb_size (length d) + length d) fs)"

lemma uleb_size_small:
  "n < 128 \<Longrightarrow> uleb_size n = 1"
  "n < 16384 \<Longrightarrow> uleb_size n \<le> 2"
  "n < 2097152 \<Longrightarrow> uleb_size n \<le> 3"
  by (simp_all add: uleb_size.simps [of n] uleb_size.simps [of "n div 128"]
        uleb_size.simps [of "n div 16384"] div_mult2_eq [symmetric] less_mult_imp_div_less)

lemma uleb_size_pos: "1 \<le> uleb_size n"
  by (simp add: uleb_size.simps [of n])

lemma body_size_simps [simp]:
  "body_size [] = 1"
  "body_size ((fid, d) # fs) = 1 + uleb_size (length d) + length d + body_size fs"
  by (simp_all add: body_size_def)

locale nanopack_codec =
  fixes np :: nanopack
  assumes np_roundtrip: "np_bytes np fs = Inr body \<Longrightarrow> np_decode np body = Inr fs"
    and np_size: "np_bytes np fs = Inr body \<Longrightarrow> length body = body_size fs"
begin

text \<open>
  The round trip every schema uses: a body that was marshalled from \<open>fs\<close> unmarshals to what
  the field loop and the final check make of \<open>fs\<close>.
\<close>

lemma unmarshal_marshal:
  assumes "marshal np err fs = Inr body" and "body_size fs \<le> limit"
  shows "unmarshal np limit step zero finish body
           = (case run_fields step zero fs of Inl e \<Rightarrow> Inl e | Inr s \<Rightarrow> finish s)"
  using assms np_roundtrip [of fs body] np_size [of fs body]
  by (simp add: marshal_Inr unmarshal_def CheckBodyLen_def)

lemma unmarshal_bytes:
  assumes "np_bytes np fs = Inr body" and "body_size fs \<le> limit"
  shows "unmarshal np limit step zero finish body
           = (case run_fields step zero fs of Inl e \<Rightarrow> Inl e | Inr s \<Rightarrow> finish s)"
  using unmarshal_marshal [of None fs body limit] assms by (simp add: marshal_Inr)

lemma bytes_nonempty: "np_bytes np fs = Inr body \<Longrightarrow> 0 < length body"
  using np_size [of fs body] by (simp add: body_size_def)

lemma marshal_too_long:
  assumes "marshal np err fs = Inr body" and "limit < body_size fs"
  shows "\<exists>e. unmarshal np limit step zero finish body = Inl (ProtoErr e) \<and> Code e = ErrPayloadTooLarge"
  using assms np_size [of fs body]
  by (simp add: marshal_Inr unmarshal_def CheckBodyLen_def)

end

text \<open>
  A library that also encodes every list of fields whose number fits the count byte of the layout: what
  the theorems about requests that succeed need.
\<close>

locale total_codec = nanopack_codec +
  assumes np_total: "length fs < 256 \<Longrightarrow> \<exists>body. np_bytes np fs = Inr body"
begin

lemma marshal_total: "length fs < 256 \<Longrightarrow> \<exists>body. marshal np None fs = Inr body"
  by (simp add: marshal_def np_total)

end

section \<open>The documented layout\<close>

text \<open>\<open>[fieldCount u8]([fieldID u8][len ULEB128])*\<close>, then the raw bodies concatenated.\<close>

fun uleb :: "nat \<Rightarrow> bytes" where
  "uleb n = (if n < 128 then [of_nat n] else of_nat (128 + n mod 128) # uleb (n div 128))"

declare uleb.simps [simp del]

fun read_uleb :: "bytes \<Rightarrow> (nat \<times> bytes) option" where
  "read_uleb [] = None"
| "read_uleb (b # bs) =
     (if unat b < 128 then Some (unat b, bs)
      else (case read_uleb bs of None \<Rightarrow> None | Some (n, rest) \<Rightarrow> Some (unat b - 128 + 128 * n, rest)))"

definition framing_header :: "field list \<Rightarrow> bytes" where
  "framing_header fs = concat (map (\<lambda>(fid, d). fid # uleb (length d)) fs)"

definition framing_bytes :: "field list \<Rightarrow> go_error + bytes" where
  "framing_bytes fs =
     (if length fs < 256
      then Inr (of_nat (length fs) # framing_header fs @ concat (map snd fs))
      else Inl (ForeignErr ''too many fields''))"

fun read_header :: "nat \<Rightarrow> bytes \<Rightarrow> ((u8 \<times> nat) list \<times> bytes) option" where
  "read_header 0 bs = Some ([], bs)"
| "read_header (Suc n) [] = None"
| "read_header (Suc n) (fid # bs) =
     (case read_uleb bs of
        None \<Rightarrow> None
      | Some (len, rest) \<Rightarrow>
          (case read_header n rest of
             None \<Rightarrow> None
           | Some (hs, rest') \<Rightarrow> Some ((fid, len) # hs, rest')))"

fun read_bodies :: "(u8 \<times> nat) list \<Rightarrow> bytes \<Rightarrow> field list option" where
  "read_bodies [] bs = (if bs = [] then Some [] else None)"
| "read_bodies ((fid, len) # hs) bs =
     (if length bs < len then None
      else map_option (\<lambda>fs. (fid, take len bs) # fs) (read_bodies hs (drop len bs)))"

definition framing_decode :: "bytes \<Rightarrow> go_error + field list" where
  "framing_decode body =
     (case body of
        [] \<Rightarrow> Inl ErrShortBody
      | count # rest \<Rightarrow>
          (case read_header (unat count) rest of
             None \<Rightarrow> Inl ErrShortBody
           | Some (hs, bs) \<Rightarrow>
               (case read_bodies hs bs of None \<Rightarrow> Inl ErrShortBody | Some fs \<Rightarrow> Inr fs)))"

definition framing :: nanopack where
  "framing = \<lparr>np_bytes = framing_bytes, np_decode = framing_decode\<rparr>"

lemma read_uleb_uleb: "read_uleb (uleb n @ rest) = Some (n, rest)"
proof (induction n rule: uleb.induct)
  case (1 n)
  show ?case
  proof (cases "n < 128")
    case True
    then show ?thesis by (simp add: uleb.simps [of n] unat_of_nat)
  next
    case False
    have "n mod 128 < 128" by simp
    then have byte: "unat (of_nat (128 + n mod 128) :: byte) = 128 + n mod 128"
      by (simp add: unat_of_nat del: of_nat_add)
    from False "1.IH" have "read_uleb (uleb (n div 128) @ rest) = Some (n div 128, rest)" by simp
    with False byte show ?thesis by (simp add: uleb.simps [of n] del: of_nat_add)
  qed
qed

lemma length_uleb: "length (uleb n) = uleb_size n"
  by (induction n rule: uleb.induct) (simp add: uleb.simps uleb_size.simps)

lemma read_header_framing:
  "read_header (length fs) (framing_header fs @ rest)
     = Some (map (\<lambda>(fid, d). (fid, length d)) fs, rest)"
  by (induction fs) (auto simp: framing_header_def read_uleb_uleb)

lemma read_bodies_framing:
  "read_bodies (map (\<lambda>(fid, d). (fid, length d)) fs) (concat (map snd fs)) = Some fs"
  by (induction fs) auto

lemma length_framing:
  "length (framing_header fs) + length (concat (map snd fs)) + 1 = body_size fs"
  by (induction fs) (auto simp: framing_header_def length_uleb)

interpretation framing_laws: total_codec framing
proof unfold_locales
  fix fs body
  assume enc: "np_bytes framing fs = Inr body"
  then have few: "length fs < 256"
    and body: "body = of_nat (length fs) # framing_header fs @ concat (map snd fs)"
    by (auto simp: framing_def framing_bytes_def split: if_splits)
  then have "unat (of_nat (length fs) :: byte) = length fs"
    by (simp add: unat_of_nat)
  then show "np_decode framing body = Inr fs"
    by (simp add: framing_def framing_decode_def body read_header_framing read_bodies_framing)
  show "length body = body_size fs"
    using length_framing [of fs] by (simp add: body)
next
  show "\<exists>body. np_bytes framing fs = Inr body" if "length fs < 256" for fs
    using that by (simp add: framing_def framing_bytes_def)
qed

end
