(* ===== verification/Wire_Messages.thy ===== *)
theory Wire_Messages
  imports Nanopack
begin

text \<open>
  Codecs of the message plane, from \<open>protocol/schemas.go\<close> and \<open>protocol/messages.go\<close>: \<open>Error\<close>
  (51), \<open>SendMessage\<close> (57), \<open>SendMessageResponse\<close> (58), \<open>ReceiveMessages\<close> (59),
  \<open>ReceiveMessagesResponse\<close> (60), \<open>MessageAck\<close> (61) and \<open>MessageAckResponse\<close> (62). Each schema
  is a record, a validation, the body of its field \<open>switch\<close>, a \<open>Marshal\<close> and an \<open>Unmarshal\<close>
  function; the lemmas of the locale \<open>nanopack_codec\<close> say that a marshalled message
  unmarshals to itself.
\<close>

section \<open>Error (51)\<close>

definition MarshalError :: "nanopack \<Rightarrow> ProtocolError \<Rightarrow> go_error + bytes" where
  "MarshalError np e =
     np_bytes np ([(1, putU32 (Code e))]
                  @ (if Detail e \<noteq> [] then [(2, bytes_of (Detail e))] else [])
                  @ (if RetryAfter e \<noteq> 0 then [(3, putU32 (RetryAfter e))] else []))"

definition ProtocolError_zero :: ProtocolError where
  "ProtocolError_zero = \<lparr>Code = 0, Detail = [], RetryAfter = 0\<rparr>"

definition ProtocolError_field :: "ProtocolError \<Rightarrow> u8 \<Rightarrow> bytes \<Rightarrow> go_error + ProtocolError" where
  "ProtocolError_field out fid d =
     (if fid = 1 then store_field (getU32 d) (\<lambda>v. out\<lparr>Code := v\<rparr>)
      else if fid = 2 then Inr (out\<lparr>Detail := string_of d\<rparr>)
      else if fid = 3 then store_field (getU32 d) (\<lambda>v. out\<lparr>RetryAfter := v\<rparr>)
      else Inr out)"

definition UnmarshalError :: "nanopack \<Rightarrow> bytes \<Rightarrow> go_error + ProtocolError" where
  "UnmarshalError np body =
     unmarshal np 4096 ProtocolError_field ProtocolError_zero
       (\<lambda>out. if Code out = 0 then Inl (perr ErrInvalidRequest ''error code 0 is reserved'')
              else Inr out) body"

section \<open>SendMessage (57)\<close>

record SendMessage =
  sm_MailboxID :: bytes
  sm_Envelope :: bytes
  sm_SenderPub :: bytes
  sm_Timestamp :: u64
  sm_Nonce :: bytes
  sm_Signature :: bytes
  sm_TTLHintSec :: u32
  sm_Burn :: u8

definition SendMessage_zero :: SendMessage where
  "SendMessage_zero =
     \<lparr>sm_MailboxID = [], sm_Envelope = [], sm_SenderPub = [], sm_Timestamp = 0, sm_Nonce = [],
      sm_Signature = [], sm_TTLHintSec = 0, sm_Burn = 0\<rparr>"

definition ValidateSendMessage :: "SendMessage \<Rightarrow> go_error option" where
  "ValidateSendMessage m =
     (if length (sm_MailboxID m) \<noteq> 16 then
        Some (perr ErrInvalidRequest ''mailbox_id must be 16 bytes'')
      else if length (sm_Envelope m) = 0 \<or> length (sm_Envelope m) > MaxMessageBytes then
        Some (perr ErrMessageTooLarge ''envelope size out of bounds'')
      else if length (sm_SenderPub m) \<noteq> 32 then
        Some (perr ErrAuthFailed ''sender_pub must be 32 bytes'')
      else if length (sm_Nonce m) \<noteq> 16 then
        Some (perr ErrInvalidRequest ''nonce must be 16 bytes'')
      else if length (sm_Signature m) \<noteq> 64 then
        Some (perr ErrAuthFailed ''signature must be 64 bytes'')
      else None)"

definition MarshalSendMessage :: "nanopack \<Rightarrow> SendMessage \<Rightarrow> go_error + bytes" where
  "MarshalSendMessage np m =
     marshal np (ValidateSendMessage m)
       [(1, sm_MailboxID m), (2, sm_Envelope m), (3, sm_SenderPub m), (4, putU64 (sm_Timestamp m)),
        (5, sm_Nonce m), (6, sm_Signature m), (7, putU32 (sm_TTLHintSec m)), (8, [sm_Burn m])]"

definition SendMessage_field :: "SendMessage \<Rightarrow> u8 \<Rightarrow> bytes \<Rightarrow> go_error + SendMessage" where
  "SendMessage_field m fid d =
     (if fid = 1 then Inr (m\<lparr>sm_MailboxID := d\<rparr>)
      else if fid = 2 then Inr (m\<lparr>sm_Envelope := d\<rparr>)
      else if fid = 3 then Inr (m\<lparr>sm_SenderPub := d\<rparr>)
      else if fid = 4 then store_field (getU64 d) (\<lambda>v. m\<lparr>sm_Timestamp := v\<rparr>)
      else if fid = 5 then Inr (m\<lparr>sm_Nonce := d\<rparr>)
      else if fid = 6 then Inr (m\<lparr>sm_Signature := d\<rparr>)
      else if fid = 7 then store_field (getU32 d) (\<lambda>v. m\<lparr>sm_TTLHintSec := v\<rparr>)
      else if fid = 8 then store_field (getU8 d) (\<lambda>v. m\<lparr>sm_Burn := v\<rparr>)
      else Inr m)"

definition UnmarshalSendMessage :: "nanopack \<Rightarrow> bytes \<Rightarrow> go_error + SendMessage" where
  "UnmarshalSendMessage np body =
     unmarshal np MaxRequestBytes SendMessage_field SendMessage_zero
       (\<lambda>m. check (ValidateSendMessage m) m) body"

section \<open>SendMessageResponse (58)\<close>

record SendMessageResponse =
  smr_Accepted :: u8
  smr_Queued :: u32
  smr_MsgID :: bytes

definition SendMessageResponse_zero :: SendMessageResponse where
  "SendMessageResponse_zero = \<lparr>smr_Accepted = 0, smr_Queued = 0, smr_MsgID = []\<rparr>"

definition MarshalSendMessageResponse :: "nanopack \<Rightarrow> u8 \<Rightarrow> u32 \<Rightarrow> bytes \<Rightarrow> go_error + bytes" where
  "MarshalSendMessageResponse np accepted queued msgID =
     (if length msgID \<noteq> 16 then Inl (perr ErrInvalidRequest ''msg_id must be 16 bytes'')
      else np_bytes np [(1, [accepted]), (2, putU32 queued), (3, msgID)])"

definition SendMessageResponse_field ::
  "SendMessageResponse \<Rightarrow> u8 \<Rightarrow> bytes \<Rightarrow> go_error + SendMessageResponse" where
  "SendMessageResponse_field out fid d =
     (if fid = 1 then store_field (getU8 d) (\<lambda>v. out\<lparr>smr_Accepted := v\<rparr>)
      else if fid = 2 then store_field (getU32 d) (\<lambda>v. out\<lparr>smr_Queued := v\<rparr>)
      else if fid = 3 then Inr (out\<lparr>smr_MsgID := d\<rparr>)
      else Inr out)"

definition UnmarshalSendMessageResponse :: "nanopack \<Rightarrow> bytes \<Rightarrow> go_error + SendMessageResponse" where
  "UnmarshalSendMessageResponse np body =
     unmarshal np 256 SendMessageResponse_field SendMessageResponse_zero
       (\<lambda>out. if length (smr_MsgID out) \<noteq> 16
              then Inl (perr ErrInvalidRequest ''msg_id must be 16 bytes'') else Inr out) body"

section \<open>ReceiveMessages (59)\<close>

record ReceiveMessages =
  rcv_MailboxID :: bytes
  rcv_ReadSecret :: bytes
  rcv_Limit :: u8
  rcv_Peek :: u8

definition ReceiveMessages_zero :: ReceiveMessages where
  "ReceiveMessages_zero = \<lparr>rcv_MailboxID = [], rcv_ReadSecret = [], rcv_Limit = 0, rcv_Peek = 0\<rparr>"

definition ValidateReceiveMessages :: "ReceiveMessages \<Rightarrow> go_error option" where
  "ValidateReceiveMessages r =
     (if length (rcv_MailboxID r) \<noteq> 16 then
        Some (perr ErrInvalidRequest ''mailbox_id must be 16 bytes'')
      else if length (rcv_ReadSecret r) \<noteq> 32 then
        Some (perr ErrAuthFailed ''read_secret must be 32 bytes'')
      else None)"

definition MarshalReceiveMessages :: "nanopack \<Rightarrow> ReceiveMessages \<Rightarrow> go_error + bytes" where
  "MarshalReceiveMessages np r =
     marshal np (ValidateReceiveMessages r)
       [(1, rcv_MailboxID r), (2, rcv_ReadSecret r), (3, [rcv_Limit r]), (4, [rcv_Peek r])]"

definition ReceiveMessages_field :: "ReceiveMessages \<Rightarrow> u8 \<Rightarrow> bytes \<Rightarrow> go_error + ReceiveMessages" where
  "ReceiveMessages_field out fid d =
     (if fid = 1 then Inr (out\<lparr>rcv_MailboxID := d\<rparr>)
      else if fid = 2 then Inr (out\<lparr>rcv_ReadSecret := d\<rparr>)
      else if fid = 3 then store_field (getU8 d) (\<lambda>v. out\<lparr>rcv_Limit := v\<rparr>)
      else if fid = 4 then store_field (getU8 d) (\<lambda>v. out\<lparr>rcv_Peek := v\<rparr>)
      else Inr out)"

definition UnmarshalReceiveMessages :: "nanopack \<Rightarrow> bytes \<Rightarrow> go_error + ReceiveMessages" where
  "UnmarshalReceiveMessages np body =
     unmarshal np 256 ReceiveMessages_field ReceiveMessages_zero
       (\<lambda>out. check (ValidateReceiveMessages out) out) body"

section \<open>ReceiveMessagesResponse (60)\<close>

record ReceivedMessage =
  rm_MsgID :: bytes
  rm_Envelope :: bytes

text \<open>The marshalling loop: ids and length-prefixed envelopes accumulate in two slices.\<close>

fun encode_batch :: "ReceivedMessage list \<Rightarrow> bytes \<Rightarrow> bytes \<Rightarrow> go_error + (bytes \<times> bytes)" where
  "encode_batch [] ids payloads = Inr (ids, payloads)"
| "encode_batch (m # ms) ids payloads =
     (if length (rm_MsgID m) \<noteq> 16 then
        Inl (perr ErrInvalidRequest ''msg_id must be 16 bytes'')
      else if length (rm_Envelope m) = 0 \<or> length (rm_Envelope m) > MaxMessageBytes then
        Inl (perr ErrMessageTooLarge ''envelope out of bounds'')
      else encode_batch ms (ids @ rm_MsgID m)
             (payloads @ putU32 (of_nat (length (rm_Envelope m))) @ rm_Envelope m))"

definition MarshalReceiveMessagesResponse ::
  "nanopack \<Rightarrow> ReceivedMessage list \<Rightarrow> bool \<Rightarrow> go_error + bytes" where
  "MarshalReceiveMessagesResponse np msgs consumed =
     (if length msgs > MaxBatchMessages then Inl (perr ErrBatchTooLarge ''batch too large'')
      else (case encode_batch msgs [] [] of
              Inl e \<Rightarrow> Inl e
            | Inr (ids, payloads) \<Rightarrow>
                np_bytes np [(1, putU32 (of_nat (length msgs))), (2, ids), (3, payloads),
                             (4, if consumed then [1] else [0])]))"

record ReceiveMessagesResponse =
  rmr_Messages :: "ReceivedMessage list"
  rmr_Consumed :: bool

text \<open>The variables the field loop of \<open>UnmarshalReceiveMessagesResponse\<close> fills.\<close>

record batch_fields =
  bf_count :: u32
  bf_ids :: bytes
  bf_payloads :: bytes
  bf_consumed :: bool

definition batch_zero :: batch_fields where
  "batch_zero = \<lparr>bf_count = 0, bf_ids = [], bf_payloads = [], bf_consumed = False\<rparr>"

definition batch_field :: "batch_fields \<Rightarrow> u8 \<Rightarrow> bytes \<Rightarrow> go_error + batch_fields" where
  "batch_field b fid d =
     (if fid = 1 then store_field (getU32 d) (\<lambda>v. b\<lparr>bf_count := v\<rparr>)
      else if fid = 2 then Inr (b\<lparr>bf_ids := d\<rparr>)
      else if fid = 3 then Inr (b\<lparr>bf_payloads := d\<rparr>)
      else if fid = 4 then store_field (getU8 d) (\<lambda>v. b\<lparr>bf_consumed := (v = 1)\<rparr>)
      else Inr b)"

text \<open>
  The unpacking loop, run \<open>k\<close> more times: \<open>i\<close> is the message index, \<open>pos\<close> the read position
  in \<open>payloads\<close>. It returns the messages and the final position.
\<close>

fun decode_batch ::
  "nat \<Rightarrow> nat \<Rightarrow> bytes \<Rightarrow> bytes \<Rightarrow> nat \<Rightarrow> ReceivedMessage list
   \<Rightarrow> go_error + (ReceivedMessage list \<times> nat)" where
  "decode_batch 0 i ids payloads pos msgs = Inr (msgs, pos)"
| "decode_batch (Suc k) i ids payloads pos msgs =
     (if pos + 4 > length payloads then
        Inl (perr ErrInvalidRequest ''payloads truncated'')
      else
        let n = unat (get32 (drop pos payloads)); pos' = pos + 4 in
        if n = 0 \<or> n > MaxMessageBytes \<or> pos' + n > length payloads then
          Inl (perr ErrMessageTooLarge ''envelope out of bounds'')
        else
          decode_batch k (Suc i) ids payloads (pos' + n)
            (msgs @ [\<lparr>rm_MsgID = take 16 (drop (i * 16) ids),
                      rm_Envelope = take n (drop pos' payloads)\<rparr>]))"

definition finish_batch :: "batch_fields \<Rightarrow> go_error + ReceiveMessagesResponse" where
  "finish_batch b =
     (if bf_count b > of_nat MaxBatchMessages then
        Inl (perr ErrBatchTooLarge ''batch too large'')
      else if of_nat (length (bf_ids b)) \<noteq> bf_count b * 16 then
        Inl (perr ErrInvalidRequest ''ids length mismatch'')
      else
        (case decode_batch (unat (bf_count b)) 0 (bf_ids b) (bf_payloads b) 0 [] of
           Inl e \<Rightarrow> Inl e
         | Inr (msgs, pos) \<Rightarrow>
             if pos \<noteq> length (bf_payloads b) then
               Inl (perr ErrInvalidRequest ''payloads trailing bytes'')
             else Inr \<lparr>rmr_Messages = msgs, rmr_Consumed = bf_consumed b\<rparr>))"

definition UnmarshalReceiveMessagesResponse ::
  "nanopack \<Rightarrow> bytes \<Rightarrow> go_error + ReceiveMessagesResponse" where
  "UnmarshalReceiveMessagesResponse np body =
     unmarshal np (MaxBatchMessages * MaxMessageBytes + 4096) batch_field batch_zero finish_batch body"

section \<open>MessageAck (61)\<close>

record MessageAck =
  ack_MailboxID :: bytes
  ack_ReadSecret :: bytes
  ack_MsgIDs :: "bytes list"
  ack_Disposition :: u8

abbreviation (input) AckReceived :: u8 where "AckReceived \<equiv> 1"
abbreviation (input) AckConsumed :: u8 where "AckConsumed \<equiv> 2"

definition ValidateMessageAck :: "MessageAck \<Rightarrow> go_error option" where
  "ValidateMessageAck a =
     (if length (ack_MailboxID a) \<noteq> 16 then
        Some (perr ErrInvalidRequest ''mailbox_id must be 16 bytes'')
      else if length (ack_ReadSecret a) \<noteq> 32 then
        Some (perr ErrAuthFailed ''read_secret must be 32 bytes'')
      else if length (ack_MsgIDs a) = 0 \<or> length (ack_MsgIDs a) > MaxBatchMessages then
        Some (perr ErrInvalidRequest ''msg_ids count out of bounds'')
      else if (\<exists>msgid \<in> set (ack_MsgIDs a). length msgid \<noteq> 16) then
        Some (perr ErrInvalidRequest ''msg_id must be 16 bytes'')
      else if ack_Disposition a \<noteq> AckReceived \<and> ack_Disposition a \<noteq> AckConsumed then
        Some (perr ErrInvalidRequest ''bad disposition'')
      else None)"

definition MarshalMessageAck :: "nanopack \<Rightarrow> MessageAck \<Rightarrow> go_error + bytes" where
  "MarshalMessageAck np a =
     marshal np (ValidateMessageAck a)
       [(1, ack_MailboxID a), (2, ack_ReadSecret a), (3, concat (ack_MsgIDs a)),
        (4, [ack_Disposition a])]"

text \<open>The message under construction and the local slice \<open>flat\<close>.\<close>

record ack_fields =
  af_out :: MessageAck
  af_flat :: bytes

definition ack_zero :: ack_fields where
  "ack_zero =
     \<lparr>af_out = \<lparr>ack_MailboxID = [], ack_ReadSecret = [], ack_MsgIDs = [], ack_Disposition = 0\<rparr>,
      af_flat = []\<rparr>"

definition ack_field :: "ack_fields \<Rightarrow> u8 \<Rightarrow> bytes \<Rightarrow> go_error + ack_fields" where
  "ack_field a fid d =
     (if fid = 1 then Inr (a\<lparr>af_out := (af_out a)\<lparr>ack_MailboxID := d\<rparr>\<rparr>)
      else if fid = 2 then Inr (a\<lparr>af_out := (af_out a)\<lparr>ack_ReadSecret := d\<rparr>\<rparr>)
      else if fid = 3 then Inr (a\<lparr>af_flat := d\<rparr>)
      else if fid = 4 then
        store_field (getU8 d) (\<lambda>v. a\<lparr>af_out := (af_out a)\<lparr>ack_Disposition := v\<rparr>\<rparr>)
      else Inr a)"

definition finish_ack :: "ack_fields \<Rightarrow> go_error + MessageAck" where
  "finish_ack a =
     (if length (af_flat a) mod 16 \<noteq> 0 then
        Inl (perr ErrInvalidRequest ''msg_ids must be n*16 bytes'')
      else let out = (af_out a)\<lparr>ack_MsgIDs := chunks 16 (af_flat a)\<rparr>
           in check (ValidateMessageAck out) out)"

definition UnmarshalMessageAck :: "nanopack \<Rightarrow> bytes \<Rightarrow> go_error + MessageAck" where
  "UnmarshalMessageAck np body =
     unmarshal np (MaxBatchMessages * 16 + 256) ack_field ack_zero finish_ack body"

section \<open>MessageAckResponse (62)\<close>

record MessageAckResponse =
  ar_Acked :: u32
  ar_Remaining :: u32

definition MarshalMessageAckResponse :: "nanopack \<Rightarrow> u32 \<Rightarrow> u32 \<Rightarrow> go_error + bytes" where
  "MarshalMessageAckResponse np acked remaining =
     np_bytes np [(1, putU32 acked), (2, putU32 remaining)]"

definition MessageAckResponse_field ::
  "MessageAckResponse \<Rightarrow> u8 \<Rightarrow> bytes \<Rightarrow> go_error + MessageAckResponse" where
  "MessageAckResponse_field out fid d =
     (if fid = 1 then store_field (getU32 d) (\<lambda>v. out\<lparr>ar_Acked := v\<rparr>)
      else if fid = 2 then store_field (getU32 d) (\<lambda>v. out\<lparr>ar_Remaining := v\<rparr>)
      else Inr out)"

definition UnmarshalMessageAckResponse :: "nanopack \<Rightarrow> bytes \<Rightarrow> go_error + MessageAckResponse" where
  "UnmarshalMessageAckResponse np body =
     unmarshal np 64 MessageAckResponse_field \<lparr>ar_Acked = 0, ar_Remaining = 0\<rparr> Inr body"


section \<open>Round trips\<close>

lemma ValidateSendMessage_None:
  "ValidateSendMessage m = None \<longleftrightarrow>
     length (sm_MailboxID m) = 16 \<and> 0 < length (sm_Envelope m) \<and>
     length (sm_Envelope m) \<le> MaxMessageBytes \<and> length (sm_SenderPub m) = 32 \<and>
     length (sm_Nonce m) = 16 \<and> length (sm_Signature m) = 64"
  by (auto simp: ValidateSendMessage_def)

lemma ValidateReceiveMessages_None:
  "ValidateReceiveMessages r = None \<longleftrightarrow> length (rcv_MailboxID r) = 16 \<and> length (rcv_ReadSecret r) = 32"
  by (auto simp: ValidateReceiveMessages_def)

lemma ValidateMessageAck_None:
  "ValidateMessageAck a = None \<longleftrightarrow>
     length (ack_MailboxID a) = 16 \<and> length (ack_ReadSecret a) = 32 \<and>
     ack_MsgIDs a \<noteq> [] \<and> length (ack_MsgIDs a) \<le> MaxBatchMessages \<and>
     (\<forall>msgid \<in> set (ack_MsgIDs a). length msgid = 16) \<and>
     (ack_Disposition a = AckReceived \<or> ack_Disposition a = AckConsumed)"
  by (auto simp: ValidateMessageAck_def)

text \<open>What the marshalling loop of schema 60 accumulates, and that the unpacking loop undoes it.\<close>

definition batch_ok :: "ReceivedMessage \<Rightarrow> bool" where
  "batch_ok m \<longleftrightarrow> length (rm_MsgID m) = 16 \<and> 0 < length (rm_Envelope m)
                  \<and> length (rm_Envelope m) \<le> MaxMessageBytes"

definition batch_payload :: "ReceivedMessage \<Rightarrow> bytes" where
  "batch_payload m = putU32 (of_nat (length (rm_Envelope m))) @ rm_Envelope m"

lemma encode_batch_Inr:
  "encode_batch ms ids ps = Inr (ids', ps') \<longleftrightarrow>
     list_all batch_ok ms \<and> ids' = ids @ concat (map rm_MsgID ms)
     \<and> ps' = ps @ concat (map batch_payload ms)"
  by (induction ms arbitrary: ids ps) (auto simp: batch_ok_def batch_payload_def)

lemma batch_payload_len: "batch_ok m \<Longrightarrow> unat (of_nat (length (rm_Envelope m)) :: u32) = length (rm_Envelope m)"
  by (simp add: batch_ok_def unat_of_nat)

lemma decode_batch_step:
  assumes ok: "batch_ok m" and rest: "drop pos payloads = batch_payload m @ rest"
    and msgid: "take 16 (drop (i * 16) ids) = rm_MsgID m"
  shows "decode_batch (Suc k) i ids payloads pos acc
           = decode_batch k (Suc i) ids payloads (pos + length (batch_payload m)) (acc @ [m])"
proof -
  let ?n = "length (rm_Envelope m)"
  have lens: "0 < ?n" "?n \<le> 32768" using ok by (simp_all add: batch_ok_def)
  have n: "unat (get32 (drop pos payloads)) = ?n"
    using batch_payload_len [OF ok] by (simp add: rest batch_payload_def putU32_def)
  have "length payloads - pos = 4 + ?n + length rest"
    using arg_cong [OF rest, of length] by (simp add: batch_payload_def)
  then have long: "pos + 4 + ?n \<le> length payloads" using lens by linarith
  have "drop (pos + 4) payloads = drop 4 (drop pos payloads)" by (simp add: add.commute)
  then have env: "take ?n (drop (pos + 4) payloads) = rm_Envelope m"
    by (simp add: rest batch_payload_def)
  have m: "m = \<lparr>rm_MsgID = take 16 (drop (i * 16) ids), rm_Envelope = take ?n (drop (pos + 4) payloads)\<rparr>"
    by (simp add: msgid env)
  have "decode_batch (Suc k) i ids payloads pos acc
      = decode_batch k (Suc i) ids payloads (pos + 4 + ?n) (acc @ [m])"
    using lens n long by (subst m) (simp add: Let_def)
  then show ?thesis by (simp add: batch_payload_def add.assoc)
qed

lemma decode_batch_encode:
  assumes "list_all batch_ok ms" and "drop (i * 16) ids = concat (map rm_MsgID ms)"
    and "drop pos payloads = concat (map batch_payload ms)" and "pos \<le> length payloads"
  shows "decode_batch (length ms) i ids payloads pos acc = Inr (acc @ ms, length payloads)"
  using assms
proof (induction ms arbitrary: i pos acc)
  case Nil
  then show ?case by simp
next
  case (Cons m ms)
  let ?pos = "pos + length (batch_payload m)"
  from Cons.prems have ok: "batch_ok m" and oks: "list_all batch_ok ms"
    and ids: "drop (i * 16) ids = rm_MsgID m @ concat (map rm_MsgID ms)"
    and ps: "drop pos payloads = batch_payload m @ concat (map batch_payload ms)"
    by simp_all
  have len: "length (rm_MsgID m) = 16" using ok by (simp add: batch_ok_def)
  have "drop (Suc i * 16) ids = drop 16 (drop (i * 16) ids)" by (simp add: add.commute)
  then have ids': "drop (Suc i * 16) ids = concat (map rm_MsgID ms)" using len by (simp add: ids)
  have "drop ?pos payloads = drop (length (batch_payload m)) (drop pos payloads)"
    by (simp add: add.commute)
  then have ps': "drop ?pos payloads = concat (map batch_payload ms)" by (simp add: ps)
  have pos': "?pos \<le> length payloads"
    using arg_cong [OF ps, of length] Cons.prems(4) by simp
  have "decode_batch (length (m # ms)) i ids payloads pos acc
      = decode_batch (length ms) (Suc i) ids payloads ?pos (acc @ [m])"
    using decode_batch_step [OF ok ps] ids len by simp
  also have "\<dots> = Inr ((acc @ [m]) @ ms, length payloads)"
    by (rule Cons.IH [OF oks ids' ps' pos'])
  finally show ?case by simp
qed

context nanopack_codec
begin

lemma send_message_rt:
  assumes "MarshalSendMessage np m = Inr body"
  shows "UnmarshalSendMessage np body = Inr m"
proof -
  from assms have v: "ValidateSendMessage m = None"
    by (simp add: MarshalSendMessage_def marshal_Inr)
  then have "uleb_size (length (sm_Envelope m)) \<le> 3"
    by (intro uleb_size_small) (simp add: ValidateSendMessage_None)
  with v show ?thesis
    unfolding UnmarshalSendMessage_def
    by (subst unmarshal_marshal [OF assms [unfolded MarshalSendMessage_def]])
       (simp_all add: ValidateSendMessage_None uleb_size_small(1) SendMessage_field_def
          SendMessage_zero_def)
qed

lemma send_message_response_rt:
  assumes "MarshalSendMessageResponse np accepted queued msgID = Inr body"
  shows "UnmarshalSendMessageResponse np body
           = Inr \<lparr>smr_Accepted = accepted, smr_Queued = queued, smr_MsgID = msgID\<rparr>"
proof -
  have enc: "np_bytes np [(1, [accepted]), (2, putU32 queued), (3, msgID)] = Inr body"
    and len: "length msgID = 16"
    using assms by (auto simp: MarshalSendMessageResponse_def split: if_splits)
  show ?thesis
    unfolding UnmarshalSendMessageResponse_def
    by (subst unmarshal_bytes [OF enc])
       (simp_all add: len uleb_size_small(1) SendMessageResponse_field_def SendMessageResponse_zero_def)
qed

lemma receive_messages_rt:
  assumes "MarshalReceiveMessages np r = Inr body"
  shows "UnmarshalReceiveMessages np body = Inr r"
proof -
  from assms have v: "ValidateReceiveMessages r = None"
    by (simp add: MarshalReceiveMessages_def marshal_Inr)
  then show ?thesis
    unfolding UnmarshalReceiveMessages_def
    by (subst unmarshal_marshal [OF assms [unfolded MarshalReceiveMessages_def]])
       (simp_all add: ValidateReceiveMessages_None uleb_size_small(1) ReceiveMessages_field_def
          ReceiveMessages_zero_def)
qed

lemma batch_sizes:
  assumes "list_all batch_ok ms" and "length ms \<le> 32"
  shows "length (concat (map rm_MsgID ms)) = 16 * length ms"
    and "length (concat (map batch_payload ms)) \<le> 32772 * length ms"
proof -
  show "length (concat (map rm_MsgID ms)) = 16 * length ms"
    using assms(1) by (induction ms) (simp_all add: batch_ok_def)
  show "length (concat (map batch_payload ms)) \<le> 32772 * length ms"
    using assms(1) by (induction ms) (auto simp: batch_ok_def batch_payload_def)
qed

lemma receive_messages_response_rt:
  assumes "MarshalReceiveMessagesResponse np msgs consumed = Inr body"
  shows "UnmarshalReceiveMessagesResponse np body
           = Inr \<lparr>rmr_Messages = msgs, rmr_Consumed = consumed\<rparr>"
proof -
  let ?ids = "concat (map rm_MsgID msgs)" and ?ps = "concat (map batch_payload msgs)"
  let ?fs = "[(1, putU32 (of_nat (length msgs))), (2, ?ids), (3, ?ps),
              (4, if consumed then [1] else [0])] :: field list"
  have few: "length msgs \<le> 32" and ok: "list_all batch_ok msgs" and enc: "np_bytes np ?fs = Inr body"
    using assms
    by (auto simp: MarshalReceiveMessagesResponse_def encode_batch_Inr split: if_splits sum.splits)
  note sizes = batch_sizes [OF ok few]
  have small: "length ?ids < 16384" "length ?ps < 2097152"
    using few by (simp_all only: sizes(1)) (use sizes(2) few in linarith)+
  have "body_size ?fs \<le> 32 * 32768 + 4096"
    using small uleb_size_small(2) [OF small(1)] uleb_size_small(3) [OF small(2)] sizes few
    by (cases consumed) (simp_all add: uleb_size_small(1))
  then have "UnmarshalReceiveMessagesResponse np body
      = (case run_fields batch_field batch_zero ?fs of Inl e \<Rightarrow> Inl e | Inr s \<Rightarrow> finish_batch s)"
    unfolding UnmarshalReceiveMessagesResponse_def by (intro unmarshal_bytes [OF enc]) simp
  also have "\<dots> = finish_batch \<lparr>bf_count = of_nat (length msgs), bf_ids = ?ids, bf_payloads = ?ps,
                               bf_consumed = consumed\<rparr>"
    by (simp add: batch_field_def batch_zero_def)
  also have "\<dots> = Inr \<lparr>rmr_Messages = msgs, rmr_Consumed = consumed\<rparr>"
  proof -
    have count: "unat (of_nat (length msgs) :: u32) = length msgs"
      using few by (simp add: unat_of_nat)
    moreover have "\<not> (of_nat (length msgs) :: u32) > 32"
      using few count by (simp add: word_less_nat_alt)
    moreover have "(of_nat (length ?ids) :: u32) = of_nat (length msgs) * 16"
      by (simp only: sizes(1)) simp
    ultimately show ?thesis
      using decode_batch_encode [OF ok, of 0 ?ids 0 ?ps "[]"]
      by (simp add: finish_batch_def)
  qed
  finally show ?thesis .
qed

lemma message_ack_rt:
  assumes "MarshalMessageAck np a = Inr body"
  shows "UnmarshalMessageAck np body = Inr a"
proof -
  let ?flat = "concat (ack_MsgIDs a)"
  from assms have v: "ValidateMessageAck a = None"
    by (simp add: MarshalMessageAck_def marshal_Inr)
  then have ids: "\<And>x. x \<in> set (ack_MsgIDs a) \<Longrightarrow> length x = 16" and few: "length (ack_MsgIDs a) \<le> 32"
    by (simp_all add: ValidateMessageAck_None)
  have flat: "length ?flat = 16 * length (ack_MsgIDs a)"
    using ids by (rule length_concat_const)
  then have "length ?flat < 16384" using few by simp
  then have "uleb_size (length ?flat) \<le> 2" by (rule uleb_size_small)
  moreover have "chunks 16 ?flat = ack_MsgIDs a" using ids by (intro chunks_concat) simp_all
  ultimately show ?thesis
    using v few flat unfolding UnmarshalMessageAck_def
    by (subst unmarshal_marshal [OF assms [unfolded MarshalMessageAck_def]])
       (simp_all add: ValidateMessageAck_None uleb_size_small(1) ack_field_def ack_zero_def
          finish_ack_def Let_def del: length_concat)
qed

lemma message_ack_response_rt:
  assumes "MarshalMessageAckResponse np acked remaining = Inr body"
  shows "UnmarshalMessageAckResponse np body = Inr \<lparr>ar_Acked = acked, ar_Remaining = remaining\<rparr>"
  unfolding UnmarshalMessageAckResponse_def
  by (subst unmarshal_bytes [OF assms [unfolded MarshalMessageAckResponse_def]])
     (simp_all add: uleb_size_small(1) MessageAckResponse_field_def)

lemma error_rt:
  assumes "MarshalError np e = Inr body" and "Code e \<noteq> 0" and "length (Detail e) \<le> 4000"
  shows "UnmarshalError np body = Inr e"
proof -
  have "uleb_size (length (Detail e)) \<le> 2" using assms(3) by (intro uleb_size_small) simp
  then show ?thesis
    using assms(2,3) unfolding UnmarshalError_def
    by (subst unmarshal_bytes [OF assms(1) [unfolded MarshalError_def]])
       (auto simp: uleb_size_small(1) ProtocolError_field_def ProtocolError_zero_def)
qed

end

end
