(* ===== verification/Wire_Transfers.thy ===== *)
theory Wire_Transfers
  imports Nanopack
begin

text \<open>
  Codecs of the file-transfer plane, from \<open>protocol/transfers.go\<close> and the chunk part of
  \<open>protocol/schemas.go\<close>: \<open>TransferCreate\<close> (63), \<open>TransferCreateResponse\<close> (64), \<open>ChunkUpload\<close>
  (65), \<open>ChunkAck\<close> (66), \<open>ChunkDownload\<close> (67), \<open>ChunkDownloadResponse\<close> (68), \<open>ResumeRequest\<close>
  (69), \<open>ResumeResponse\<close> (70), \<open>TransferComplete\<close> (71), \<open>TransferCompleteResponse\<close> (72) and
  \<open>TransferCancel\<close> (73), with the packed list of missing ranges, and their round trips.
\<close>

section \<open>TransferCreate (63)\<close>

record TransferCreate =
  tc_MailboxID :: bytes
  tc_TotalSize :: u64
  tc_ChunkSize :: u32
  tc_ChunkCount :: u32
  tc_Manifest :: bytes
  tc_SenderPub :: bytes
  tc_Timestamp :: u64
  tc_Nonce :: bytes
  tc_Signature :: bytes

text \<open>The chunk count is computed at the width of the source: 64 bits, then truncated to 32.\<close>

definition ValidateTransferCreate :: "u64 \<Rightarrow> u32 \<Rightarrow> u32 \<Rightarrow> go_error option" where
  "ValidateTransferCreate totalSize chunkSize chunkCount =
     (if chunkSize = 0 \<or> unat chunkSize > MaxChunkBytes then
        Some (perr ErrChunkInvalid ''chunk_size out of bounds'')
      else if chunkCount = 0 \<or> unat chunkCount > MaxChunksPerTransfer then
        Some (perr ErrChunkOutOfRange ''chunk_count out of bounds'')
      else if totalSize = 0 \<or> totalSize > of_nat MaxFileBytes then
        Some (perr ErrPayloadTooLarge ''total_size out of bounds'')
      else
        let expect = ucast ((totalSize + ucast chunkSize - 1) div ucast chunkSize) :: u32 in
        if expect \<noteq> chunkCount then Some (perr ErrChunkInvalid ''chunk_count mismatch'') else None)"

definition ValidateTransferCreateMsg :: "TransferCreate \<Rightarrow> go_error option" where
  "ValidateTransferCreateMsg t =
     (if length (tc_MailboxID t) \<noteq> 0 \<and> length (tc_MailboxID t) \<noteq> 16 then
        Some (perr ErrInvalidRequest ''mailbox_id must be 0 or 16 bytes'')
      else (case ValidateTransferCreate (tc_TotalSize t) (tc_ChunkSize t) (tc_ChunkCount t) of
        Some e \<Rightarrow> Some e
      | None \<Rightarrow>
          if length (tc_Manifest t) > MaxManifestBytes then
            Some (perr ErrPayloadTooLarge ''manifest too large'')
          else if length (tc_SenderPub t) \<noteq> 32 then
            Some (perr ErrAuthFailed ''sender_pub must be 32 bytes'')
          else if length (tc_Nonce t) \<noteq> 16 then
            Some (perr ErrInvalidRequest ''nonce must be 16 bytes'')
          else if length (tc_Signature t) \<noteq> 64 then
            Some (perr ErrAuthFailed ''signature must be 64 bytes'')
          else None))"

definition MarshalTransferCreate :: "nanopack \<Rightarrow> TransferCreate \<Rightarrow> go_error + bytes" where
  "MarshalTransferCreate np t =
     marshal np (ValidateTransferCreateMsg t)
       [(1, tc_MailboxID t), (2, putU64 (tc_TotalSize t)), (3, putU32 (tc_ChunkSize t)),
        (4, putU32 (tc_ChunkCount t)), (5, tc_Manifest t), (6, tc_SenderPub t),
        (7, putU64 (tc_Timestamp t)), (8, tc_Nonce t), (9, tc_Signature t)]"

definition TransferCreate_zero :: TransferCreate where
  "TransferCreate_zero =
     \<lparr>tc_MailboxID = [], tc_TotalSize = 0, tc_ChunkSize = 0, tc_ChunkCount = 0, tc_Manifest = [],
      tc_SenderPub = [], tc_Timestamp = 0, tc_Nonce = [], tc_Signature = []\<rparr>"

definition TransferCreate_field :: "TransferCreate \<Rightarrow> u8 \<Rightarrow> bytes \<Rightarrow> go_error + TransferCreate" where
  "TransferCreate_field out fid d =
     (if fid = 1 then Inr (out\<lparr>tc_MailboxID := d\<rparr>)
      else if fid = 2 then store_field (getU64 d) (\<lambda>v. out\<lparr>tc_TotalSize := v\<rparr>)
      else if fid = 3 then store_field (getU32 d) (\<lambda>v. out\<lparr>tc_ChunkSize := v\<rparr>)
      else if fid = 4 then store_field (getU32 d) (\<lambda>v. out\<lparr>tc_ChunkCount := v\<rparr>)
      else if fid = 5 then Inr (out\<lparr>tc_Manifest := d\<rparr>)
      else if fid = 6 then Inr (out\<lparr>tc_SenderPub := d\<rparr>)
      else if fid = 7 then store_field (getU64 d) (\<lambda>v. out\<lparr>tc_Timestamp := v\<rparr>)
      else if fid = 8 then Inr (out\<lparr>tc_Nonce := d\<rparr>)
      else if fid = 9 then Inr (out\<lparr>tc_Signature := d\<rparr>)
      else Inr out)"

definition UnmarshalTransferCreate :: "nanopack \<Rightarrow> bytes \<Rightarrow> go_error + TransferCreate" where
  "UnmarshalTransferCreate np body =
     unmarshal np (MaxManifestBytes + 512) TransferCreate_field TransferCreate_zero
       (\<lambda>out. check (ValidateTransferCreateMsg out) out) body"

section \<open>TransferCreateResponse (64)\<close>

record TransferCreateResponse =
  tcr_TransferID :: bytes
  tcr_ExpiresAt :: u64
  tcr_ChunkSize :: u32
  tcr_DownloadSecret :: bytes

definition MarshalTransferCreateResponse ::
  "nanopack \<Rightarrow> TransferCreateResponse \<Rightarrow> go_error + bytes" where
  "MarshalTransferCreateResponse np r =
     marshal np
       (if length (tcr_TransferID r) \<noteq> 16 then
          Some (perr ErrInvalidRequest ''transfer_id must be 16 bytes'')
        else if length (tcr_DownloadSecret r) \<noteq> 32 then
          Some (perr ErrInvalidRequest ''download_secret must be 32 bytes'')
        else None)
       [(1, tcr_TransferID r), (2, putU64 (tcr_ExpiresAt r)), (3, putU32 (tcr_ChunkSize r)),
        (4, tcr_DownloadSecret r)]"

definition TransferCreateResponse_zero :: TransferCreateResponse where
  "TransferCreateResponse_zero =
     \<lparr>tcr_TransferID = [], tcr_ExpiresAt = 0, tcr_ChunkSize = 0, tcr_DownloadSecret = []\<rparr>"

definition TransferCreateResponse_field ::
  "TransferCreateResponse \<Rightarrow> u8 \<Rightarrow> bytes \<Rightarrow> go_error + TransferCreateResponse" where
  "TransferCreateResponse_field out fid d =
     (if fid = 1 then Inr (out\<lparr>tcr_TransferID := d\<rparr>)
      else if fid = 2 then store_field (getU64 d) (\<lambda>v. out\<lparr>tcr_ExpiresAt := v\<rparr>)
      else if fid = 3 then store_field (getU32 d) (\<lambda>v. out\<lparr>tcr_ChunkSize := v\<rparr>)
      else if fid = 4 then Inr (out\<lparr>tcr_DownloadSecret := d\<rparr>)
      else Inr out)"

definition finish_TransferCreateResponse ::
  "TransferCreateResponse \<Rightarrow> go_error + TransferCreateResponse" where
  "finish_TransferCreateResponse out =
     (if length (tcr_TransferID out) \<noteq> 16 then
        Inl (perr ErrInvalidRequest ''transfer_id must be 16 bytes'')
      else if length (tcr_DownloadSecret out) \<noteq> 32 then
        Inl (perr ErrInvalidRequest
               ''download_secret must be 32 bytes (server too old for tickets?)'')
      else Inr out)"

definition UnmarshalTransferCreateResponse ::
  "nanopack \<Rightarrow> bytes \<Rightarrow> go_error + TransferCreateResponse" where
  "UnmarshalTransferCreateResponse np body =
     unmarshal np 128 TransferCreateResponse_field TransferCreateResponse_zero
       finish_TransferCreateResponse body"

section \<open>ChunkUpload (65)\<close>

record ChunkUpload =
  cu_TransferID :: bytes
  cu_Index :: u32
  cu_Payload :: bytes
  cu_ChunkHash :: bytes
  cu_Offset :: u64

definition ValidateChunkUpload :: "ChunkUpload \<Rightarrow> go_error option" where
  "ValidateChunkUpload c =
     (if length (cu_TransferID c) \<noteq> 16 then
        Some (perr ErrInvalidRequest ''transfer_id must be 16 bytes'')
      else if length (cu_Payload c) = 0 \<or> length (cu_Payload c) > MaxChunkBytes then
        Some (perr ErrChunkInvalid ''payload size out of bounds'')
      else if length (cu_ChunkHash c) \<noteq> 0 \<and> length (cu_ChunkHash c) \<noteq> 32 then
        Some (perr ErrChunkInvalid ''chunk_hash must be 32 bytes'')
      else if unat (cu_Index c) \<ge> MaxChunksPerTransfer then
        Some (perr ErrChunkOutOfRange ''index out of range'')
      else None)"

definition MarshalChunkUpload :: "nanopack \<Rightarrow> ChunkUpload \<Rightarrow> go_error + bytes" where
  "MarshalChunkUpload np c =
     marshal np (ValidateChunkUpload c)
       ([(1, cu_TransferID c), (2, putU32 (cu_Index c)), (3, cu_Payload c)]
        @ (if length (cu_ChunkHash c) > 0 then [(4, cu_ChunkHash c)] else [])
        @ [(5, putU64 (cu_Offset c))])"

definition ChunkUpload_zero :: ChunkUpload where
  "ChunkUpload_zero =
     \<lparr>cu_TransferID = [], cu_Index = 0, cu_Payload = [], cu_ChunkHash = [], cu_Offset = 0\<rparr>"

definition ChunkUpload_field :: "ChunkUpload \<Rightarrow> u8 \<Rightarrow> bytes \<Rightarrow> go_error + ChunkUpload" where
  "ChunkUpload_field c fid d =
     (if fid = 1 then Inr (c\<lparr>cu_TransferID := d\<rparr>)
      else if fid = 2 then store_field (getU32 d) (\<lambda>v. c\<lparr>cu_Index := v\<rparr>)
      else if fid = 3 then Inr (c\<lparr>cu_Payload := d\<rparr>)
      else if fid = 4 then Inr (c\<lparr>cu_ChunkHash := d\<rparr>)
      else if fid = 5 then store_field (getU64 d) (\<lambda>v. c\<lparr>cu_Offset := v\<rparr>)
      else Inr c)"

definition UnmarshalChunkUpload :: "nanopack \<Rightarrow> bytes \<Rightarrow> go_error + ChunkUpload" where
  "UnmarshalChunkUpload np body =
     unmarshal np (MaxChunkBytes + 1024) ChunkUpload_field ChunkUpload_zero
       (\<lambda>c. check (ValidateChunkUpload c) c) body"

section \<open>ChunkAck (66) and the missing ranges\<close>

abbreviation (input) ResumeBitmap :: u8 where "ResumeBitmap \<equiv> 0"
abbreviation (input) ResumeRanges :: u8 where "ResumeRanges \<equiv> 1"

record ChunkAck =
  ca_TransferID :: bytes
  ca_HighestContiguous :: u32
  ca_MissingRanges :: bytes
  ca_Bitmap :: bytes
  ca_Encoding :: u8

definition MarshalChunkAck :: "nanopack \<Rightarrow> ChunkAck \<Rightarrow> go_error + bytes" where
  "MarshalChunkAck np a =
     marshal np
       (if length (ca_TransferID a) \<noteq> 16 then
          Some (perr ErrInvalidRequest ''transfer_id must be 16 bytes'')
        else if length (ca_MissingRanges a) mod 8 \<noteq> 0 then
          Some (perr ErrInvalidRequest ''missing_ranges must be n*8 bytes'')
        else if length (ca_MissingRanges a) div 8 > MaxMissingRanges then
          Some (perr ErrInvalidRequest ''too many missing ranges'')
        else None)
       [(1, ca_TransferID a), (2, putU32 (ca_HighestContiguous a)), (3, ca_MissingRanges a),
        (4, ca_Bitmap a), (5, [ca_Encoding a])]"

definition ChunkAck_zero :: ChunkAck where
  "ChunkAck_zero =
     \<lparr>ca_TransferID = [], ca_HighestContiguous = 0, ca_MissingRanges = [], ca_Bitmap = [],
      ca_Encoding = 0\<rparr>"

definition ChunkAck_field :: "ChunkAck \<Rightarrow> u8 \<Rightarrow> bytes \<Rightarrow> go_error + ChunkAck" where
  "ChunkAck_field out fid d =
     (if fid = 1 then Inr (out\<lparr>ca_TransferID := d\<rparr>)
      else if fid = 2 then store_field (getU32 d) (\<lambda>v. out\<lparr>ca_HighestContiguous := v\<rparr>)
      else if fid = 3 then Inr (out\<lparr>ca_MissingRanges := d\<rparr>)
      else if fid = 4 then Inr (out\<lparr>ca_Bitmap := d\<rparr>)
      else if fid = 5 then store_field (getU8 d) (\<lambda>v. out\<lparr>ca_Encoding := v\<rparr>)
      else Inr out)"

definition finish_ChunkAck :: "ChunkAck \<Rightarrow> go_error + ChunkAck" where
  "finish_ChunkAck out =
     (if length (ca_TransferID out) \<noteq> 16 then
        Inl (perr ErrInvalidRequest ''transfer_id must be 16 bytes'')
      else if length (ca_MissingRanges out) mod 8 \<noteq> 0 then
        Inl (perr ErrInvalidRequest ''missing_ranges corrupt'')
      else Inr out)"

definition UnmarshalChunkAck :: "nanopack \<Rightarrow> bytes \<Rightarrow> go_error + ChunkAck" where
  "UnmarshalChunkAck np body = unmarshal np 8192 ChunkAck_field ChunkAck_zero finish_ChunkAck body"

definition EncodeRanges :: "(u32 \<times> u32) list \<Rightarrow> bytes" where
  "EncodeRanges ranges = concat (map (\<lambda>(s, c). putU32 s @ putU32 c) ranges)"

definition DecodeRanges :: "bytes \<Rightarrow> go_error + (u32 \<times> u32) list" where
  "DecodeRanges blob =
     (if length blob mod 8 \<noteq> 0 then Inl (perr ErrInvalidRequest ''ranges corrupt'')
      else Inr (map (\<lambda>w. (get32 (take 4 w), get32 (drop 4 w))) (chunks 8 blob)))"

section \<open>ChunkDownload (67)\<close>

record ChunkDownload =
  cd_TransferID :: bytes
  cd_Index :: u32
  cd_Count :: u32
  cd_MailboxID :: bytes
  cd_ReadSecret :: bytes
  cd_Ticket :: bytes

definition TicketMode :: "bytes \<Rightarrow> bool" where
  "TicketMode ticket \<longleftrightarrow> length ticket = 32"

definition ValidateChunkDownload :: "ChunkDownload \<Rightarrow> go_error option" where
  "ValidateChunkDownload r =
     (if length (cd_TransferID r) \<noteq> 16 then
        Some (perr ErrInvalidRequest ''transfer_id must be 16 bytes'')
      else if TicketMode (cd_Ticket r) \<and> (length (cd_MailboxID r) \<noteq> 0 \<or> length (cd_ReadSecret r) \<noteq> 0) then
        Some (perr ErrInvalidRequest ''ticket mode: mailbox and read_secret must be empty'')
      else if \<not> TicketMode (cd_Ticket r) \<and> length (cd_MailboxID r) \<noteq> 16 then
        Some (perr ErrInvalidRequest ''mailbox_id must be 16 bytes'')
      else if \<not> TicketMode (cd_Ticket r) \<and> length (cd_ReadSecret r) \<noteq> 32 then
        Some (perr ErrAuthFailed ''read_secret must be 32 bytes'')
      else if cd_Count r = 0 \<or> unat (cd_Count r) > MaxBatchMessages then
        Some (perr ErrInvalidRequest ''count out of bounds'')
      else if unat (cd_Index r) \<ge> MaxChunksPerTransfer
              \<or> unat (cd_Index r + cd_Count r) > MaxChunksPerTransfer then
        Some (perr ErrChunkOutOfRange ''range out of bounds'')
      else None)"

definition MarshalChunkDownload :: "nanopack \<Rightarrow> ChunkDownload \<Rightarrow> go_error + bytes" where
  "MarshalChunkDownload np r =
     marshal np (ValidateChunkDownload r)
       ([(1, cd_TransferID r), (2, putU32 (cd_Index r)), (3, putU32 (cd_Count r)),
         (4, cd_MailboxID r), (5, cd_ReadSecret r)]
        @ (if length (cd_Ticket r) = 32 then [(6, cd_Ticket r)] else []))"

definition ChunkDownload_zero :: ChunkDownload where
  "ChunkDownload_zero =
     \<lparr>cd_TransferID = [], cd_Index = 0, cd_Count = 0, cd_MailboxID = [], cd_ReadSecret = [],
      cd_Ticket = []\<rparr>"

definition ChunkDownload_field :: "ChunkDownload \<Rightarrow> u8 \<Rightarrow> bytes \<Rightarrow> go_error + ChunkDownload" where
  "ChunkDownload_field out fid d =
     (if fid = 1 then Inr (out\<lparr>cd_TransferID := d\<rparr>)
      else if fid = 2 then store_field (getU32 d) (\<lambda>v. out\<lparr>cd_Index := v\<rparr>)
      else if fid = 3 then store_field (getU32 d) (\<lambda>v. out\<lparr>cd_Count := v\<rparr>)
      else if fid = 4 then Inr (out\<lparr>cd_MailboxID := d\<rparr>)
      else if fid = 5 then Inr (out\<lparr>cd_ReadSecret := d\<rparr>)
      else if fid = 6 then Inr (out\<lparr>cd_Ticket := d\<rparr>)
      else Inr out)"

definition UnmarshalChunkDownload :: "nanopack \<Rightarrow> bytes \<Rightarrow> go_error + ChunkDownload" where
  "UnmarshalChunkDownload np body =
     unmarshal np 256 ChunkDownload_field ChunkDownload_zero
       (\<lambda>out. check (ValidateChunkDownload out) out) body"

section \<open>ChunkDownloadResponse (68)\<close>

record ChunkDownloadResponse =
  cdr_TransferID :: bytes
  cdr_Index :: u32
  cdr_Payload :: bytes
  cdr_ChunkHash :: bytes

definition check_ChunkDownloadResponse :: "ChunkDownloadResponse \<Rightarrow> go_error option" where
  "check_ChunkDownloadResponse r =
     (if length (cdr_TransferID r) \<noteq> 16 \<or> length (cdr_Payload r) = 0
         \<or> length (cdr_Payload r) > MaxChunkBytes \<or> length (cdr_ChunkHash r) \<noteq> 32 then
        Some (perr ErrInvalidRequest ''bad chunk response'')
      else None)"

definition MarshalChunkDownloadResponse ::
  "nanopack \<Rightarrow> ChunkDownloadResponse \<Rightarrow> go_error + bytes" where
  "MarshalChunkDownloadResponse np r =
     marshal np (check_ChunkDownloadResponse r)
       [(1, cdr_TransferID r), (2, putU32 (cdr_Index r)), (3, cdr_Payload r), (4, cdr_ChunkHash r)]"

definition ChunkDownloadResponse_zero :: ChunkDownloadResponse where
  "ChunkDownloadResponse_zero =
     \<lparr>cdr_TransferID = [], cdr_Index = 0, cdr_Payload = [], cdr_ChunkHash = []\<rparr>"

definition ChunkDownloadResponse_field ::
  "ChunkDownloadResponse \<Rightarrow> u8 \<Rightarrow> bytes \<Rightarrow> go_error + ChunkDownloadResponse" where
  "ChunkDownloadResponse_field out fid d =
     (if fid = 1 then Inr (out\<lparr>cdr_TransferID := d\<rparr>)
      else if fid = 2 then store_field (getU32 d) (\<lambda>v. out\<lparr>cdr_Index := v\<rparr>)
      else if fid = 3 then Inr (out\<lparr>cdr_Payload := d\<rparr>)
      else if fid = 4 then Inr (out\<lparr>cdr_ChunkHash := d\<rparr>)
      else Inr out)"

definition UnmarshalChunkDownloadResponse ::
  "nanopack \<Rightarrow> bytes \<Rightarrow> go_error + ChunkDownloadResponse" where
  "UnmarshalChunkDownloadResponse np body =
     unmarshal np (MaxChunkBytes + 256) ChunkDownloadResponse_field ChunkDownloadResponse_zero
       (\<lambda>out. check (check_ChunkDownloadResponse out) out) body"

section \<open>ResumeRequest (69) and ResumeResponse (70)\<close>

record ResumeRequest =
  rq_TransferID :: bytes
  rq_MailboxID :: bytes
  rq_ReadSecret :: bytes
  rq_Ticket :: bytes

definition ValidateResumeRequest :: "ResumeRequest \<Rightarrow> go_error option" where
  "ValidateResumeRequest r =
     (if length (rq_TransferID r) \<noteq> 16 then
        Some (perr ErrInvalidRequest ''transfer_id must be 16 bytes'')
      else if TicketMode (rq_Ticket r) then
        (if length (rq_MailboxID r) \<noteq> 0 \<or> length (rq_ReadSecret r) \<noteq> 0 then
           Some (perr ErrInvalidRequest ''ticket mode: mailbox and read_secret must be empty'')
         else None)
      else if length (rq_MailboxID r) \<noteq> 16 \<or> length (rq_ReadSecret r) \<noteq> 32 then
        Some (perr ErrInvalidRequest ''bad resume request'')
      else None)"

definition MarshalResumeRequest :: "nanopack \<Rightarrow> ResumeRequest \<Rightarrow> go_error + bytes" where
  "MarshalResumeRequest np r =
     marshal np (ValidateResumeRequest r)
       ([(1, rq_TransferID r), (2, rq_MailboxID r), (3, rq_ReadSecret r)]
        @ (if TicketMode (rq_Ticket r) then [(4, rq_Ticket r)] else []))"

definition ResumeRequest_zero :: ResumeRequest where
  "ResumeRequest_zero =
     \<lparr>rq_TransferID = [], rq_MailboxID = [], rq_ReadSecret = [], rq_Ticket = []\<rparr>"

definition ResumeRequest_field :: "ResumeRequest \<Rightarrow> u8 \<Rightarrow> bytes \<Rightarrow> go_error + ResumeRequest" where
  "ResumeRequest_field out fid d =
     (if fid = 1 then Inr (out\<lparr>rq_TransferID := d\<rparr>)
      else if fid = 2 then Inr (out\<lparr>rq_MailboxID := d\<rparr>)
      else if fid = 3 then Inr (out\<lparr>rq_ReadSecret := d\<rparr>)
      else if fid = 4 then Inr (out\<lparr>rq_Ticket := d\<rparr>)
      else Inr out)"

definition UnmarshalResumeRequest :: "nanopack \<Rightarrow> bytes \<Rightarrow> go_error + ResumeRequest" where
  "UnmarshalResumeRequest np body =
     unmarshal np 256 ResumeRequest_field ResumeRequest_zero
       (\<lambda>out. check (ValidateResumeRequest out) out) body"

record ResumeResponse =
  rp_TransferID :: bytes
  rp_ChunkCount :: u32
  rp_HighestContiguous :: u32
  rp_Encoding :: u8
  rp_Bitmap :: bytes
  rp_MissingRanges :: bytes

definition MarshalResumeResponse :: "nanopack \<Rightarrow> ResumeResponse \<Rightarrow> go_error + bytes" where
  "MarshalResumeResponse np r =
     marshal np
       (if length (rp_TransferID r) \<noteq> 16 \<or> rp_ChunkCount r = 0
           \<or> unat (rp_ChunkCount r) > MaxChunksPerTransfer then
          Some (perr ErrInvalidRequest ''bad resume response'')
        else None)
       [(1, rp_TransferID r), (2, putU32 (rp_ChunkCount r)), (3, putU32 (rp_HighestContiguous r)),
        (4, [rp_Encoding r]), (5, rp_Bitmap r), (6, rp_MissingRanges r)]"

definition ResumeResponse_zero :: ResumeResponse where
  "ResumeResponse_zero =
     \<lparr>rp_TransferID = [], rp_ChunkCount = 0, rp_HighestContiguous = 0, rp_Encoding = 0,
      rp_Bitmap = [], rp_MissingRanges = []\<rparr>"

definition ResumeResponse_field :: "ResumeResponse \<Rightarrow> u8 \<Rightarrow> bytes \<Rightarrow> go_error + ResumeResponse" where
  "ResumeResponse_field out fid d =
     (if fid = 1 then Inr (out\<lparr>rp_TransferID := d\<rparr>)
      else if fid = 2 then store_field (getU32 d) (\<lambda>v. out\<lparr>rp_ChunkCount := v\<rparr>)
      else if fid = 3 then store_field (getU32 d) (\<lambda>v. out\<lparr>rp_HighestContiguous := v\<rparr>)
      else if fid = 4 then store_field (getU8 d) (\<lambda>v. out\<lparr>rp_Encoding := v\<rparr>)
      else if fid = 5 then Inr (out\<lparr>rp_Bitmap := d\<rparr>)
      else if fid = 6 then Inr (out\<lparr>rp_MissingRanges := d\<rparr>)
      else Inr out)"

definition UnmarshalResumeResponse :: "nanopack \<Rightarrow> bytes \<Rightarrow> go_error + ResumeResponse" where
  "UnmarshalResumeResponse np body =
     unmarshal np 8192 ResumeResponse_field ResumeResponse_zero
       (\<lambda>out. if length (rp_TransferID out) \<noteq> 16 then
                Inl (perr ErrInvalidRequest ''bad resume response'')
              else Inr out) body"

section \<open>TransferComplete (71), its response (72) and TransferCancel (73)\<close>

record TransferComplete =
  tf_TransferID :: bytes
  tf_ManifestHash :: bytes
  tf_MailboxID :: bytes
  tf_SenderPub :: bytes
  tf_Timestamp :: u64
  tf_Nonce :: bytes
  tf_Signature :: bytes

definition ValidateTransferComplete :: "TransferComplete \<Rightarrow> go_error option" where
  "ValidateTransferComplete t =
     (if length (tf_TransferID t) \<noteq> 16 \<or> length (tf_ManifestHash t) \<noteq> 32
         \<or> length (tf_SenderPub t) \<noteq> 32 \<or> length (tf_Nonce t) \<noteq> 16 \<or> length (tf_Signature t) \<noteq> 64 then
        Some (perr ErrInvalidRequest ''bad transfer complete'')
      else if length (tf_MailboxID t) \<noteq> 0 \<and> length (tf_MailboxID t) \<noteq> 16 then
        Some (perr ErrInvalidRequest ''mailbox_id must be 0 or 16 bytes'')
      else None)"

definition MarshalTransferComplete :: "nanopack \<Rightarrow> TransferComplete \<Rightarrow> go_error + bytes" where
  "MarshalTransferComplete np t =
     marshal np (ValidateTransferComplete t)
       [(1, tf_TransferID t), (2, tf_ManifestHash t), (3, tf_MailboxID t), (4, tf_SenderPub t),
        (5, putU64 (tf_Timestamp t)), (6, tf_Nonce t), (7, tf_Signature t)]"

definition TransferComplete_zero :: TransferComplete where
  "TransferComplete_zero =
     \<lparr>tf_TransferID = [], tf_ManifestHash = [], tf_MailboxID = [], tf_SenderPub = [],
      tf_Timestamp = 0, tf_Nonce = [], tf_Signature = []\<rparr>"

definition TransferComplete_field ::
  "TransferComplete \<Rightarrow> u8 \<Rightarrow> bytes \<Rightarrow> go_error + TransferComplete" where
  "TransferComplete_field out fid d =
     (if fid = 1 then Inr (out\<lparr>tf_TransferID := d\<rparr>)
      else if fid = 2 then Inr (out\<lparr>tf_ManifestHash := d\<rparr>)
      else if fid = 3 then Inr (out\<lparr>tf_MailboxID := d\<rparr>)
      else if fid = 4 then Inr (out\<lparr>tf_SenderPub := d\<rparr>)
      else if fid = 5 then store_field (getU64 d) (\<lambda>v. out\<lparr>tf_Timestamp := v\<rparr>)
      else if fid = 6 then Inr (out\<lparr>tf_Nonce := d\<rparr>)
      else if fid = 7 then Inr (out\<lparr>tf_Signature := d\<rparr>)
      else Inr out)"

definition UnmarshalTransferComplete :: "nanopack \<Rightarrow> bytes \<Rightarrow> go_error + TransferComplete" where
  "UnmarshalTransferComplete np body =
     unmarshal np 512 TransferComplete_field TransferComplete_zero
       (\<lambda>out. check (ValidateTransferComplete out) out) body"

record TransferCompleteResponse =
  tfr_Sealed :: u8
  tfr_ChunkCount :: u32
  tfr_Present :: u32

definition MarshalTransferCompleteResponse ::
  "nanopack \<Rightarrow> TransferCompleteResponse \<Rightarrow> go_error + bytes" where
  "MarshalTransferCompleteResponse np r =
     np_bytes np
       [(1, [tfr_Sealed r]), (2, putU32 (tfr_ChunkCount r)), (3, putU32 (tfr_Present r))]"

definition TransferCompleteResponse_field ::
  "TransferCompleteResponse \<Rightarrow> u8 \<Rightarrow> bytes \<Rightarrow> go_error + TransferCompleteResponse" where
  "TransferCompleteResponse_field out fid d =
     (if fid = 1 then store_field (getU8 d) (\<lambda>v. out\<lparr>tfr_Sealed := v\<rparr>)
      else if fid = 2 then store_field (getU32 d) (\<lambda>v. out\<lparr>tfr_ChunkCount := v\<rparr>)
      else if fid = 3 then store_field (getU32 d) (\<lambda>v. out\<lparr>tfr_Present := v\<rparr>)
      else Inr out)"

definition UnmarshalTransferCompleteResponse ::
  "nanopack \<Rightarrow> bytes \<Rightarrow> go_error + TransferCompleteResponse" where
  "UnmarshalTransferCompleteResponse np body =
     unmarshal np 64 TransferCompleteResponse_field
       \<lparr>tfr_Sealed = 0, tfr_ChunkCount = 0, tfr_Present = 0\<rparr> Inr body"

record TransferCancel =
  tx_TransferID :: bytes
  tx_MailboxID :: bytes
  tx_Reason :: u8
  tx_ReadSecret :: bytes

definition check_TransferCancel :: "TransferCancel \<Rightarrow> go_error option" where
  "check_TransferCancel t =
     (if length (tx_TransferID t) \<noteq> 16 \<or> length (tx_MailboxID t) \<noteq> 16 \<or> length (tx_ReadSecret t) \<noteq> 32 then
        Some (perr ErrInvalidRequest ''bad transfer cancel'')
      else None)"

definition MarshalTransferCancel :: "nanopack \<Rightarrow> TransferCancel \<Rightarrow> go_error + bytes" where
  "MarshalTransferCancel np t =
     marshal np (check_TransferCancel t)
       [(1, tx_TransferID t), (2, tx_MailboxID t), (3, [tx_Reason t]), (4, tx_ReadSecret t)]"

definition TransferCancel_zero :: TransferCancel where
  "TransferCancel_zero =
     \<lparr>tx_TransferID = [], tx_MailboxID = [], tx_Reason = 0, tx_ReadSecret = []\<rparr>"

definition TransferCancel_field :: "TransferCancel \<Rightarrow> u8 \<Rightarrow> bytes \<Rightarrow> go_error + TransferCancel" where
  "TransferCancel_field out fid d =
     (if fid = 1 then Inr (out\<lparr>tx_TransferID := d\<rparr>)
      else if fid = 2 then Inr (out\<lparr>tx_MailboxID := d\<rparr>)
      else if fid = 3 then store_field (getU8 d) (\<lambda>v. out\<lparr>tx_Reason := v\<rparr>)
      else if fid = 4 then Inr (out\<lparr>tx_ReadSecret := d\<rparr>)
      else Inr out)"

definition UnmarshalTransferCancel :: "nanopack \<Rightarrow> bytes \<Rightarrow> go_error + TransferCancel" where
  "UnmarshalTransferCancel np body =
     unmarshal np 256 TransferCancel_field TransferCancel_zero
       (\<lambda>out. check (check_TransferCancel out) out) body"

section \<open>What the validations accept\<close>

lemma expect_count:
  fixes T :: u64 and S :: u32
  assumes "S \<noteq> 0" "unat S \<le> 65536" "T \<noteq> 0" "unat T \<le> 1073741824"
  shows "unat (ucast ((T + ucast S - 1) div ucast S) :: u32) = (unat T + unat S - 1) div unat S"
proof -
  have pos: "0 < unat S" "0 < unat T" using assms by (simp_all add: unat_gt_0)
  have S: "unat (ucast S :: u64) = unat S"
    using assms(2) by (simp add: unsigned_ucast_eq take_bit_nat_eq_self)
  have sum: "unat (T + ucast S) = unat T + unat S"
    using assms S by (simp add: unat_word_ariths)
  have "unat (T + ucast S - 1) = unat T + unat S - 1"
    using sum pos by (subst unat_minus_one) (auto simp: word_unat_eq_iff)
  then have q: "unat ((T + ucast S - 1) div ucast S) = (unat T + unat S - 1) div unat S"
    by (simp add: unat_div S)
  have "(unat T + unat S - 1) div unat S \<le> unat T + unat S - 1" by (rule div_le_dividend)
  also have "\<dots> < 2 ^ 32" using assms by simp
  finally show ?thesis
    using q by (simp add: unsigned_ucast_eq take_bit_nat_eq_self)
qed

lemma ValidateTransferCreate_None:
  "ValidateTransferCreate T S C = None \<longleftrightarrow>
     0 < unat S \<and> unat S \<le> MaxChunkBytes \<and> 0 < unat C \<and> unat C \<le> MaxChunksPerTransfer
     \<and> 0 < unat T \<and> unat T \<le> MaxFileBytes \<and> unat C = (unat T + unat S - 1) div unat S"
proof (cases "S = 0 \<or> unat S > MaxChunkBytes \<or> T = 0 \<or> unat T > MaxFileBytes")
  case True
  then show ?thesis
    by (auto simp: ValidateTransferCreate_def word_less_nat_alt)
next
  case False
  let ?E = "ucast ((T + ucast S - 1) div ucast S) :: u32"
  have "unat ?E = (unat T + unat S - 1) div unat S" using False by (intro expect_count) simp_all
  then have "?E = C \<longleftrightarrow> unat C = (unat T + unat S - 1) div unat S"
    by (metis word_unat_eq_iff)
  moreover have "T \<le> of_nat MaxFileBytes" using False by (simp add: word_le_nat_alt)
  ultimately show ?thesis
    using False by (simp add: ValidateTransferCreate_def unat_gt_0 not_less)
qed

text \<open>The accepted count is the number of chunks: the last chunk is short but not empty.\<close>

lemma accepted_chunk_count:
  assumes "ValidateTransferCreate T S C = None"
  shows "(unat C - 1) * unat S < unat T" "unat T \<le> unat C * unat S"
proof -
  define s t c where "s = unat S" and "t = unat T" and "c = unat C"
  have pos: "0 < s" "0 < t" and c: "c = (t + s - 1) div s"
    using assms by (simp_all add: ValidateTransferCreate_None s_def t_def c_def)
  obtain u where u: "t = Suc u" using pos(2) gr0_implies_Suc by blast
  have "c = Suc (u div s)" using c pos(1) div_add_self2 [of s u] by (simp add: u)
  moreover have "u div s * s \<le> u" by (rule div_times_less_eq_dividend)
  moreover have "u < u div s * s + s" using dividend_less_div_times [OF pos(1), of u] by simp
  ultimately have "(c - 1) * s < t \<and> t \<le> c * s" by (simp add: u less_Suc_eq_le)
  then show "(unat C - 1) * unat S < unat T" "unat T \<le> unat C * unat S"
    by (simp_all add: s_def t_def c_def)
qed

lemma ValidateTransferCreateMsg_None:
  "ValidateTransferCreateMsg t = None \<longleftrightarrow>
     length (tc_MailboxID t) \<in> {0, 16}
     \<and> ValidateTransferCreate (tc_TotalSize t) (tc_ChunkSize t) (tc_ChunkCount t) = None
     \<and> length (tc_Manifest t) \<le> MaxManifestBytes \<and> length (tc_SenderPub t) = 32
     \<and> length (tc_Nonce t) = 16 \<and> length (tc_Signature t) = 64"
  by (auto simp: ValidateTransferCreateMsg_def split: option.splits if_splits)

lemma ValidateChunkUpload_None:
  "ValidateChunkUpload c = None \<longleftrightarrow>
     length (cu_TransferID c) = 16 \<and> 0 < length (cu_Payload c)
     \<and> length (cu_Payload c) \<le> MaxChunkBytes \<and> length (cu_ChunkHash c) \<in> {0, 32}
     \<and> unat (cu_Index c) < MaxChunksPerTransfer"
  by (auto simp: ValidateChunkUpload_def)

lemma ValidateChunkDownload_None:
  "ValidateChunkDownload r = None \<longleftrightarrow>
     length (cd_TransferID r) = 16
     \<and> (if length (cd_Ticket r) = 32 then cd_MailboxID r = [] \<and> cd_ReadSecret r = []
        else length (cd_MailboxID r) = 16 \<and> length (cd_ReadSecret r) = 32)
     \<and> 0 < unat (cd_Count r) \<and> unat (cd_Count r) \<le> MaxBatchMessages
     \<and> unat (cd_Index r) + unat (cd_Count r) \<le> MaxChunksPerTransfer"
proof -
  let ?i = "unat (cd_Index r)" and ?c = "unat (cd_Count r)"
  have sum: "unat (cd_Index r + cd_Count r) = ?i + ?c" if "?c \<le> 32" "?i < 16384"
    using that by (simp add: unat_word_ariths)
  have "(?i \<ge> 16384 \<or> unat (cd_Index r + cd_Count r) > 16384) \<longleftrightarrow> 16384 < ?i + ?c"
    if "?c \<le> 32" "0 < ?c"
    using that sum by (cases "?i < 16384") auto
  then show ?thesis
    by (auto simp: ValidateChunkDownload_def TicketMode_def unat_gt_0 not_less not_le)
qed

lemma check_ChunkDownloadResponse_None:
  "check_ChunkDownloadResponse r = None \<longleftrightarrow>
     length (cdr_TransferID r) = 16 \<and> 0 < length (cdr_Payload r)
     \<and> length (cdr_Payload r) \<le> MaxChunkBytes \<and> length (cdr_ChunkHash r) = 32"
  by (auto simp: check_ChunkDownloadResponse_def)

lemma ValidateResumeRequest_None:
  "ValidateResumeRequest r = None \<longleftrightarrow>
     length (rq_TransferID r) = 16
     \<and> (if length (rq_Ticket r) = 32 then rq_MailboxID r = [] \<and> rq_ReadSecret r = []
        else length (rq_MailboxID r) = 16 \<and> length (rq_ReadSecret r) = 32)"
  by (auto simp: ValidateResumeRequest_def TicketMode_def)

lemma ValidateTransferComplete_None:
  "ValidateTransferComplete t = None \<longleftrightarrow>
     length (tf_TransferID t) = 16 \<and> length (tf_ManifestHash t) = 32
     \<and> length (tf_SenderPub t) = 32 \<and> length (tf_Nonce t) = 16 \<and> length (tf_Signature t) = 64
     \<and> length (tf_MailboxID t) \<in> {0, 16}"
  by (auto simp: ValidateTransferComplete_def)

lemma check_TransferCancel_None:
  "check_TransferCancel t = None \<longleftrightarrow>
     length (tx_TransferID t) = 16 \<and> length (tx_MailboxID t) = 16 \<and> length (tx_ReadSecret t) = 32"
  by (auto simp: check_TransferCancel_def)

lemma decode_EncodeRanges: "DecodeRanges (EncodeRanges ranges) = Inr ranges"
proof -
  let ?enc = "\<lambda>(s, c). putU32 s @ putU32 c"
  have "length (EncodeRanges ranges) = 8 * length ranges"
    by (induction ranges) (auto simp: EncodeRanges_def)
  moreover have "chunks 8 (EncodeRanges ranges) = map ?enc ranges"
    unfolding EncodeRanges_def by (rule chunks_concat) auto
  moreover have "(\<lambda>w. (get32 (take 4 w), get32 (drop 4 w))) \<circ> ?enc = id"
    by (rule ext) (auto simp: putU32_def)
  ultimately show ?thesis by (simp add: DecodeRanges_def)
qed

section \<open>Round trips\<close>

context nanopack_codec
begin

lemma transfer_create_rt:
  assumes "MarshalTransferCreate np t = Inr body"
  shows "UnmarshalTransferCreate np body = Inr t"
proof -
  have v: "ValidateTransferCreateMsg t = None"
    using assms by (simp add: MarshalTransferCreate_def marshal_Inr)
  then have len: "length (tc_MailboxID t) \<le> 16" "length (tc_Manifest t) \<le> 4096"
      "length (tc_SenderPub t) = 32" "length (tc_Nonce t) = 16" "length (tc_Signature t) = 64"
    by (auto simp: ValidateTransferCreateMsg_None)
  have "uleb_size (length (tc_Manifest t)) \<le> 2" using len by (intro uleb_size_small) simp
  then show ?thesis
    using len v unfolding UnmarshalTransferCreate_def
    by (subst unmarshal_marshal [OF assms [unfolded MarshalTransferCreate_def]])
       (simp_all add: uleb_size_small(1) TransferCreate_field_def TransferCreate_zero_def
          ValidateTransferCreateMsg_None)
qed

lemma transfer_create_response_rt:
  assumes "MarshalTransferCreateResponse np r = Inr body"
  shows "UnmarshalTransferCreateResponse np body = Inr r"
proof -
  have "length (tcr_TransferID r) = 16" "length (tcr_DownloadSecret r) = 32"
    using assms by (auto simp: MarshalTransferCreateResponse_def marshal_Inr split: if_splits)
  then show ?thesis
    unfolding UnmarshalTransferCreateResponse_def
    by (subst unmarshal_marshal [OF assms [unfolded MarshalTransferCreateResponse_def]])
       (simp_all add: uleb_size_small(1) TransferCreateResponse_field_def
          TransferCreateResponse_zero_def finish_TransferCreateResponse_def)
qed

lemma chunk_upload_rt:
  assumes "MarshalChunkUpload np c = Inr body"
  shows "UnmarshalChunkUpload np body = Inr c"
proof -
  have v: "ValidateChunkUpload c = None"
    using assms by (simp add: MarshalChunkUpload_def marshal_Inr)
  then have len: "length (cu_TransferID c) = 16" "length (cu_Payload c) \<le> 65536"
      "length (cu_ChunkHash c) \<le> 32"
    by (auto simp: ValidateChunkUpload_None)
  have "uleb_size (length (cu_Payload c)) \<le> 3" using len by (intro uleb_size_small) simp
  then show ?thesis
    using len v unfolding UnmarshalChunkUpload_def
    by (subst unmarshal_marshal [OF assms [unfolded MarshalChunkUpload_def]])
       (auto simp: uleb_size_small(1) ChunkUpload_field_def ChunkUpload_zero_def
          ValidateChunkUpload_None)
qed

lemma chunk_ack_rt:
  assumes "MarshalChunkAck np a = Inr body"
    and "length (ca_MissingRanges a) + length (ca_Bitmap a) \<le> 8000"
  shows "UnmarshalChunkAck np body = Inr a"
proof -
  have "uleb_size (length (ca_MissingRanges a)) \<le> 2" "uleb_size (length (ca_Bitmap a)) \<le> 2"
    using assms(2) by (intro uleb_size_small; simp)+
  moreover have "length (ca_TransferID a) = 16" "length (ca_MissingRanges a) mod 8 = 0"
    using assms(1) by (auto simp: MarshalChunkAck_def marshal_Inr split: if_splits)
  ultimately show ?thesis
    using assms(2) unfolding UnmarshalChunkAck_def
    by (subst unmarshal_marshal [OF assms(1) [unfolded MarshalChunkAck_def]])
       (simp_all add: uleb_size_small(1) ChunkAck_field_def ChunkAck_zero_def finish_ChunkAck_def)
qed

text \<open>
  An acknowledgement that carries the 1024 ranges the encoder allows does not fit the decoder's
  limit of 8192 bytes.
\<close>

lemma chunk_ack_full_rejected:
  assumes "MarshalChunkAck np a = Inr body" and "length (ca_MissingRanges a) = 8 * MaxMissingRanges"
  shows "\<exists>e. UnmarshalChunkAck np body = Inl (ProtoErr e) \<and> Code e = ErrPayloadTooLarge"
  unfolding UnmarshalChunkAck_def
  by (rule marshal_too_long [OF assms(1) [unfolded MarshalChunkAck_def]]) (simp add: assms(2))

lemma chunk_download_rt:
  assumes "MarshalChunkDownload np r = Inr body" and "length (cd_Ticket r) \<in> {0, 32}"
  shows "UnmarshalChunkDownload np body = Inr r"
proof -
  have v: "ValidateChunkDownload r = None"
    using assms(1) by (simp add: MarshalChunkDownload_def marshal_Inr)
  then have "length (cd_TransferID r) = 16" "length (cd_MailboxID r) \<le> 16"
      "length (cd_ReadSecret r) \<le> 32"
    by (auto simp: ValidateChunkDownload_None split: if_splits)
  then show ?thesis
    using assms(2) v unfolding UnmarshalChunkDownload_def
    by (subst unmarshal_marshal [OF assms(1) [unfolded MarshalChunkDownload_def]])
       (auto simp: uleb_size_small(1) ChunkDownload_field_def ChunkDownload_zero_def
          ValidateChunkDownload_None)
qed

lemma chunk_download_response_rt:
  assumes "MarshalChunkDownloadResponse np r = Inr body"
  shows "UnmarshalChunkDownloadResponse np body = Inr r"
proof -
  have v: "check_ChunkDownloadResponse r = None"
    using assms by (simp add: MarshalChunkDownloadResponse_def marshal_Inr)
  then have "uleb_size (length (cdr_Payload r)) \<le> 3"
    by (intro uleb_size_small) (simp add: check_ChunkDownloadResponse_None)
  with v show ?thesis
    unfolding UnmarshalChunkDownloadResponse_def
    by (subst unmarshal_marshal [OF assms [unfolded MarshalChunkDownloadResponse_def]])
       (simp_all add: check_ChunkDownloadResponse_None uleb_size_small(1)
          ChunkDownloadResponse_field_def ChunkDownloadResponse_zero_def)
qed

lemma resume_request_rt:
  assumes "MarshalResumeRequest np r = Inr body" and "length (rq_Ticket r) \<in> {0, 32}"
  shows "UnmarshalResumeRequest np body = Inr r"
proof -
  have v: "ValidateResumeRequest r = None"
    using assms(1) by (simp add: MarshalResumeRequest_def marshal_Inr)
  then have "length (rq_TransferID r) = 16" "length (rq_MailboxID r) \<le> 16"
      "length (rq_ReadSecret r) \<le> 32"
    by (auto simp: ValidateResumeRequest_None split: if_splits)
  then show ?thesis
    using assms(2) v unfolding UnmarshalResumeRequest_def
    by (subst unmarshal_marshal [OF assms(1) [unfolded MarshalResumeRequest_def]])
       (auto simp: uleb_size_small(1) ResumeRequest_field_def ResumeRequest_zero_def TicketMode_def
          ValidateResumeRequest_None)
qed

lemma resume_response_rt:
  assumes "MarshalResumeResponse np r = Inr body"
    and "length (rp_MissingRanges r) + length (rp_Bitmap r) \<le> 8000"
  shows "UnmarshalResumeResponse np body = Inr r"
proof -
  have "uleb_size (length (rp_MissingRanges r)) \<le> 2" "uleb_size (length (rp_Bitmap r)) \<le> 2"
    using assms(2) by (intro uleb_size_small; simp)+
  moreover have "length (rp_TransferID r) = 16"
    using assms(1) by (auto simp: MarshalResumeResponse_def marshal_Inr split: if_splits)
  ultimately show ?thesis
    using assms(2) unfolding UnmarshalResumeResponse_def
    by (subst unmarshal_marshal [OF assms(1) [unfolded MarshalResumeResponse_def]])
       (simp_all add: uleb_size_small(1) ResumeResponse_field_def ResumeResponse_zero_def)
qed

lemma transfer_complete_rt:
  assumes "MarshalTransferComplete np t = Inr body"
  shows "UnmarshalTransferComplete np body = Inr t"
proof -
  have v: "ValidateTransferComplete t = None"
    using assms by (simp add: MarshalTransferComplete_def marshal_Inr)
  then have "length (tf_TransferID t) = 16" "length (tf_ManifestHash t) = 32"
      "length (tf_MailboxID t) \<le> 16" "length (tf_SenderPub t) = 32" "length (tf_Nonce t) = 16"
      "length (tf_Signature t) = 64"
    by (auto simp: ValidateTransferComplete_None)
  with v show ?thesis
    unfolding UnmarshalTransferComplete_def
    by (subst unmarshal_marshal [OF assms [unfolded MarshalTransferComplete_def]])
       (simp_all add: uleb_size_small(1) TransferComplete_field_def TransferComplete_zero_def
          ValidateTransferComplete_None)
qed

lemma transfer_complete_response_rt:
  assumes "MarshalTransferCompleteResponse np r = Inr body"
  shows "UnmarshalTransferCompleteResponse np body = Inr r"
  unfolding UnmarshalTransferCompleteResponse_def
  by (subst unmarshal_bytes [OF assms [unfolded MarshalTransferCompleteResponse_def]])
     (simp_all add: uleb_size_small(1) TransferCompleteResponse_field_def)

lemma transfer_cancel_rt:
  assumes "MarshalTransferCancel np t = Inr body"
  shows "UnmarshalTransferCancel np body = Inr t"
proof -
  have "check_TransferCancel t = None"
    using assms by (simp add: MarshalTransferCancel_def marshal_Inr)
  then show ?thesis
    unfolding UnmarshalTransferCancel_def
    by (subst unmarshal_marshal [OF assms [unfolded MarshalTransferCancel_def]])
       (simp_all add: check_TransferCancel_None uleb_size_small(1) TransferCancel_field_def
          TransferCancel_zero_def)
qed

end

end
