(* ===== verification/Mailbox_Store.thy ===== *)
theory Mailbox_Store
  imports Wire_Messages Wire_Transfers Sha256
begin

text \<open>
  The state of the shard's reference store and its mailbox and message operations, from
  \<open>server/storage/memstore.go\<close> and \<open>store.go\<close>. A Go map is an association list with distinct
  keys, a pointer into a map is the entry under its key. An operation runs under the store's mutex
  and is a function of the state, of the clock reading and of the random id it draws; it returns
  its results, or the error, and the state it leaves, since several failing operations still
  drop expired messages.

  The lemmas show that pruning in place is filtering, that a queue is served in order, and that
  every operation keeps a mailbox within its limits.
\<close>

section \<open>State\<close>

record StoredMessage =
  msg_ID :: bytes
  msg_Envelope :: bytes
  msg_SenderPub :: bytes
  msg_EnqueuedAt :: int
  msg_ExpiresAt :: int

datatype TransferState =
  TransferCreated | TransferUploading | TransferComplete | TransferCancelled | TransferExpired

record mailboxData =
  mb_readSecretHash :: bytes
  mb_messages :: "StoredMessage list"
  mb_expiresAt :: int
  mb_storedBytes :: int

record transferData =
  td_mailboxID :: bytes
  td_hasMailbox :: bool
  td_downloadSecretHash :: bytes
  td_totalSize :: u64
  td_chunkSize :: u32
  td_chunkCount :: u32
  td_manifest :: bytes
  td_senderPub :: bytes
  td_state :: TransferState
  td_present :: "bool list"
  td_chunks :: "(u32 \<times> bytes) list"
  td_hashes :: "(u32 \<times> bytes) list"
  td_presentCount :: u32
  td_highest :: u32
  td_createdAt :: int
  td_expiresAt :: int
  td_storedBytes :: int

record MemStore =
  ms_mailboxes :: "(bytes \<times> mailboxData) list"
  ms_transfers :: "(bytes \<times> transferData) list"
  ms_replay :: "(bytes \<times> int) list"

definition NewMemStore :: MemStore where
  "NewMemStore = \<lparr>ms_mailboxes = [], ms_transfers = [], ms_replay = []\<rparr>"

text \<open>Writing through the pointer to a mailbox or a transfer.\<close>

definition put_mailbox :: "bytes \<Rightarrow> mailboxData \<Rightarrow> MemStore \<Rightarrow> MemStore" where
  "put_mailbox mid mb s = s\<lparr>ms_mailboxes := AList.update mid mb (ms_mailboxes s)\<rparr>"

definition put_transfer :: "bytes \<Rightarrow> transferData \<Rightarrow> MemStore \<Rightarrow> MemStore" where
  "put_transfer tid t s = s\<lparr>ms_transfers := AList.update tid t (ms_transfers s)\<rparr>"

lemma put_mailbox_sel [simp]:
  "map_of (ms_mailboxes (put_mailbox mid mb s)) = (map_of (ms_mailboxes s))(mid \<mapsto> mb)"
  "ms_transfers (put_mailbox mid mb s) = ms_transfers s"
  "ms_replay (put_mailbox mid mb s) = ms_replay s"
  by (simp_all add: put_mailbox_def update_conv')

lemma put_transfer_sel [simp]:
  "map_of (ms_transfers (put_transfer tid t s)) = (map_of (ms_transfers s))(tid \<mapsto> t)"
  "ms_mailboxes (put_transfer tid t s) = ms_mailboxes s"
  "ms_replay (put_transfer tid t s) = ms_replay s"
  by (simp_all add: put_transfer_def update_conv')

abbreviation mailbox_of :: "MemStore \<Rightarrow> bytes \<Rightarrow> mailboxData option" where
  "mailbox_of s \<equiv> map_of (ms_mailboxes s)"

abbreviation transfer_of :: "MemStore \<Rightarrow> bytes \<Rightarrow> transferData option" where
  "transfer_of s \<equiv> map_of (ms_transfers s)"

section \<open>Mailboxes\<close>

definition hashSecret :: "bytes \<Rightarrow> bytes" where "hashSecret secret = sha256 secret"

definition secretMatches :: "bytes \<Rightarrow> bytes \<Rightarrow> bool" where
  "secretMatches stored provided \<longleftrightarrow> length provided = 32 \<and> hashSecret provided = stored"

abbreviation mailbox_deadline :: "int \<Rightarrow> int" where
  "mailbox_deadline now \<equiv> i64 (now + MailboxTTLSeconds * 1000)"

definition CreateMailbox :: "int \<Rightarrow> bytes \<Rightarrow> bytes \<Rightarrow> MemStore \<Rightarrow> bool \<times> MemStore" where
  "CreateMailbox now mailboxID readSecretHash s =
     (case mailbox_of s mailboxID of
        Some mb \<Rightarrow>
          (False, put_mailbox mailboxID
                    (mb\<lparr>mb_readSecretHash := readSecretHash, mb_expiresAt := mailbox_deadline now\<rparr>) s)
      | None \<Rightarrow>
          (True, put_mailbox mailboxID
                   \<lparr>mb_readSecretHash = readSecretHash, mb_messages = [],
                    mb_expiresAt = mailbox_deadline now, mb_storedBytes = 0\<rparr> s))"

definition MailboxExists :: "int \<Rightarrow> bytes \<Rightarrow> MemStore \<Rightarrow> bool" where
  "MailboxExists now mailboxID s =
     (case mailbox_of s mailboxID of
        None \<Rightarrow> False
      | Some mb \<Rightarrow> if now \<ge> mb_expiresAt mb then False else True)"

definition CheckReadSecret :: "bytes \<Rightarrow> bytes \<Rightarrow> MemStore \<Rightarrow> bool" where
  "CheckReadSecret mailboxID readSecret s =
     (case mailbox_of s mailboxID of
        None \<Rightarrow> False
      | Some mb \<Rightarrow>
          if length readSecret \<noteq> 32 then False else hashSecret readSecret = mb_readSecretHash mb)"

definition getMailboxLocked :: "bytes \<Rightarrow> int \<Rightarrow> MemStore \<Rightarrow> mailboxData option" where
  "getMailboxLocked mid now s =
     (case mailbox_of s mid of
        None \<Rightarrow> None
      | Some mb \<Rightarrow> if now \<ge> mb_expiresAt mb then None else Some mb)"

definition envelope_bytes :: "StoredMessage list \<Rightarrow> int" where
  "envelope_bytes msgs = sum_list (map (\<lambda>m. int (length (msg_Envelope m))) msgs)"

definition pruneMessagesLocked :: "mailboxData \<Rightarrow> int \<Rightarrow> mailboxData" where
  "pruneMessagesLocked mb now =
     (let kept = compact (\<lambda>m. now < msg_ExpiresAt m) (mb_messages mb)
      in mb\<lparr>mb_messages := kept, mb_storedBytes := envelope_bytes kept\<rparr>)"

section \<open>Messages\<close>

definition SendMessage ::
  "int \<Rightarrow> bytes \<Rightarrow> SendMessage \<Rightarrow> MemStore \<Rightarrow> (go_error + bytes \<times> u32) \<times> MemStore" where
  "SendMessage now newID msg s =
     (case ValidateSendMessage msg of
        Some e \<Rightarrow> (Inl e, s)
      | None \<Rightarrow>
          let mid = copy_array 16 (sm_MailboxID msg) in
          (case getMailboxLocked mid now s of
             None \<Rightarrow> (Inl (perr ErrMailboxNotFound ''mailbox not found''), s)
           | Some mb0 \<Rightarrow>
               let mb = pruneMessagesLocked mb0 now; s = put_mailbox mid mb s in
               if length (mb_messages mb) \<ge> MaxQueuedMessages then
                 (Inl (perr ErrQuotaExceeded ''mailbox full''), s)
               else if mb_storedBytes mb + int (length (sm_Envelope msg)) > MaxStoredBytesPerMailbox then
                 (Inl (perr ErrQuotaExceeded ''mailbox byte quota''), s)
               else
                 let m = \<lparr>msg_ID = newID, msg_Envelope = sm_Envelope msg,
                          msg_SenderPub = sm_SenderPub msg, msg_EnqueuedAt = now,
                          msg_ExpiresAt = i64 (now + MsgTTLSeconds * 1000)\<rparr>;
                     msgs = mb_messages mb @ [m];
                     mb = mb\<lparr>mb_messages := msgs,
                             mb_storedBytes := mb_storedBytes mb + int (length (sm_Envelope msg)),
                             mb_expiresAt := mailbox_deadline now\<rparr>
                 in (Inr (newID, word_of_nat (length msgs)), put_mailbox mid mb s)))"

text \<open>The loop of \<open>ReceiveMessages\<close> over the queue, with the lists \<open>out\<close> and \<open>kept\<close> it builds.\<close>

fun receive_loop ::
  "nat \<Rightarrow> bool \<Rightarrow> StoredMessage list \<Rightarrow> StoredMessage list \<Rightarrow> StoredMessage list
   \<Rightarrow> StoredMessage list \<times> StoredMessage list" where
  "receive_loop limit peek [] out kept = (out, kept)"
| "receive_loop limit peek (m # ms) out kept =
     (if length out < limit
      then receive_loop limit peek ms (out @ [m]) (if peek then kept @ [m] else kept)
      else receive_loop limit peek ms out (kept @ [m]))"

definition ReceiveMessages ::
  "int \<Rightarrow> bytes \<Rightarrow> bytes \<Rightarrow> int \<Rightarrow> bool \<Rightarrow> MemStore
   \<Rightarrow> (go_error + StoredMessage list \<times> bool) \<times> MemStore" where
  "ReceiveMessages now mailboxID readSecret limit peek s =
     (case getMailboxLocked mailboxID now s of
        None \<Rightarrow> (Inl (perr ErrMailboxNotFound ''mailbox not found''), s)
      | Some mb \<Rightarrow>
          if \<not> secretMatches (mb_readSecretHash mb) readSecret then
            (Inl (perr ErrAuthFailed ''bad read secret''), s)
          else
            let limit = (if limit \<le> 0 \<or> limit > int MaxBatchMessages then int MaxBatchMessages else limit);
                mb = pruneMessagesLocked mb now;
                (out, kept) = receive_loop (nat limit) peek (mb_messages mb) [] [];
                mb = (if \<not> peek then mb\<lparr>mb_messages := kept, mb_storedBytes := envelope_bytes kept\<rparr> else mb);
                mb = mb\<lparr>mb_expiresAt := mailbox_deadline now\<rparr>
            in (Inr (out, \<not> peek), put_mailbox mailboxID mb s))"

text \<open>The set \<open>want\<close> of acknowledged ids; an id of the wrong length ends the loop.\<close>

fun ack_want :: "bytes list \<Rightarrow> bytes list \<Rightarrow> go_error + bytes list" where
  "ack_want [] want = Inr want"
| "ack_want (raw # raws) want =
     (if length raw \<noteq> 16 then Inl (perr ErrInvalidRequest ''msg_id must be 16 bytes'')
      else ack_want raws (copy_array 16 raw # want))"

definition AckMessages ::
  "int \<Rightarrow> bytes \<Rightarrow> bytes \<Rightarrow> bytes list \<Rightarrow> u8 \<Rightarrow> MemStore \<Rightarrow> (go_error + u32 \<times> u32) \<times> MemStore" where
  "AckMessages now mailboxID readSecret msgIDs disposition s =
     (if disposition \<noteq> AckReceived \<and> disposition \<noteq> AckConsumed then
        (Inl (perr ErrInvalidRequest ''bad disposition''), s)
      else if length msgIDs = 0 \<or> length msgIDs > MaxBatchMessages then
        (Inl (perr ErrInvalidRequest ''msg_ids count out of bounds''), s)
      else (case getMailboxLocked mailboxID now s of
        None \<Rightarrow> (Inl (perr ErrMailboxNotFound ''mailbox not found''), s)
      | Some mb0 \<Rightarrow>
          if \<not> secretMatches (mb_readSecretHash mb0) readSecret then
            (Inl (perr ErrAuthFailed ''bad read secret''), s)
          else
            let mb = pruneMessagesLocked mb0 now; s = put_mailbox mailboxID mb s in
            (case ack_want msgIDs [] of
               Inl e \<Rightarrow> (Inl e, s)
             | Inr want \<Rightarrow>
                 let acked = word_of_nat (length (filter (\<lambda>m. msg_ID m \<in> set want) (mb_messages mb)));
                     mb = (if disposition = AckConsumed then
                             let kept = compact (\<lambda>m. msg_ID m \<notin> set want) (mb_messages mb)
                             in mb\<lparr>mb_messages := kept, mb_storedBytes := envelope_bytes kept\<rparr>
                           else mb);
                     mb = mb\<lparr>mb_expiresAt := mailbox_deadline now\<rparr>
                 in (Inr (acked, word_of_nat (length (mb_messages mb))), put_mailbox mailboxID mb s))))"

section \<open>Limits of a mailbox\<close>

definition mailbox_ok :: "mailboxData \<Rightarrow> bool" where
  "mailbox_ok mb \<longleftrightarrow>
     mb_storedBytes mb = envelope_bytes (mb_messages mb)
     \<and> length (mb_messages mb) \<le> MaxQueuedMessages
     \<and> envelope_bytes (mb_messages mb) \<le> MaxStoredBytesPerMailbox"

definition mailboxes_ok :: "MemStore \<Rightarrow> bool" where
  "mailboxes_ok s \<longleftrightarrow>
     distinct (map fst (ms_mailboxes s)) \<and> (\<forall>mid mb. mailbox_of s mid = Some mb \<longrightarrow> mailbox_ok mb)"

lemma envelope_bytes_simps [simp]:
  "envelope_bytes [] = 0"
  "envelope_bytes (m # ms) = int (length (msg_Envelope m)) + envelope_bytes ms"
  "envelope_bytes (ms @ ms') = envelope_bytes ms + envelope_bytes ms'"
  by (simp_all add: envelope_bytes_def)

lemma envelope_bytes_nonneg [simp]: "0 \<le> envelope_bytes ms"
  by (induction ms) simp_all

lemma envelope_bytes_filter: "envelope_bytes (filter P ms) \<le> envelope_bytes ms"
  by (induction ms) simp_all

lemma envelope_bytes_drop: "envelope_bytes (drop n ms) \<le> envelope_bytes ms"
  using envelope_bytes_simps(3) [of "take n ms" "drop n ms"] by simp

lemma mailbox_ok_deadline [simp]: "mailbox_ok (mb\<lparr>mb_expiresAt := x\<rparr>) = mailbox_ok mb"
  by (simp add: mailbox_ok_def)

lemma mailbox_ok_secret [simp]: "mailbox_ok (mb\<lparr>mb_readSecretHash := x\<rparr>) = mailbox_ok mb"
  by (simp add: mailbox_ok_def)

lemma mailbox_ok_filter:
  "mailbox_ok mb \<Longrightarrow>
   mailbox_ok (mb\<lparr>mb_messages := filter P (mb_messages mb),
                 mb_storedBytes := envelope_bytes (filter P (mb_messages mb))\<rparr>)"
  by (auto simp: mailbox_ok_def
        intro: order_trans [OF envelope_bytes_filter] order_trans [OF length_filter_le])

lemma mailbox_ok_drop:
  "mailbox_ok mb \<Longrightarrow>
   mailbox_ok (mb\<lparr>mb_messages := drop n (mb_messages mb),
                 mb_storedBytes := envelope_bytes (drop n (mb_messages mb))\<rparr>)"
  using envelope_bytes_drop [of n "mb_messages mb"] by (auto simp: mailbox_ok_def)

lemma prune_filter:
  "pruneMessagesLocked mb now =
     mb\<lparr>mb_messages := filter (\<lambda>m. now < msg_ExpiresAt m) (mb_messages mb),
        mb_storedBytes := envelope_bytes (filter (\<lambda>m. now < msg_ExpiresAt m) (mb_messages mb))\<rparr>"
  by (simp add: pruneMessagesLocked_def compact_filter Let_def)

lemma prune_sel [simp]:
  "mb_messages (pruneMessagesLocked mb now) = filter (\<lambda>m. now < msg_ExpiresAt m) (mb_messages mb)"
  "mb_readSecretHash (pruneMessagesLocked mb now) = mb_readSecretHash mb"
  "mb_expiresAt (pruneMessagesLocked mb now) = mb_expiresAt mb"
  by (simp_all add: prune_filter)

lemma prune_ok: "mailbox_ok mb \<Longrightarrow> mailbox_ok (pruneMessagesLocked mb now)"
  by (simp add: prune_filter mailbox_ok_filter)

lemma receive_loop_split:
  "receive_loop limit peek ms out kept =
     (out @ take (limit - length out) ms,
      kept @ (if peek then ms else drop (limit - length out) ms))"
  by (induction limit peek ms out kept rule: receive_loop.induct)
     (auto simp: take_Cons' drop_Cons' Suc_diff_Suc)

lemma put_mailbox_ok: "mailboxes_ok s \<Longrightarrow> mailbox_ok mb \<Longrightarrow> mailboxes_ok (put_mailbox mid mb s)"
  by (auto simp: mailboxes_ok_def put_mailbox_def alist_simps split: if_splits)

lemma put_transfer_mailboxes [simp]: "mailboxes_ok (put_transfer tid t s) = mailboxes_ok s"
  by (simp add: mailboxes_ok_def)

lemma getMailboxLocked_Some:
  "getMailboxLocked mid now s = Some mb \<longleftrightarrow> mailbox_of s mid = Some mb \<and> now < mb_expiresAt mb"
  by (auto simp: getMailboxLocked_def split: option.splits if_splits)

lemma getMailboxLocked_ok: "mailboxes_ok s \<Longrightarrow> getMailboxLocked mid now s = Some mb \<Longrightarrow> mailbox_ok mb"
  by (auto simp: mailboxes_ok_def getMailboxLocked_Some)

lemma mailboxes_okD: "mailboxes_ok s \<Longrightarrow> mailbox_of s mid = Some mb \<Longrightarrow> mailbox_ok mb"
  by (simp add: mailboxes_ok_def)

lemma mailbox_ok_append:
  "mailbox_ok mb \<Longrightarrow> length (mb_messages mb) < MaxQueuedMessages \<Longrightarrow>
   mb_storedBytes mb + int (length (msg_Envelope m)) \<le> MaxStoredBytesPerMailbox \<Longrightarrow>
   mailbox_ok (mb\<lparr>mb_messages := mb_messages mb @ [m],
                 mb_storedBytes := mb_storedBytes mb + int (length (msg_Envelope m)),
                 mb_expiresAt := x\<rparr>)"
  by (simp add: mailbox_ok_def)

lemma CreateMailbox_ok: "mailboxes_ok s \<Longrightarrow> mailboxes_ok (snd (CreateMailbox now mid h s))"
  by (cases "mailbox_of s mid")
     (auto simp: CreateMailbox_def mailbox_ok_def [of "mailboxData_ext _ _ _ _ _"]
        intro!: put_mailbox_ok dest: mailboxes_okD)

lemma SendMessage_ok: "mailboxes_ok s \<Longrightarrow> mailboxes_ok (snd (SendMessage now newID msg s))"
  by (auto simp: SendMessage_def Let_def not_le not_less simp del: prune_sel
        intro!: put_mailbox_ok mailbox_ok_append [of _ "StoredMessage_ext _ _ _ _ _ _", simplified]
          prune_ok dest: getMailboxLocked_ok split: option.splits)

lemma ReceiveMessages_ok:
  "mailboxes_ok s \<Longrightarrow> mailboxes_ok (snd (ReceiveMessages now mid secret limit peek s))"
  by (auto simp: ReceiveMessages_def Let_def receive_loop_split simp del: prune_sel
        intro!: put_mailbox_ok mailbox_ok_drop prune_ok dest: getMailboxLocked_ok
        split: option.splits)

lemma AckMessages_ok: "mailboxes_ok s \<Longrightarrow> mailboxes_ok (snd (AckMessages now mid secret ids disp s))"
  by (auto simp: AckMessages_def Let_def compact_filter simp del: prune_sel
        intro!: put_mailbox_ok mailbox_ok_filter prune_ok dest: getMailboxLocked_ok
        split: option.splits sum.splits)

end
