(* ===== verification/Message_Queue.thy ===== *)
theory Message_Queue
  imports Mailbox_Store
begin

text \<open>
  What the message operations of the store do to the queue of a mailbox, and the contract of a
  queue that is filled one item at a time and drained in batches. The contract is the locale
  \<open>batch_queue\<close>; the store's \<open>SendMessage\<close> and draining \<open>ReceiveMessages\<close> satisfy it at every
  time before the messages expire, so that what was sent comes out once, whole and in order.
\<close>

section \<open>The queue of a mailbox\<close>

definition queue :: "MemStore \<Rightarrow> bytes \<Rightarrow> StoredMessage list" where
  "queue s mid = (case mailbox_of s mid of None \<Rightarrow> [] | Some mb \<Rightarrow> mb_messages mb)"

definition unexpired :: "int \<Rightarrow> MemStore \<Rightarrow> bytes \<Rightarrow> StoredMessage list" where
  "unexpired now s mid = filter (\<lambda>m. now < msg_ExpiresAt m) (queue s mid)"

definition stored :: "int \<Rightarrow> bytes \<Rightarrow> SendMessage \<Rightarrow> StoredMessage" where
  "stored now newID msg =
     \<lparr>msg_ID = newID, msg_Envelope = sm_Envelope msg, msg_SenderPub = sm_SenderPub msg,
      msg_EnqueuedAt = now, msg_ExpiresAt = i64 (now + MsgTTLSeconds * 1000)\<rparr>"

lemma queue_put [simp]:
  "queue (put_mailbox mid mb s) mid' = (if mid' = mid then mb_messages mb else queue s mid')"
  by (simp add: queue_def)

lemma queue_put_transfer [simp]: "queue (put_transfer tid t s) mid = queue s mid"
  by (simp add: queue_def)

lemma queue_getMailbox: "getMailboxLocked mid now s = Some mb \<Longrightarrow> queue s mid = mb_messages mb"
  by (simp add: getMailboxLocked_Some queue_def)

lemma filter_later:
  "now \<le> later \<Longrightarrow> filter (\<lambda>m. later < msg_ExpiresAt m) (filter (\<lambda>m. now < msg_ExpiresAt m) ms)
     = filter (\<lambda>m. later < msg_ExpiresAt m) ms"
  by (auto intro: filter_cong simp: filter_filter)

text \<open>An accepted message, on every branch: what was checked and what the queue holds afterwards.\<close>

lemma SendMessage_Inr:
  assumes "SendMessage now newID msg s = (Inr (i, n), s')"
  shows "ValidateSendMessage msg = None" and "i = newID"
    and "MailboxExists now (sm_MailboxID msg) s"
    and "queue s' (sm_MailboxID msg) = unexpired now s (sm_MailboxID msg) @ [stored now newID msg]"
    and "n = word_of_nat (length (queue s' (sm_MailboxID msg)))"
    and "length (queue s' (sm_MailboxID msg)) \<le> MaxQueuedMessages"
    and "envelope_bytes (queue s' (sm_MailboxID msg)) \<le> MaxStoredBytesPerMailbox"
    and "\<exists>mb. mailbox_of s' (sm_MailboxID msg) = Some mb \<and> mb_expiresAt mb = mailbox_deadline now
           \<and> (\<exists>mb0. mailbox_of s (sm_MailboxID msg) = Some mb0
                \<and> mb_readSecretHash mb = mb_readSecretHash mb0)"
proof -
  show v: "ValidateSendMessage msg = None"
    using assms by (auto simp: SendMessage_def split: option.splits)
  then have len: "length (sm_MailboxID msg) = 16" by (simp add: ValidateSendMessage_None)
  obtain mb where mb: "getMailboxLocked (sm_MailboxID msg) now s = Some mb"
    using assms v len by (auto simp: SendMessage_def Let_def split: option.splits)
  note facts = assms [unfolded SendMessage_def v] mb queue_getMailbox [OF mb]
    mb [unfolded getMailboxLocked_Some] len
  show "i = newID" "MailboxExists now (sm_MailboxID msg) s"
    "queue s' (sm_MailboxID msg) = unexpired now s (sm_MailboxID msg) @ [stored now newID msg]"
    "n = word_of_nat (length (queue s' (sm_MailboxID msg)))"
    "length (queue s' (sm_MailboxID msg)) \<le> MaxQueuedMessages"
    "\<exists>mb. mailbox_of s' (sm_MailboxID msg) = Some mb \<and> mb_expiresAt mb = mailbox_deadline now
       \<and> (\<exists>mb0. mailbox_of s (sm_MailboxID msg) = Some mb0
            \<and> mb_readSecretHash mb = mb_readSecretHash mb0)"
    using facts
    by (auto simp: Let_def unexpired_def stored_def MailboxExists_def split: if_splits)
  show "envelope_bytes (queue s' (sm_MailboxID msg)) \<le> MaxStoredBytesPerMailbox"
    using facts by (auto simp: Let_def prune_filter split: if_splits)
qed

text \<open>A rejected message leaves at most the removal of expired messages.\<close>

lemma SendMessage_Inl:
  assumes "SendMessage now newID msg s = (Inl e, s')"
  shows "queue s' mid \<in> {queue s mid, unexpired now s mid}"
    and "ms_transfers s' = ms_transfers s" and "ms_replay s' = ms_replay s"
  using assms
  by (auto simp: SendMessage_def Let_def unexpired_def queue_getMailbox split: option.splits if_splits)

lemma SendMessage_other:
  "mid \<noteq> copy_array 16 (sm_MailboxID msg) \<Longrightarrow>
   mailbox_of (snd (SendMessage now newID msg s)) mid = mailbox_of s mid"
  by (auto simp: SendMessage_def Let_def split: option.splits)

definition batch_limit :: "int \<Rightarrow> nat" where
  "batch_limit limit = (if limit \<le> 0 \<or> limit > int MaxBatchMessages then MaxBatchMessages else nat limit)"

lemma ReceiveMessages_Inr:
  assumes "ReceiveMessages now mid secret limit peek s = (Inr (out, consumed), s')"
  shows "out = take (batch_limit limit) (unexpired now s mid)"
    and "consumed \<longleftrightarrow> \<not> peek"
    and "queue s' mid = (if peek then unexpired now s mid else drop (batch_limit limit) (unexpired now s mid))"
  using assms
  by (auto simp: ReceiveMessages_def Let_def receive_loop_split unexpired_def queue_getMailbox
        batch_limit_def split: option.splits if_splits)

text \<open>Who may read: the mailbox must be alive and the secret must hash to the stored value.\<close>

lemma ReceiveMessages_auth:
  "(\<exists>r s'. ReceiveMessages now mid secret limit peek s = (Inr r, s'))
     \<longleftrightarrow> MailboxExists now mid s \<and> CheckReadSecret mid secret s"
  by (auto simp: ReceiveMessages_def Let_def receive_loop_split getMailboxLocked_def MailboxExists_def
        CheckReadSecret_def secretMatches_def split: option.splits)

lemma ReceiveMessages_Inl: "ReceiveMessages now mid secret limit peek s = (Inl e, s') \<Longrightarrow> s' = s"
  by (auto simp: ReceiveMessages_def Let_def receive_loop_split split: option.splits if_splits)

lemma ack_want_set: "ack_want raws want = Inr w \<Longrightarrow> set w = set raws \<union> set want"
  by (induction raws want rule: ack_want.induct) (auto split: if_splits)

lemma AckMessages_Inr:
  assumes "AckMessages now mid secret ids disp s = (Inr (acked, remaining), s')"
  shows "acked = word_of_nat (length (filter (\<lambda>m. msg_ID m \<in> set ids) (unexpired now s mid)))"
    and "remaining = word_of_nat (length (queue s' mid))"
    and "queue s' mid =
           (if disp = AckConsumed then filter (\<lambda>m. msg_ID m \<notin> set ids) (unexpired now s mid)
            else unexpired now s mid)"
    and "MailboxExists now mid s" and "CheckReadSecret mid secret s"
  using assms
  by (auto simp: AckMessages_def Let_def compact_filter unexpired_def queue_getMailbox ack_want_set
        getMailboxLocked_def MailboxExists_def CheckReadSecret_def secretMatches_def
        split: option.splits sum.splits if_splits)

section \<open>Filling and draining\<close>

text \<open>Sending a list of items, and taking batches until the given number of rounds is used up.\<close>

fun enqueue_all :: "('i \<Rightarrow> 's \<Rightarrow> 's option) \<Rightarrow> 'i list \<Rightarrow> 's \<Rightarrow> 's option" where
  "enqueue_all enq [] s = Some s"
| "enqueue_all enq (i # is) s =
     (case enq i s of None \<Rightarrow> None | Some s' \<Rightarrow> enqueue_all enq is s')"

fun drain :: "('s \<Rightarrow> ('m list \<times> 's) option) \<Rightarrow> nat \<Rightarrow> 's \<Rightarrow> ('m list \<times> 's) option" where
  "drain deq 0 s = Some ([], s)"
| "drain deq (Suc k) s =
     (case deq s of
        None \<Rightarrow> None
      | Some (out, s') \<Rightarrow>
          (case drain deq k s' of None \<Rightarrow> None | Some (outs, s'') \<Rightarrow> Some (out @ outs, s'')))"

locale batch_queue =
  fixes content :: "'s \<Rightarrow> 'm list" and ready :: "'s \<Rightarrow> bool" and item :: "'i \<Rightarrow> 'm"
    and enq :: "'i \<Rightarrow> 's \<Rightarrow> 's option" and deq :: "'s \<Rightarrow> ('m list \<times> 's) option" and batch :: nat
  assumes enq_content: "enq i s = Some s' \<Longrightarrow> content s' = content s @ [item i]"
    and deq_ready: "ready s \<Longrightarrow> \<exists>s'. deq s = Some (take batch (content s), s')
                      \<and> content s' = drop batch (content s) \<and> ready s'"
begin

lemma enqueue_all_content: "enqueue_all enq is s = Some s' \<Longrightarrow> content s' = content s @ map item is"
  by (induction "is" arbitrary: s) (auto split: option.splits dest: enq_content)

lemma drain_content:
  "ready s \<Longrightarrow> \<exists>s'. drain deq k s = Some (take (k * batch) (content s), s')
                \<and> content s' = drop (k * batch) (content s) \<and> ready s'"
proof (induction k arbitrary: s)
  case 0
  then show ?case by simp
next
  case (Suc k)
  obtain s1 where s1: "deq s = Some (take batch (content s), s1)" "ready s1"
      "content s1 = drop batch (content s)"
    using deq_ready [OF Suc.prems] by blast
  obtain s2 where "drain deq k s1 = Some (take (k * batch) (content s1), s2)"
      "content s2 = drop (k * batch) (content s1)" "ready s2"
    using Suc.IH [OF s1(2)] by blast
  with s1 show ?case by (auto simp: take_add add.commute)
qed

lemma fill_then_drain:
  assumes "enqueue_all enq is s = Some s'" "content s = []" "ready s'" "length is \<le> k * batch"
  shows "\<exists>s''. drain deq k s' = Some (map item is, s'') \<and> content s'' = []"
  using drain_content [OF assms(3), of k] enqueue_all_content [OF assms(1)] assms(2,4) by auto

end

text \<open>
  The instance: items are sent at their own times, the queue is read at a later time \<open>T\<close> at which
  none of them has expired.
\<close>

definition store_enq ::
  "int \<Rightarrow> bytes \<Rightarrow> int \<times> bytes \<times> SendMessage \<Rightarrow> MemStore \<Rightarrow> MemStore option" where
  "store_enq T mid = (\<lambda>(now, newID, msg) s.
     if now \<le> T \<and> T < i64 (now + MsgTTLSeconds * 1000) \<and> sm_MailboxID msg = mid
     then (case SendMessage now newID msg s of (Inr r, s') \<Rightarrow> Some s' | (Inl e, s') \<Rightarrow> None)
     else None)"

definition store_deq ::
  "int \<Rightarrow> bytes \<Rightarrow> bytes \<Rightarrow> MemStore \<Rightarrow> (StoredMessage list \<times> MemStore) option" where
  "store_deq T mid secret s =
     (case ReceiveMessages T mid secret (int MaxBatchMessages) False s of
        (Inr (out, consumed), s') \<Rightarrow> Some (out, s') | (Inl e, s') \<Rightarrow> None)"

definition readable :: "int \<Rightarrow> bytes \<Rightarrow> bytes \<Rightarrow> MemStore \<Rightarrow> bool" where
  "readable T mid secret s \<longleftrightarrow> MailboxExists T mid s \<and> CheckReadSecret mid secret s"

lemma store_enq_content:
  assumes "store_enq T mid i s = Some s'"
  shows "unexpired T s' mid = unexpired T s mid @ [case i of (now, newID, msg) \<Rightarrow> stored now newID msg]"
proof -
  obtain now newID msg where i: "i = (now, newID, msg)" by (cases i) auto
  with assms have t: "now \<le> T" "T < i64 (now + MsgTTLSeconds * 1000)" "sm_MailboxID msg = mid"
    by (auto simp: store_enq_def split: if_splits)
  with assms i obtain r where "SendMessage now newID msg s = (Inr r, s')"
    by (auto simp: store_enq_def split: prod.splits sum.splits)
  then have "queue s' mid = unexpired now s mid @ [stored now newID msg]"
    using SendMessage_Inr(4) [of now newID msg s "fst r" "snd r" s'] t(3) by simp
  then show ?thesis
    using t filter_later [OF t(1)] by (simp add: unexpired_def i stored_def)
qed

lemma store_deq_content:
  assumes "readable T mid secret s" and "0 \<le> T" "T < 2 ^ 62"
  shows "\<exists>s'. store_deq T mid secret s = Some (take MaxBatchMessages (unexpired T s mid), s')
           \<and> unexpired T s' mid = drop MaxBatchMessages (unexpired T s mid)
           \<and> readable T mid secret s'"
proof -
  obtain out consumed s' where r:
      "ReceiveMessages T mid secret (int MaxBatchMessages) False s = (Inr (out, consumed), s')"
    using assms(1) ReceiveMessages_auth [of T mid secret "int MaxBatchMessages" False s]
    by (auto simp: readable_def)
  note res = ReceiveMessages_Inr [OF r]
  have "unexpired T s' mid = drop MaxBatchMessages (unexpired T s mid)"
  proof -
    have "set (drop n (unexpired T s mid)) \<subseteq> set (unexpired T s mid)" for n by (rule set_drop_subset)
    then show ?thesis
      unfolding unexpired_def [of T s'] using res(3)
      by (auto simp: batch_limit_def unexpired_def intro!: filter_True)
  qed
  moreover have "readable T mid secret s'"
  proof -
    have "mailbox_deadline T = T + MailboxTTLSeconds * 1000" using assms by (simp add: i64_id)
    then show ?thesis
      using r assms(1)
      by (auto simp: ReceiveMessages_def Let_def receive_loop_split readable_def MailboxExists_def
            CheckReadSecret_def getMailboxLocked_Some split: option.splits if_splits)
  qed
  ultimately show ?thesis
    using r res(1) by (simp add: store_deq_def batch_limit_def)
qed

interpretation mailbox_queue: batch_queue
  "\<lambda>s. unexpired T s mid" "\<lambda>s. readable T mid secret s \<and> 0 \<le> T \<and> T < 2 ^ 62"
  "\<lambda>(now, newID, msg). stored now newID msg" "store_enq T mid" "store_deq T mid secret"
  MaxBatchMessages
  for T mid secret
proof
  show "unexpired T s' mid = unexpired T s mid @ [case i of (now, newID, msg) \<Rightarrow> stored now newID msg]"
    if "store_enq T mid i s = Some s'" for i s s'
    using that by (rule store_enq_content)
next
  show "\<exists>s'. store_deq T mid secret s = Some (take MaxBatchMessages (unexpired T s mid), s')
         \<and> unexpired T s' mid = drop MaxBatchMessages (unexpired T s mid)
         \<and> readable T mid secret s' \<and> 0 \<le> T \<and> T < 2 ^ 62"
    if "readable T mid secret s \<and> 0 \<le> T \<and> T < 2 ^ 62" for s
    using store_deq_content [of T mid secret s] that by blast
qed

end
