(* ===== verification/Transfer_Store.thy ===== *)
theory Transfer_Store
  imports Mailbox_Store
begin

text \<open>
  The transfer operations of the store, from \<open>server/storage/memstore.go\<close>: creation, chunk
  upload, the two download paths, sealing and cancelling, with the views \<open>GetTransfer\<close> returns.
  The resume views are in \<open>Resume_View\<close>.

  The lemmas show that every operation keeps a transfer consistent (\<open>transfer_ok\<close>): the presence
  flags, the counters, the contiguous prefix, the stored bytes and the hashes all describe the
  chunk map, every chunk has the length its position demands, and a sealed transfer is whole.
\<close>

section \<open>Quota accounting\<close>

definition active_in :: "bytes \<Rightarrow> int \<Rightarrow> transferData \<Rightarrow> bool" where
  "active_in mid now t \<longleftrightarrow>
     td_hasMailbox t \<and> td_mailboxID t = mid
     \<and> (td_state t = TransferCreated \<or> td_state t = TransferUploading) \<and> now < td_expiresAt t"

definition activeTransfersLocked :: "bytes \<Rightarrow> int \<Rightarrow> MemStore \<Rightarrow> nat" where
  "activeTransfersLocked mid now s = length (filter (\<lambda>(tid, t). active_in mid now t) (ms_transfers s))"

definition counted_bytes :: "bytes \<Rightarrow> transferData \<Rightarrow> int" where
  "counted_bytes mid t =
     (if td_hasMailbox t \<and> td_mailboxID t = mid then td_storedBytes t + int (length (td_manifest t))
      else 0)"

definition transfer_bytes :: "bytes \<Rightarrow> (bytes \<times> transferData) list \<Rightarrow> int" where
  "transfer_bytes mid ts = sum_list (map (\<lambda>(tid, t). counted_bytes mid t) ts)"

definition mailboxStoredBytesLocked :: "bytes \<Rightarrow> MemStore \<Rightarrow> int" where
  "mailboxStoredBytesLocked mid s =
     (case mailbox_of s mid of Some mb \<Rightarrow> mb_storedBytes mb | None \<Rightarrow> 0)
     + transfer_bytes mid (ms_transfers s)"

text \<open>\<open>if mb, ok := s.mailboxes[mid]; ok { mb.expiresAt = ... }\<close>\<close>

definition slide_mailbox :: "bytes \<Rightarrow> int \<Rightarrow> MemStore \<Rightarrow> MemStore" where
  "slide_mailbox mid now s =
     (case mailbox_of s mid of
        Some mb \<Rightarrow> put_mailbox mid (mb\<lparr>mb_expiresAt := mailbox_deadline now\<rparr>) s
      | None \<Rightarrow> s)"

section \<open>Creation\<close>

text \<open>
  The random id and the download ticket are arguments; the ticket is \<open>None\<close> when the random
  source fails.
\<close>

definition CreateTransfer ::
  "int \<Rightarrow> bytes \<Rightarrow> bytes option \<Rightarrow> TransferCreate \<Rightarrow> MemStore
   \<Rightarrow> (go_error + bytes \<times> bytes \<times> u64) \<times> MemStore" where
  "CreateTransfer now newID ticket t s =
     (case ValidateTransferCreateMsg t of
        Some e \<Rightarrow> (Inl e, s)
      | None \<Rightarrow>
          let hasMailbox = (length (tc_MailboxID t) = 16);
              mid = (if hasMailbox then copy_array 16 (tc_MailboxID t) else replicate 16 0) in
          if hasMailbox \<and> getMailboxLocked mid now s = None then
            (Inl (perr ErrMailboxNotFound ''mailbox not found''), s)
          else if hasMailbox \<and> activeTransfersLocked mid now s \<ge> MaxActiveTransfersPerMailbox then
            (Inl (perr ErrQuotaExceeded ''too many active transfers''), s)
          else if hasMailbox \<and> mailboxStoredBytesLocked mid s + int64_of_u64 (tc_TotalSize t)
                                 > MaxStoredBytesPerMailbox then
            (Inl (perr ErrQuotaExceeded ''mailbox byte quota''), s)
          else (case ticket of
            None \<Rightarrow> (Inl (perr ErrStorageUnavailable ''rand failed''), s)
          | Some tk \<Rightarrow>
              let exp = u64_of_int64 (i64 (now + UploadTTLSeconds * 1000));
                  td = \<lparr>td_mailboxID = mid, td_hasMailbox = hasMailbox,
                        td_downloadSecretHash = sha256 tk, td_totalSize = tc_TotalSize t,
                        td_chunkSize = tc_ChunkSize t, td_chunkCount = tc_ChunkCount t,
                        td_manifest = tc_Manifest t, td_senderPub = tc_SenderPub t,
                        td_state = TransferCreated,
                        td_present = replicate (unat (tc_ChunkCount t)) False,
                        td_chunks = [], td_hashes = [], td_presentCount = 0, td_highest = 0,
                        td_createdAt = now, td_expiresAt = int64_of_u64 exp, td_storedBytes = 0\<rparr>;
                  s = put_transfer newID td s;
                  s = (if hasMailbox then slide_mailbox mid now s else s)
              in (Inr (newID, tk, exp), s)))"

section \<open>Lookup with lazy expiry\<close>

definition getTransferLocked :: "bytes \<Rightarrow> int \<Rightarrow> MemStore \<Rightarrow> transferData option \<times> MemStore" where
  "getTransferLocked tid now s =
     (case transfer_of s tid of
        None \<Rightarrow> (None, s)
      | Some t \<Rightarrow>
          if now \<ge> td_expiresAt t \<and> td_state t \<noteq> TransferComplete then
            (None, put_transfer tid (t\<lparr>td_state := TransferExpired\<rparr>) s)
          else (Some t, s))"

text \<open>The error every operation returns when \<open>getTransferLocked\<close> fails.\<close>

definition missing_transfer :: "bytes \<Rightarrow> MemStore \<Rightarrow> go_error" where
  "missing_transfer tid s =
     (case transfer_of s tid of
        Some t \<Rightarrow> perr ErrTransferExpired ''transfer expired''
      | None \<Rightarrow> perr ErrTransferNotFound ''transfer not found'')"

section \<open>Upload\<close>

lemma unat_Suc_less: "h < c \<Longrightarrow> unat (h + 1) = Suc (unat h)" for h c :: u32
proof -
  assume "h < c"
  moreover have "unat c < 2 ^ LENGTH(32)" by (rule unsigned_less)
  ultimately show ?thesis by (simp add: word_less_nat_alt unat_word_ariths)
qed

text \<open>The loop \<open>for h < t.chunkCount && t.present[h] { h++ }\<close> on a 32-bit counter.\<close>

function highest_loop :: "bool list \<Rightarrow> u32 \<Rightarrow> u32 \<Rightarrow> u32" where
  "highest_loop present chunkCount h =
     (if h < chunkCount \<and> present ! unat h then highest_loop present chunkCount (h + 1) else h)"
  by pat_completeness auto

termination
  by (relation "measure (\<lambda>(present, c, h). unat c - unat h)")
     (auto simp: unat_Suc_less word_less_nat_alt)

declare highest_loop.simps [simp del]

definition hashBytes :: "bytes \<Rightarrow> bytes" where "hashBytes b = sha256 b"

text \<open>The checks of \<open>PutChunk\<close> on an open transfer, up to the comparison with a stored chunk.\<close>

definition put_check :: "ChunkUpload \<Rightarrow> transferData \<Rightarrow> go_error option" where
  "put_check c t =
     (if td_state t = TransferComplete \<or> td_state t = TransferCancelled then
        Some (perr ErrTransferConflict ''transfer closed'')
      else if cu_Index c \<ge> td_chunkCount t then
        Some (perr ErrChunkOutOfRange ''index out of range'')
      else if cu_Offset c \<noteq> ucast (cu_Index c) * ucast (td_chunkSize t) then
        Some (perr ErrChunkInvalid ''offset mismatch'')
      else
        let isLast = (cu_Index c = td_chunkCount t - 1) in
        if \<not> isLast \<and> word_of_nat (length (cu_Payload c)) \<noteq> (ucast (td_chunkSize t) :: u64) then
          Some (perr ErrChunkInvalid ''non-final chunk must equal chunk_size'')
        else if isLast \<and> word_of_nat (length (cu_Payload c))
                \<noteq> td_totalSize t - ucast (cu_Index c) * ucast (td_chunkSize t) then
          Some (perr ErrChunkInvalid ''final chunk size mismatch'')
        else if length (cu_ChunkHash c) = 32 \<and> sha256 (cu_Payload c) \<noteq> cu_ChunkHash c then
          Some (perr ErrHashMismatch ''chunk hash mismatch'')
        else None)"

text \<open>Storing a new chunk in the transfer.\<close>

definition put_new :: "int \<Rightarrow> ChunkUpload \<Rightarrow> transferData \<Rightarrow> transferData" where
  "put_new now c t =
     (let i = cu_Index c;
          t = t\<lparr>td_chunks := AList.update i (cu_Payload c) (td_chunks t),
                td_hashes := AList.update i
                  (if length (cu_ChunkHash c) = 32 then cu_ChunkHash c else sha256 (cu_Payload c))
                  (td_hashes t)\<rparr>;
          t = (if \<not> td_present t ! unat i then
                 t\<lparr>td_present := (td_present t)[unat i := True],
                   td_presentCount := td_presentCount t + 1,
                   td_storedBytes := td_storedBytes t + int (length (cu_Payload c))\<rparr>
               else t);
          t = (if td_state t = TransferCreated then t\<lparr>td_state := TransferUploading\<rparr> else t);
          t = t\<lparr>td_expiresAt := i64 (now + UploadTTLSeconds * 1000)\<rparr>;
          max = i64 (td_createdAt t + UploadTTLMaxSeconds * 1000);
          t = (if td_expiresAt t > max then t\<lparr>td_expiresAt := max\<rparr> else t)
      in t\<lparr>td_highest := highest_loop (td_present t) (td_chunkCount t) 0\<rparr>)"

definition PutChunk :: "int \<Rightarrow> ChunkUpload \<Rightarrow> MemStore \<Rightarrow> (go_error + u32) \<times> MemStore" where
  "PutChunk now c s =
     (case ValidateChunkUpload c of
        Some e \<Rightarrow> (Inl e, s)
      | None \<Rightarrow>
          let tid = copy_array 16 (cu_TransferID c) in
          (case getTransferLocked tid now s of
             (None, s) \<Rightarrow> (Inl (missing_transfer tid s), s)
           | (Some t, s) \<Rightarrow>
               (case put_check c t of
                  Some e \<Rightarrow> (Inl e, s)
                | None \<Rightarrow>
                    (case map_of (td_chunks t) (cu_Index c) of
                       Some old \<Rightarrow>
                         if length old = length (cu_Payload c) \<and> hashBytes old = hashBytes (cu_Payload c)
                         then (Inr (td_presentCount t), s)
                         else (Inl (perr ErrChunkConflict ''chunk exists with different bytes''), s)
                     | None \<Rightarrow>
                         if td_hasMailbox t
                            \<and> mailboxStoredBytesLocked (td_mailboxID t) s + int (length (cu_Payload c))
                                > MaxStoredBytesPerMailbox then
                           (Inl (perr ErrQuotaExceeded ''mailbox byte quota''), s)
                         else
                           let t' = put_new now c t;
                               s = put_transfer tid t' s;
                               s = (if td_hasMailbox t' then slide_mailbox (td_mailboxID t') now s else s)
                           in (Inr (td_presentCount t'), s)))))"

section \<open>Download\<close>

text \<open>The last part of both download paths: range check, lookup, copies of chunk and hash.\<close>

definition read_chunk :: "u32 \<Rightarrow> transferData \<Rightarrow> go_error + bytes \<times> bytes" where
  "read_chunk index t =
     (if index \<ge> td_chunkCount t then Inl (perr ErrChunkOutOfRange ''index out of range'')
      else (case map_of (td_chunks t) index of
        None \<Rightarrow> Inl (perr ErrChunkInvalid ''chunk missing'')
      | Some p \<Rightarrow> Inr (p, case map_of (td_hashes t) index of Some h \<Rightarrow> h | None \<Rightarrow> [])))"

text \<open>
  The mailbox check of \<open>GetChunk\<close>, \<open>Resume\<close> and \<open>CancelTransfer\<close>; success extends the life of the
  mailbox.
\<close>

definition owner_check ::
  "transferData \<Rightarrow> bytes \<Rightarrow> bytes \<Rightarrow> int \<Rightarrow> MemStore \<Rightarrow> go_error option \<times> MemStore" where
  "owner_check t mailboxID readSecret now s =
     (if \<not> td_hasMailbox t then (None, s)
      else if td_mailboxID t \<noteq> mailboxID then (Some (perr ErrAuthFailed ''mailbox mismatch''), s)
      else (case getMailboxLocked mailboxID now s of
        None \<Rightarrow> (Some (perr ErrMailboxNotFound ''mailbox not found''), s)
      | Some mb \<Rightarrow>
          if \<not> secretMatches (mb_readSecretHash mb) readSecret then
            (Some (perr ErrAuthFailed ''bad read secret''), s)
          else (None, put_mailbox mailboxID (mb\<lparr>mb_expiresAt := mailbox_deadline now\<rparr>) s)))"

definition GetChunk ::
  "int \<Rightarrow> bytes \<Rightarrow> bytes \<Rightarrow> bytes \<Rightarrow> u32 \<Rightarrow> MemStore \<Rightarrow> (go_error + bytes \<times> bytes) \<times> MemStore" where
  "GetChunk now transferID mailboxID readSecret index s =
     (case getTransferLocked transferID now s of
        (None, s) \<Rightarrow> (Inl (missing_transfer transferID s), s)
      | (Some t, s) \<Rightarrow>
          (case owner_check t mailboxID readSecret now s of
             (Some e, s) \<Rightarrow> (Inl e, s)
           | (None, s) \<Rightarrow> (read_chunk index t, s)))"

definition checkTicketLocked :: "transferData \<Rightarrow> bytes \<Rightarrow> go_error option" where
  "checkTicketLocked t ticket =
     (if length ticket \<noteq> 32 then Some (perr ErrAuthFailed ''ticket must be 32 bytes'')
      else if sha256 ticket \<noteq> td_downloadSecretHash t then Some (perr ErrAuthFailed ''bad ticket'')
      else None)"

definition GetChunkByTicket ::
  "int \<Rightarrow> bytes \<Rightarrow> bytes \<Rightarrow> u32 \<Rightarrow> MemStore \<Rightarrow> (go_error + bytes \<times> bytes) \<times> MemStore" where
  "GetChunkByTicket now transferID ticket index s =
     (case getTransferLocked transferID now s of
        (None, s) \<Rightarrow> (Inl (missing_transfer transferID s), s)
      | (Some t, s) \<Rightarrow>
          (case checkTicketLocked t ticket of
             Some e \<Rightarrow> (Inl e, s)
           | None \<Rightarrow> (read_chunk index t, s)))"

section \<open>Sealing, cancelling, snapshot\<close>

record complete_result =
  cr_sealed :: bool
  cr_present :: u32
  cr_count :: u32
  cr_err :: "go_error option"

definition CompleteTransfer :: "int \<Rightarrow> TransferComplete \<Rightarrow> MemStore \<Rightarrow> complete_result \<times> MemStore" where
  "CompleteTransfer now t s =
     (let fail = (\<lambda>e. \<lparr>cr_sealed = False, cr_present = 0, cr_count = 0, cr_err = Some e\<rparr>) in
      case ValidateTransferComplete t of
        Some e \<Rightarrow> (fail e, s)
      | None \<Rightarrow>
          let tid = copy_array 16 (tf_TransferID t) in
          (case getTransferLocked tid now s of
             (None, s) \<Rightarrow> (fail (missing_transfer tid s), s)
           | (Some tr, s) \<Rightarrow>
               if td_state tr = TransferComplete then
                 (\<lparr>cr_sealed = True, cr_present = td_presentCount tr, cr_count = td_chunkCount tr,
                   cr_err = None\<rparr>, s)
               else if td_state tr = TransferCancelled then
                 (fail (perr ErrTransferConflict ''transfer cancelled''), s)
               else if td_presentCount tr \<noteq> td_chunkCount tr then
                 (\<lparr>cr_sealed = False, cr_present = td_presentCount tr, cr_count = td_chunkCount tr,
                   cr_err = Some (perr ErrTransferConflict ''chunks missing'')\<rparr>, s)
               else
                 (\<lparr>cr_sealed = True, cr_present = td_presentCount tr, cr_count = td_chunkCount tr,
                   cr_err = None\<rparr>,
                  put_transfer tid (tr\<lparr>td_state := TransferComplete,
                                       td_expiresAt := i64 (now + CompleteTTLSeconds * 1000)\<rparr>) s)))"

definition delete_transfer :: "bytes \<Rightarrow> MemStore \<Rightarrow> MemStore" where
  "delete_transfer tid s = s\<lparr>ms_transfers := AList.delete tid (ms_transfers s)\<rparr>"

lemma delete_transfer_sel [simp]:
  "transfer_of (delete_transfer tid s) = (transfer_of s)(tid := None)"
  "ms_mailboxes (delete_transfer tid s) = ms_mailboxes s"
  "ms_replay (delete_transfer tid s) = ms_replay s"
  by (simp_all add: delete_transfer_def delete_conv')

definition CancelTransfer ::
  "int \<Rightarrow> bytes \<Rightarrow> bytes \<Rightarrow> bytes \<Rightarrow> MemStore \<Rightarrow> go_error option \<times> MemStore" where
  "CancelTransfer now transferID mailboxID readSecret s =
     (case transfer_of s transferID of
        None \<Rightarrow> (Some (perr ErrTransferNotFound ''transfer not found''), s)
      | Some tr \<Rightarrow>
          (case owner_check tr mailboxID readSecret now s of
             (Some e, s) \<Rightarrow> (Some e, s)
           | (None, s) \<Rightarrow> (None, delete_transfer transferID s)))"

record TransferView =
  tv_ID :: bytes
  tv_MailboxID :: bytes
  tv_HasMailbox :: bool
  tv_TotalSize :: u64
  tv_ChunkSize :: u32
  tv_ChunkCount :: u32
  tv_Manifest :: bytes
  tv_SenderPub :: bytes
  tv_State :: TransferState
  tv_PresentCount :: u32
  tv_HighestContiguous :: u32
  tv_CreatedAt :: int
  tv_ExpiresAt :: int

definition transfer_view :: "bytes \<Rightarrow> transferData \<Rightarrow> TransferView" where
  "transfer_view tid t =
     \<lparr>tv_ID = tid, tv_MailboxID = td_mailboxID t, tv_HasMailbox = td_hasMailbox t,
      tv_TotalSize = td_totalSize t, tv_ChunkSize = td_chunkSize t, tv_ChunkCount = td_chunkCount t,
      tv_Manifest = td_manifest t, tv_SenderPub = td_senderPub t, tv_State = td_state t,
      tv_PresentCount = td_presentCount t, tv_HighestContiguous = td_highest t,
      tv_CreatedAt = td_createdAt t, tv_ExpiresAt = td_expiresAt t\<rparr>"

definition GetTransfer :: "int \<Rightarrow> bytes \<Rightarrow> MemStore \<Rightarrow> (go_error + TransferView) \<times> MemStore" where
  "GetTransfer now transferID s =
     (case getTransferLocked transferID now s of
        (None, s) \<Rightarrow> (Inl (missing_transfer transferID s), s)
      | (Some t, s) \<Rightarrow> (Inr (transfer_view transferID t), s))"

section \<open>The contiguous prefix\<close>

lemma highest_loop_prefix:
  assumes "length present = unat c" "h \<le> c" "\<forall>i < unat h. present ! i"
  shows "unat (highest_loop present c h) = length (takeWhile (\<lambda>b. b) present)"
  using assms
proof (induction present c h rule: highest_loop.induct)
  case (1 present c h)
  show ?case
  proof (cases "h < c \<and> present ! unat h")
    case True
    have next_pos: "unat (h + 1) = Suc (unat h)" using True unat_Suc_less by blast
    have "h + 1 \<le> c" using True next_pos by (simp add: word_less_nat_alt word_le_nat_alt)
    moreover have "\<forall>i < unat (h + 1). present ! i" using True "1.prems" next_pos less_Suc_eq by auto
    ultimately show ?thesis
      using "1.IH" True "1.prems" by (subst highest_loop.simps) simp
  next
    case False
    have "takeWhile (\<lambda>b. b) present = take (unat h) present"
      using False "1.prems"
      by (intro takeWhile_eq_take_P_nth) (auto simp: word_le_nat_alt word_less_nat_alt)
    then show ?thesis
      using False "1.prems" by (subst highest_loop.simps) (auto simp: word_le_nat_alt)
  qed
qed

section \<open>Consistency of a transfer\<close>

definition chunk_len :: "transferData \<Rightarrow> nat \<Rightarrow> nat" where
  "chunk_len t i =
     (if i = unat (td_chunkCount t) - 1 then unat (td_totalSize t) - i * unat (td_chunkSize t)
      else unat (td_chunkSize t))"

definition chunk_map_ok :: "transferData \<Rightarrow> bool" where
  "chunk_map_ok t \<longleftrightarrow>
     distinct (map fst (td_chunks t))
     \<and> (\<forall>i. map_of (td_chunks t) i \<noteq> None \<longleftrightarrow> i < td_chunkCount t \<and> td_present t ! unat i)
     \<and> (\<forall>i p. map_of (td_chunks t) i = Some p \<longrightarrow>
          length p = chunk_len t (unat i) \<and> map_of (td_hashes t) i = Some (sha256 p))
     \<and> td_storedBytes t = sum_list (map (\<lambda>(i, p). int (length p)) (td_chunks t))"

definition transfer_ok :: "transferData \<Rightarrow> bool" where
  "transfer_ok t \<longleftrightarrow>
     ValidateTransferCreate (td_totalSize t) (td_chunkSize t) (td_chunkCount t) = None
     \<and> length (td_manifest t) \<le> MaxManifestBytes
     \<and> length (td_present t) = unat (td_chunkCount t)
     \<and> chunk_map_ok t
     \<and> unat (td_presentCount t) = length (filter (\<lambda>b. b) (td_present t))
     \<and> unat (td_highest t) = length (takeWhile (\<lambda>b. b) (td_present t))
     \<and> (td_state t = TransferComplete \<longrightarrow> td_presentCount t = td_chunkCount t)"

lemma filter_update_True:
  "i < length xs \<Longrightarrow> \<not> xs ! i \<Longrightarrow> length (filter (\<lambda>b. b) (xs[i := True])) = Suc (length (filter (\<lambda>b. b) xs))"
  by (induction xs arbitrary: i) (auto split: nat.splits)

lemma transfer_ok_state:
  "transfer_ok t \<Longrightarrow> st \<noteq> TransferComplete \<or> td_presentCount t = td_chunkCount t \<Longrightarrow>
   transfer_ok (t\<lparr>td_state := st\<rparr>)"
  by (auto simp: transfer_ok_def chunk_map_ok_def chunk_len_def)

lemma transfer_ok_expires [simp]: "transfer_ok (t\<lparr>td_expiresAt := x\<rparr>) = transfer_ok t"
  by (simp add: transfer_ok_def chunk_map_ok_def chunk_len_def)

lemma transfer_ok_bounds:
  assumes "transfer_ok t"
  shows "0 < unat (td_chunkSize t)" "unat (td_chunkSize t) \<le> 65536"
    "0 < unat (td_chunkCount t)" "unat (td_chunkCount t) \<le> 16384"
    "0 < unat (td_totalSize t)" "unat (td_totalSize t) \<le> 1073741824"
  using assms by (simp_all add: transfer_ok_def ValidateTransferCreate_None)

lemma offset_nat:
  fixes i S :: u32
  assumes "unat i < 16384" "unat S \<le> 65536"
  shows "unat (ucast i * ucast S :: u64) = unat i * unat S"
proof -
  have "unat i * unat S \<le> 16384 * 65536" using assms by (intro mult_mono) simp_all
  then show ?thesis
    using assms by (simp add: unat_word_ariths unsigned_ucast_eq take_bit_nat_eq_self)
qed

text \<open>What \<open>PutChunk\<close> has checked, in natural numbers: the arithmetic of the checks does not wrap.\<close>

lemma put_check_None:
  assumes "transfer_ok t" "ValidateChunkUpload c = None" "put_check c t = None"
  shows "cu_Index c < td_chunkCount t"
    and "length (cu_Payload c) = chunk_len t (unat (cu_Index c))"
    and "unat (cu_Offset c) = unat (cu_Index c) * unat (td_chunkSize t)"
    and "length (cu_ChunkHash c) = 32 \<Longrightarrow> cu_ChunkHash c = sha256 (cu_Payload c)"
    and "td_state t \<notin> {TransferComplete, TransferCancelled}"
proof -
  note ck = assms(3) [unfolded put_check_def Let_def, simplified]
  show less: "cu_Index c < td_chunkCount t"
    and "length (cu_ChunkHash c) = 32 \<Longrightarrow> cu_ChunkHash c = sha256 (cu_Payload c)"
    and "td_state t \<notin> {TransferComplete, TransferCancelled}"
    using ck by (auto simp: not_le split: if_splits)
  have idx: "unat (cu_Index c) < 16384" and len: "length (cu_Payload c) \<le> 65536"
    using assms(2) by (simp_all add: ValidateChunkUpload_None)
  note b = transfer_ok_bounds [OF assms(1)]
  have off: "unat (ucast (cu_Index c) * ucast (td_chunkSize t) :: u64)
      = unat (cu_Index c) * unat (td_chunkSize t)"
    by (rule offset_nat [OF idx b(2)])
  show "unat (cu_Offset c) = unat (cu_Index c) * unat (td_chunkSize t)"
    using ck off by (auto split: if_splits)
  have plen: "unat (word_of_nat (length (cu_Payload c)) :: u64) = length (cu_Payload c)"
    using len by (simp add: unat_of_nat)
  show "length (cu_Payload c) = chunk_len t (unat (cu_Index c))"
  proof (cases "cu_Index c = td_chunkCount t - 1")
    case True
    have i: "unat (cu_Index c) = unat (td_chunkCount t) - 1"
      using True b(3) by (simp add: unat_minus_one unat_gt_0)
    have "unat (cu_Index c) * unat (td_chunkSize t) < unat (td_totalSize t)"
      using accepted_chunk_count(1) [of "td_totalSize t" "td_chunkSize t" "td_chunkCount t"] assms(1)
      by (simp add: transfer_ok_def i)
    then have "unat (td_totalSize t - ucast (cu_Index c) * ucast (td_chunkSize t))
        = unat (td_totalSize t) - unat (cu_Index c) * unat (td_chunkSize t)"
      using off by (subst unat_sub) (simp_all add: word_le_nat_alt)
    moreover have "word_of_nat (length (cu_Payload c))
        = td_totalSize t - ucast (cu_Index c) * ucast (td_chunkSize t)"
      using ck True by (auto split: if_splits)
    ultimately show ?thesis using plen i by (simp add: chunk_len_def)
  next
    case False
    then have "unat (cu_Index c) \<noteq> unat (td_chunkCount t) - 1"
      using b(3) by (metis unat_minus_one unat_gt_0 word_unat_eq_iff neq0_conv unat_0)
    moreover have "(word_of_nat (length (cu_Payload c)) :: u64) = ucast (td_chunkSize t)"
      using ck False by (auto split: if_splits)
    then have "length (cu_Payload c) = unat (td_chunkSize t)"
      using plen b(2) by (simp add: unsigned_ucast_eq take_bit_nat_eq_self)
    ultimately show ?thesis by (simp add: chunk_len_def)
  qed
qed

lemma put_new_same [simp]:
  "td_mailboxID (put_new now c t) = td_mailboxID t"
  "td_hasMailbox (put_new now c t) = td_hasMailbox t"
  "td_downloadSecretHash (put_new now c t) = td_downloadSecretHash t"
  "td_totalSize (put_new now c t) = td_totalSize t"
  "td_chunkSize (put_new now c t) = td_chunkSize t"
  "td_chunkCount (put_new now c t) = td_chunkCount t"
  "td_manifest (put_new now c t) = td_manifest t"
  "td_senderPub (put_new now c t) = td_senderPub t"
  "td_createdAt (put_new now c t) = td_createdAt t"
  by (simp_all add: put_new_def Let_def)

lemma put_new_chunks [simp]:
  "td_chunks (put_new now c t) = AList.update (cu_Index c) (cu_Payload c) (td_chunks t)"
  "td_hashes (put_new now c t) =
     AList.update (cu_Index c)
       (if length (cu_ChunkHash c) = 32 then cu_ChunkHash c else sha256 (cu_Payload c)) (td_hashes t)"
  "td_state (put_new now c t) =
     (if td_state t = TransferCreated then TransferUploading else td_state t)"
  "td_highest (put_new now c t) = highest_loop (td_present (put_new now c t)) (td_chunkCount t) 0"
  "td_expiresAt (put_new now c t) =
     min (i64 (now + UploadTTLSeconds * 1000)) (i64 (td_createdAt t + UploadTTLMaxSeconds * 1000))"
  by (simp_all add: put_new_def Let_def)

lemma put_new_fresh:
  assumes "\<not> td_present t ! unat (cu_Index c)"
  shows "td_present (put_new now c t) = (td_present t)[unat (cu_Index c) := True]"
    and "td_presentCount (put_new now c t) = td_presentCount t + 1"
    and "td_storedBytes (put_new now c t) = td_storedBytes t + int (length (cu_Payload c))"
  using assms by (simp_all add: put_new_def Let_def)

lemma chunk_len_put_new [simp]: "chunk_len (put_new now c t) = chunk_len t"
  by (simp add: chunk_len_def fun_eq_iff)

lemma chunk_present:
  "chunk_map_ok t \<Longrightarrow> i < td_chunkCount t \<Longrightarrow> map_of (td_chunks t) i = None \<longleftrightarrow> \<not> td_present t ! unat i"
  unfolding chunk_map_ok_def by blast

lemma chunk_map_ok_put_new:
  assumes "chunk_map_ok t" "length (td_present t) = unat (td_chunkCount t)"
    and idx: "cu_Index c < td_chunkCount t"
    and len: "length (cu_Payload c) = chunk_len t (unat (cu_Index c))"
    and hash: "length (cu_ChunkHash c) = 32 \<Longrightarrow> cu_ChunkHash c = sha256 (cu_Payload c)"
    and new: "map_of (td_chunks t) (cu_Index c) = None"
  shows "chunk_map_ok (put_new now c t)"
proof -
  have fresh: "\<not> td_present t ! unat (cu_Index c)"
    using assms(1) idx new by (simp add: chunk_present)
  have "map_of (td_chunks (put_new now c t)) i \<noteq> None \<longleftrightarrow>
        i < td_chunkCount (put_new now c t) \<and> td_present (put_new now c t) ! unat i" for i
  proof (cases "i = cu_Index c")
    case True
    then show ?thesis
      using idx assms(2) by (simp add: put_new_fresh [OF fresh] update_conv' word_less_nat_alt)
  next
    case False
    then have "unat (cu_Index c) \<noteq> unat i" by (metis word_unat_eq_iff)
    then show ?thesis
      using assms(1) False by (simp add: put_new_fresh [OF fresh] update_conv' chunk_map_ok_def)
  qed
  moreover have "distinct (map fst (td_chunks (put_new now c t)))"
    using assms(1) by (simp add: chunk_map_ok_def distinct_update)
  moreover have "td_storedBytes (put_new now c t)
      = sum_list (map (\<lambda>(i, p). int (length p)) (td_chunks (put_new now c t)))"
    using assms(1) new by (simp add: put_new_fresh [OF fresh] chunk_map_ok_def sum_update_new)
  moreover have "length p = chunk_len t (unat i)
      \<and> map_of (td_hashes (put_new now c t)) i = Some (sha256 p)"
    if "map_of (td_chunks (put_new now c t)) i = Some p" for i p
    using that assms(1) len hash by (auto simp: update_conv' chunk_map_ok_def split: if_splits)
  ultimately show ?thesis
    unfolding chunk_map_ok_def chunk_len_put_new by blast
qed

lemma put_new_ok:
  assumes ok: "transfer_ok t" and v: "ValidateChunkUpload c = None" "put_check c t = None"
    and new: "map_of (td_chunks t) (cu_Index c) = None"
  shows "transfer_ok (put_new now c t)"
proof -
  note ck = put_check_None [OF ok v]
  have plen: "length (td_present t) = unat (td_chunkCount t)" and cm: "chunk_map_ok t"
    and cnt: "unat (td_presentCount t) = length (filter (\<lambda>b. b) (td_present t))"
    using ok by (simp_all add: transfer_ok_def)
  have fresh: "\<not> td_present t ! unat (cu_Index c)"
    using cm ck(1) new by (simp add: chunk_present)
  have idx: "unat (cu_Index c) < length (td_present t)" using ck(1) plen by (simp add: word_less_nat_alt)
  let ?p = "(td_present t)[unat (cu_Index c) := True]"
  have "unat (td_presentCount t) \<le> 16384"
    using cnt length_filter_le [of "\<lambda>b. b" "td_present t"] plen transfer_ok_bounds(4) [OF ok] by simp
  then have "unat (td_presentCount t + 1) = Suc (unat (td_presentCount t))"
    by (simp add: unat_word_ariths)
  then have "unat (td_presentCount t + 1) = length (filter (\<lambda>b. b) ?p)"
    using cnt filter_update_True [OF idx fresh] by simp
  moreover have "unat (highest_loop ?p (td_chunkCount t) 0) = length (takeWhile (\<lambda>b. b) ?p)"
    by (rule highest_loop_prefix) (simp_all add: plen)
  moreover have "chunk_map_ok (put_new now c t)"
    using cm plen ck(1,2) ck(4) new by (rule chunk_map_ok_put_new)
  ultimately show ?thesis
    using ok ck(5) plen by (simp add: transfer_ok_def put_new_fresh [OF fresh])
qed

section \<open>Every operation keeps the transfers consistent\<close>

definition transfers_ok :: "MemStore \<Rightarrow> bool" where
  "transfers_ok s \<longleftrightarrow>
     distinct (map fst (ms_transfers s))
     \<and> (\<forall>tid t. transfer_of s tid = Some t \<longrightarrow> transfer_ok t)
     \<and> (\<forall>mid. transfer_bytes mid (ms_transfers s) \<le> MaxStoredBytesPerMailbox + int MaxManifestBytes)"

lemma transfer_bytes_update:
  "distinct (map fst ts) \<Longrightarrow>
   transfer_bytes mid (AList.update tid t ts)
     = transfer_bytes mid ts - (case map_of ts tid of None \<Rightarrow> 0 | Some old \<Rightarrow> counted_bytes mid old)
       + counted_bytes mid t"
  by (auto simp: transfer_bytes_def sum_update_new sum_update_old split: option.splits)

lemma chunk_bytes_nonneg: "0 \<le> sum_list (map (\<lambda>(i, p). int (length p)) xs)"
  by (rule sum_list_nonneg) auto

lemma counted_bytes_nonneg: "transfer_ok t \<Longrightarrow> 0 \<le> counted_bytes mid t"
  using chunk_bytes_nonneg [of "td_chunks t"]
  by (simp add: counted_bytes_def transfer_ok_def chunk_map_ok_def)

lemma transfers_okD: "transfers_ok s \<Longrightarrow> transfer_of s tid = Some t \<Longrightarrow> transfer_ok t"
  by (simp add: transfers_ok_def)

lemma put_mailbox_transfers [simp]: "transfers_ok (put_mailbox mid mb s) = transfers_ok s"
  by (simp add: transfers_ok_def)

lemma slide_mailbox_sel [simp]:
  "ms_transfers (slide_mailbox mid now s) = ms_transfers s"
  "ms_replay (slide_mailbox mid now s) = ms_replay s"
  by (simp_all add: slide_mailbox_def split: option.splits)

lemma slide_mailbox_ok: "mailboxes_ok s \<Longrightarrow> mailboxes_ok (slide_mailbox mid now s)"
  by (auto simp: slide_mailbox_def intro!: put_mailbox_ok dest: mailboxes_okD split: option.splits)

text \<open>
  Replacing a transfer by a consistent one keeps the invariant when the bytes counted for a
  mailbox do not grow, or stay within the bound.
\<close>

lemma put_transfer_ok:
  assumes "transfers_ok s" "transfer_ok t"
    and "\<And>mid. transfer_bytes mid (ms_transfers s)
           - (case transfer_of s tid of None \<Rightarrow> 0 | Some old \<Rightarrow> counted_bytes mid old)
           + counted_bytes mid t \<le> MaxStoredBytesPerMailbox + int MaxManifestBytes"
  shows "transfers_ok (put_transfer tid t s)"
  using assms
  by (auto simp: transfers_ok_def put_transfer_def update_conv' distinct_update transfer_bytes_update
        split: if_splits)

lemma put_transfer_same:
  assumes "transfers_ok s" "transfer_ok t" "transfer_of s tid = Some old"
    and "\<And>mid. counted_bytes mid t = counted_bytes mid old"
  shows "transfers_ok (put_transfer tid t s)"
  using assms by (intro put_transfer_ok) (auto simp: transfers_ok_def)

lemma getTransferLocked_ok: "transfers_ok s \<Longrightarrow> transfers_ok (snd (getTransferLocked tid now s))"
  by (auto simp: getTransferLocked_def counted_bytes_def split: option.splits
        intro!: put_transfer_same transfer_ok_state dest: transfers_okD)

lemma getTransferLocked_Some:
  "getTransferLocked tid now s = (Some t, s') \<longleftrightarrow>
     s' = s \<and> transfer_of s tid = Some t \<and> (now < td_expiresAt t \<or> td_state t = TransferComplete)"
  by (auto simp: getTransferLocked_def split: option.splits if_splits)

lemma getTransferLocked_mailboxes [simp]:
  "ms_mailboxes (snd (getTransferLocked tid now s)) = ms_mailboxes s"
  "ms_replay (snd (getTransferLocked tid now s)) = ms_replay s"
  by (auto simp: getTransferLocked_def split: option.splits)

definition store_ok :: "MemStore \<Rightarrow> bool" where
  "store_ok s \<longleftrightarrow> mailboxes_ok s \<and> transfers_ok s \<and> distinct (map fst (ms_replay s))"

lemma mailboxStoredBytes_ge: "mailboxes_ok s \<Longrightarrow> transfer_bytes mid (ms_transfers s) \<le> mailboxStoredBytesLocked mid s"
  by (auto simp: mailboxStoredBytesLocked_def mailboxes_ok_def mailbox_ok_def split: option.splits)

lemma counted_bytes_put_new:
  assumes "\<not> td_present t ! unat (cu_Index c)"
  shows "counted_bytes mid (put_new now c t)
      = counted_bytes mid t
        + (if td_hasMailbox t \<and> td_mailboxID t = mid then int (length (cu_Payload c)) else 0)"
  by (simp add: counted_bytes_def put_new_fresh [OF assms])

lemma store_ok_expire: "store_ok s \<Longrightarrow> store_ok (snd (getTransferLocked tid now s))"
  by (simp add: store_ok_def getTransferLocked_ok mailboxes_ok_def)

lemma store_ok_slide: "store_ok s \<Longrightarrow> store_ok (slide_mailbox mid now s)"
  by (simp add: store_ok_def slide_mailbox_ok transfers_ok_def)

lemma store_ok_put_transfer:
  "store_ok s \<Longrightarrow> transfers_ok (put_transfer tid t s) \<Longrightarrow> store_ok (put_transfer tid t s)"
  by (simp add: store_ok_def)

lemma store_ok_put_mailbox: "store_ok s \<Longrightarrow> mailbox_ok mb \<Longrightarrow> store_ok (put_mailbox mid mb s)"
  by (simp add: store_ok_def put_mailbox_ok)

lemma put_new_transfers_ok:
  assumes ok: "store_ok s" and t: "transfer_of s tid = Some t"
    and v: "ValidateChunkUpload c = None" "put_check c t = None"
    and new: "map_of (td_chunks t) (cu_Index c) = None"
    and quota: "td_hasMailbox t \<Longrightarrow>
      mailboxStoredBytesLocked (td_mailboxID t) s + int (length (cu_Payload c)) \<le> MaxStoredBytesPerMailbox"
  shows "transfers_ok (put_transfer tid (put_new now c t) s)"
proof (rule put_transfer_ok)
  have tok: "transfer_ok t" using ok t by (auto simp: store_ok_def dest: transfers_okD)
  then show "transfer_ok (put_new now c t)" using v new by (rule put_new_ok)
  show ts: "transfers_ok s" using ok by (simp add: store_ok_def)
  have fresh: "\<not> td_present t ! unat (cu_Index c)"
    using tok new put_check_None(1) [OF tok v] by (auto simp: transfer_ok_def chunk_present)
  fix mid
  have "transfer_bytes mid (ms_transfers s) \<le> mailboxStoredBytesLocked mid s"
    using ok by (simp add: store_ok_def mailboxStoredBytes_ge)
  then show "transfer_bytes mid (ms_transfers s)
      - (case transfer_of s tid of None \<Rightarrow> 0 | Some old \<Rightarrow> counted_bytes mid old)
      + counted_bytes mid (put_new now c t) \<le> MaxStoredBytesPerMailbox + int MaxManifestBytes"
    using quota ts by (auto simp: t counted_bytes_put_new [OF fresh] transfers_ok_def)
qed

lemma PutChunk_ok: "store_ok s \<Longrightarrow> store_ok (snd (PutChunk now c s))"
  using store_ok_expire [of s "copy_array 16 (cu_TransferID c)" now]
  by (auto simp: PutChunk_def Let_def getTransferLocked_Some not_less split: option.splits prod.splits
        intro!: store_ok_slide store_ok_put_transfer put_new_transfers_ok)

lemma empty_transfer_ok:
  "ValidateTransferCreate T S C = None \<Longrightarrow> length mf \<le> MaxManifestBytes \<Longrightarrow>
   transfer_ok \<lparr>td_mailboxID = mid, td_hasMailbox = hm, td_downloadSecretHash = h, td_totalSize = T,
     td_chunkSize = S, td_chunkCount = C, td_manifest = mf, td_senderPub = pub,
     td_state = TransferCreated, td_present = replicate (unat C) False, td_chunks = [],
     td_hashes = [], td_presentCount = 0, td_highest = 0, td_createdAt = now, td_expiresAt = e,
     td_storedBytes = 0\<rparr>"
  by (auto simp: transfer_ok_def chunk_map_ok_def word_less_nat_alt takeWhile_replicate)

lemma CreateTransfer_ok:
  assumes ok: "store_ok s"
  shows "store_ok (snd (CreateTransfer now newID ticket t s))"
proof -
  have bound: "transfer_bytes mid (ms_transfers s)
      - (case transfer_of s newID of None \<Rightarrow> 0 | Some old \<Rightarrow> counted_bytes mid old) + x
      \<le> MaxStoredBytesPerMailbox + int MaxManifestBytes"
    if "x = 0 \<or> (mailboxStoredBytesLocked mid s \<le> MaxStoredBytesPerMailbox \<and> x \<le> int MaxManifestBytes)"
    for mid x
  proof -
    have "0 \<le> (case transfer_of s newID of None \<Rightarrow> 0 | Some old \<Rightarrow> counted_bytes mid old)"
      using ok by (auto simp: store_ok_def split: option.splits
          intro: counted_bytes_nonneg dest: transfers_okD)
    moreover have "transfer_bytes mid (ms_transfers s) \<le> mailboxStoredBytesLocked mid s"
        "transfer_bytes mid (ms_transfers s) \<le> MaxStoredBytesPerMailbox + int MaxManifestBytes"
      using ok by (simp_all add: store_ok_def mailboxStoredBytes_ge transfers_ok_def)
    ultimately show ?thesis using that by (auto simp del: limit_defs)
  qed
  show ?thesis
  proof (cases "ValidateTransferCreateMsg t")
    case (Some e)
    then show ?thesis using ok by (simp add: CreateTransfer_def)
  next
    case None
    then have v: "ValidateTransferCreate (tc_TotalSize t) (tc_ChunkSize t) (tc_ChunkCount t) = None"
        "length (tc_Manifest t) \<le> MaxManifestBytes"
      by (simp_all add: ValidateTransferCreateMsg_None)
    then have "0 \<le> int64_of_u64 (tc_TotalSize t)"
      by (subst int64_of_u64_small) (simp_all add: ValidateTransferCreate_None)
    then show ?thesis
      using ok None v
      by (auto simp: CreateTransfer_def Let_def counted_bytes_def not_less store_ok_def [of s]
            simp del: limit_defs split: option.splits if_splits
            intro!: store_ok_slide store_ok_put_transfer put_transfer_ok empty_transfer_ok bound)
  qed
qed

lemma owner_check_ok: "store_ok s \<Longrightarrow> store_ok (snd (owner_check t mid secret now s))"
  by (auto simp: owner_check_def store_ok_def split: option.splits
        intro!: put_mailbox_ok dest: getMailboxLocked_ok)

lemma owner_check_transfers [simp]:
  "ms_transfers (snd (owner_check t mid secret now s)) = ms_transfers s"
  by (auto simp: owner_check_def split: option.splits)

lemma GetChunk_ok: "store_ok s \<Longrightarrow> store_ok (snd (GetChunk now tid mid secret i s))"
  using store_ok_expire [of s tid now] owner_check_ok [of s _ mid secret now]
  by (auto simp: GetChunk_def getTransferLocked_Some split: option.splits prod.splits)
     (metis snd_conv)+

lemma GetChunkByTicket_ok: "store_ok s \<Longrightarrow> store_ok (snd (GetChunkByTicket now tid ticket i s))"
  using store_ok_expire [of s tid now]
  by (auto simp: GetChunkByTicket_def split: option.splits prod.splits)

lemma GetTransfer_ok: "store_ok s \<Longrightarrow> store_ok (snd (GetTransfer now tid s))"
  using store_ok_expire [of s tid now]
  by (auto simp: GetTransfer_def split: option.splits prod.splits)

lemma store_ok_transfers: "store_ok s \<Longrightarrow> transfers_ok s"
  by (simp add: store_ok_def)

lemma store_ok_transfer: "store_ok s \<Longrightarrow> transfer_of s tid = Some t \<Longrightarrow> transfer_ok t"
  by (auto simp: store_ok_def dest: transfers_okD)

lemma CompleteTransfer_ok: "store_ok s \<Longrightarrow> store_ok (snd (CompleteTransfer now t s))"
  using store_ok_expire [of s "copy_array 16 (tf_TransferID t)" now]
  by (auto simp: CompleteTransfer_def Let_def getTransferLocked_Some counted_bytes_def
        split: option.splits prod.splits
        intro!: store_ok_put_transfer put_transfer_same transfer_ok_state
        dest: store_ok_transfers store_ok_transfer)

lemma transfer_bytes_filter:
  "(\<And>tid t. (tid, t) \<in> set ts \<Longrightarrow> transfer_ok t) \<Longrightarrow>
   transfer_bytes mid (filter P ts) \<le> transfer_bytes mid ts"
  by (induction ts) (fastforce simp: transfer_bytes_def dest: counted_bytes_nonneg [of _ mid])+

lemma filter_transfers_ok:
  assumes "transfers_ok s"
  shows "transfers_ok (s\<lparr>ms_transfers := filter (\<lambda>(tid, t). P tid t) (ms_transfers s)\<rparr>)"
proof -
  have dist: "distinct (map fst (ms_transfers s))" using assms by (simp add: transfers_ok_def)
  then have "transfer_ok t" if "(tid, t) \<in> set (ms_transfers s)" for tid t
    using assms map_of_is_SomeI [OF dist that] by (auto dest: transfers_okD)
  then have "transfer_bytes mid (filter (\<lambda>(tid, t). P tid t) (ms_transfers s))
      \<le> MaxStoredBytesPerMailbox + int MaxManifestBytes" for mid
    using assms order_trans [OF transfer_bytes_filter] by (simp add: transfers_ok_def)
  then show ?thesis
    using assms dist
    by (auto simp: transfers_ok_def distinct_filter_keys map_of_filter_keys split: option.splits if_splits)
qed

lemma delete_transfer_ok: "store_ok s \<Longrightarrow> store_ok (delete_transfer tid s)"
  using filter_transfers_ok [of s "\<lambda>k t. tid \<noteq> k"]
  by (simp add: store_ok_def delete_transfer_def AList.delete_eq mailboxes_ok_def)

lemma CancelTransfer_ok: "store_ok s \<Longrightarrow> store_ok (snd (CancelTransfer now tid mid secret s))"
  using owner_check_ok [of s _ mid secret now]
  by (auto simp: CancelTransfer_def split: option.splits prod.splits intro!: delete_transfer_ok)
     (metis snd_conv)+

end
