(* ===== verification/Resume_View.thy ===== *)
theory Resume_View
  imports Transfer_Store
begin

text \<open>
  The resume views of the store, from \<open>buildResumeViewLocked\<close> and the operations that return
  it (\<open>Resume\<close>, \<open>Progress\<close>, \<open>ResumeByTicket\<close>) in \<open>server/storage/memstore.go\<close>: a bitmap of the
  present chunks for up to 256 chunks, a list of the missing ranges above that.

  The lemmas show that bit \<open>i\<close> of the bitmap is the presence flag of chunk \<open>i\<close>, and that the
  ranges name missing chunks only, all of them whenever the list is below its limit, and at least
  one whenever a chunk is missing.
\<close>

record ResumeView =
  rw_ChunkCount :: u32
  rw_HighestContiguous :: u32
  rw_Encoding :: u8
  rw_Bitmap :: bytes
  rw_MissingRanges :: bytes

section \<open>Bitmap\<close>

definition mark_bit :: "bool list \<Rightarrow> nat \<Rightarrow> bytes \<Rightarrow> bytes" where
  "mark_bit present i bm =
     (if present ! i then bm[i div 8 := bm ! (i div 8) OR push_bit (i mod 8) 1] else bm)"

definition build_bitmap :: "bool list \<Rightarrow> u32 \<Rightarrow> bytes" where
  "build_bitmap present chunkCount =
     fold (mark_bit present) [0..<unat chunkCount] (replicate (unat ((chunkCount + 7) div 8)) 0)"

section \<open>Missing ranges\<close>

text \<open>
  The loop over the chunks from index \<open>i\<close> on, with its variables \<open>ranges\<close>, \<open>start\<close>, \<open>run\<close>
  and \<open>inGap\<close>; reaching the limit breaks out with \<open>inGap\<close> false.
\<close>

fun gap_loop ::
  "u32 \<Rightarrow> bool list \<Rightarrow> (u32 \<times> u32) list \<Rightarrow> u32 \<Rightarrow> u32 \<Rightarrow> bool \<Rightarrow> (u32 \<times> u32) list" where
  "gap_loop i [] ranges start run inGap = (if inGap then ranges @ [(start, run)] else ranges)"
| "gap_loop i (p # ps) ranges start run inGap =
     (if \<not> p then
        if \<not> inGap then gap_loop (i + 1) ps ranges i 1 True
        else gap_loop (i + 1) ps ranges start (run + 1) True
      else if inGap then
        let ranges = ranges @ [(start, run)] in
        if length ranges \<ge> MaxMissingRanges then ranges
        else gap_loop (i + 1) ps ranges start run False
      else gap_loop (i + 1) ps ranges start run False)"

definition missing_ranges :: "bool list \<Rightarrow> (u32 \<times> u32) list" where
  "missing_ranges present = gap_loop 0 present [] 0 0 False"

definition buildResumeViewLocked :: "transferData \<Rightarrow> bytes \<Rightarrow> ResumeView \<times> TransferView" where
  "buildResumeViewLocked t transferID =
     ((if td_chunkCount t \<le> 256 then
         \<lparr>rw_ChunkCount = td_chunkCount t, rw_HighestContiguous = td_highest t,
          rw_Encoding = ResumeBitmap, rw_Bitmap = build_bitmap (td_present t) (td_chunkCount t),
          rw_MissingRanges = []\<rparr>
       else
         \<lparr>rw_ChunkCount = td_chunkCount t, rw_HighestContiguous = td_highest t,
          rw_Encoding = ResumeRanges, rw_Bitmap = [],
          rw_MissingRanges = EncodeRanges (missing_ranges (take (unat (td_chunkCount t)) (td_present t)))\<rparr>),
      transfer_view transferID t)"

section \<open>Operations\<close>

definition Resume ::
  "int \<Rightarrow> bytes \<Rightarrow> bytes \<Rightarrow> bytes \<Rightarrow> MemStore
   \<Rightarrow> (go_error + ResumeView \<times> TransferView) \<times> MemStore" where
  "Resume now transferID mailboxID readSecret s =
     (case getTransferLocked transferID now s of
        (None, s) \<Rightarrow> (Inl (missing_transfer transferID s), s)
      | (Some t, s) \<Rightarrow>
          (case owner_check t mailboxID readSecret now s of
             (Some e, s) \<Rightarrow> (Inl e, s)
           | (None, s) \<Rightarrow> (Inr (buildResumeViewLocked t transferID), s)))"

definition Progress ::
  "int \<Rightarrow> bytes \<Rightarrow> MemStore \<Rightarrow> (go_error + ResumeView \<times> TransferView) \<times> MemStore" where
  "Progress now transferID s =
     (case getTransferLocked transferID now s of
        (None, s) \<Rightarrow> (Inl (missing_transfer transferID s), s)
      | (Some t, s) \<Rightarrow> (Inr (buildResumeViewLocked t transferID), s))"

definition ResumeByTicket ::
  "int \<Rightarrow> bytes \<Rightarrow> bytes \<Rightarrow> MemStore \<Rightarrow> (go_error + ResumeView \<times> TransferView) \<times> MemStore" where
  "ResumeByTicket now transferID ticket s =
     (case getTransferLocked transferID now s of
        (None, s) \<Rightarrow> (Inl (missing_transfer transferID s), s)
      | (Some t, s) \<Rightarrow>
          (case checkTicketLocked t ticket of
             Some e \<Rightarrow> (Inl e, s)
           | None \<Rightarrow> (Inr (buildResumeViewLocked t transferID), s)))"

lemma Resume_ok: "store_ok s \<Longrightarrow> store_ok (snd (Resume now tid mid secret s))"
  using store_ok_expire [of s tid now] owner_check_ok [of s _ mid secret now]
  by (auto simp: Resume_def getTransferLocked_Some split: option.splits prod.splits)
     (metis snd_conv)+

lemma Progress_ok: "store_ok s \<Longrightarrow> store_ok (snd (Progress now tid s))"
  using store_ok_expire [of s tid now]
  by (auto simp: Progress_def split: option.splits prod.splits)

lemma ResumeByTicket_ok: "store_ok s \<Longrightarrow> store_ok (snd (ResumeByTicket now tid ticket s))"
  using store_ok_expire [of s tid now]
  by (auto simp: ResumeByTicket_def split: option.splits prod.splits)

section \<open>The bitmap is the presence map\<close>

lemma length_mark_bit [simp]: "length (mark_bit present i bm) = length bm"
  by (simp add: mark_bit_def)

lemma length_fold_mark [simp]: "length (fold (mark_bit present) is bm) = length bm"
  by (induction "is" arbitrary: bm) simp_all

lemma bit_mark_bit:
  assumes "i div 8 < length bm" "j div 8 < length bm"
  shows "bit (mark_bit present i bm ! (j div 8)) (j mod 8)
           \<longleftrightarrow> bit (bm ! (j div 8)) (j mod 8) \<or> (i = j \<and> present ! i)"
proof (cases "i div 8 = j div 8")
  case True
  have "i mod 8 = j mod 8 \<longleftrightarrow> i = j" using True by (metis div_mod_decomp)
  then show ?thesis
    using assms True by (auto simp: mark_bit_def bit_or_iff bit_exp_iff)
next
  case False
  then show ?thesis using assms by (auto simp: mark_bit_def)
qed

lemma bit_fold_mark:
  assumes "\<forall>i \<in> set is. i div 8 < length bm" "j div 8 < length bm"
  shows "bit (fold (mark_bit present) is bm ! (j div 8)) (j mod 8)
           \<longleftrightarrow> bit (bm ! (j div 8)) (j mod 8) \<or> (j \<in> set is \<and> present ! j)"
  using assms by (induction "is" arbitrary: bm) (auto simp: bit_mark_bit)

lemma bitmap_length: "unat c \<le> 256 \<Longrightarrow> length (build_bitmap present c) = (unat c + 7) div 8"
  by (simp add: build_bitmap_def unat_div unat_word_ariths)

lemma bitmap_bit:
  assumes "unat c \<le> 256" "j < 8 * length (build_bitmap present c)"
  shows "bit (build_bitmap present c ! (j div 8)) (j mod 8) \<longleftrightarrow> j < unat c \<and> present ! j"
proof -
  have n: "unat ((c + 7) div 8) = (unat c + 7) div 8"
    using assms(1) by (simp add: unat_div unat_word_ariths)
  have "j div 8 < (unat c + 7) div 8"
    using assms by (simp add: bitmap_length div_less_iff_less_mult)
  then show ?thesis
    unfolding build_bitmap_def n by (subst bit_fold_mark) (auto simp: div_less_iff_less_mult)
qed

section \<open>The ranges cover the missing chunks\<close>

definition missing_from :: "nat \<Rightarrow> bool list \<Rightarrow> nat set" where
  "missing_from n ps = {n + k |k. k < length ps \<and> \<not> ps ! k}"

definition covered :: "(u32 \<times> u32) list \<Rightarrow> nat set" where
  "covered ranges = (\<Union>(s, c) \<in> set ranges. {unat s ..< unat s + unat c})"

lemma missing_from_simps [simp]:
  "missing_from n [] = {}"
  "missing_from n (p # ps) = (if p then {} else {n}) \<union> missing_from (Suc n) ps"
  by (auto simp: missing_from_def nth_Cons' less_Suc_eq_0_disj gr0_conv_Suc split: if_splits)

lemma covered_simps [simp]:
  "covered [] = {}" "covered (ranges @ [(s, c)]) = covered ranges \<union> {unat s ..< unat s + unat c}"
  by (auto simp: covered_def)

text \<open>What the loop has found so far, including the gap it is in.\<close>

definition gap_so_far :: "u32 \<Rightarrow> u32 \<Rightarrow> bool \<Rightarrow> nat set" where
  "gap_so_far start run inGap = (if inGap then {unat start ..< unat start + unat run} else {})"

lemma gap_loop_covers:
  assumes "unat i + length ps \<le> 2 ^ 31" "length ranges < MaxMissingRanges"
    and "inGap \<Longrightarrow> unat start + unat run = unat i \<and> 0 < unat run"
    and "\<forall>(s, c) \<in> set ranges. 0 < unat c"
  defines "out \<equiv> gap_loop i ps ranges start run inGap"
    and "all \<equiv> covered ranges \<union> gap_so_far start run inGap \<union> missing_from (unat i) ps"
  shows "length out \<le> MaxMissingRanges \<and> covered out \<subseteq> all
         \<and> (length out < MaxMissingRanges \<longrightarrow> covered out = all) \<and> (\<forall>(s, c) \<in> set out. 0 < unat c)"
  using assms(1-4) unfolding out_def all_def
proof (induction i ps ranges start run inGap rule: gap_loop.induct)
  case (1 i ranges start run inGap)
  then show ?case by (auto simp: gap_so_far_def)
next
  case (2 i p ps ranges start run inGap)
  have next_i: "unat (i + 1) = Suc (unat i)" using "2.prems"(1) by (simp add: unat_word_ariths)
  consider (open_gap) "\<not> p" "\<not> inGap" | (grow) "\<not> p" "inGap" | (close) "p" "inGap" | (skip) "p" "\<not> inGap"
    by blast
  then show ?case
  proof cases
    case open_gap
    then show ?thesis
      using "2.IH"(1) "2.prems" next_i by (simp add: gap_so_far_def insert_commute)
  next
    case grow
    then have g: "unat start + unat run = unat i" "0 < unat run" using "2.prems"(3) by auto
    have run: "unat (run + 1) = Suc (unat run)" using g "2.prems"(1) by (simp add: unat_word_ariths)
    have "{unat start ..< Suc (unat i)} = insert (unat i) {unat start ..< unat i}"
      using g by (simp add: atLeastLessThanSuc)
    then show ?thesis
      using "2.IH"(2) "2.prems" next_i grow g run by (simp add: gap_so_far_def)
  next
    case close
    then show ?thesis
      using "2.IH"(3) "2.prems" next_i by (auto simp: gap_so_far_def Let_def split: if_splits)
  next
    case skip
    then show ?thesis
      using "2.IH"(4) "2.prems" next_i by (simp add: gap_so_far_def)
  qed
qed

lemma missing_ranges_covers:
  assumes "length present \<le> 2 ^ 31"
  shows "length (missing_ranges present) \<le> MaxMissingRanges"
    and "covered (missing_ranges present) \<subseteq> {i. i < length present \<and> \<not> present ! i}"
    and "length (missing_ranges present) < MaxMissingRanges \<Longrightarrow>
         covered (missing_ranges present) = {i. i < length present \<and> \<not> present ! i}"
    and "\<forall>(s, c) \<in> set (missing_ranges present). 0 < unat c"
  using gap_loop_covers [of 0 present "[]" False 0 0] assms
  by (simp_all add: missing_ranges_def gap_so_far_def missing_from_def)

text \<open>A truncated list still names a missing chunk, so a client that follows it makes progress.\<close>

lemma missing_ranges_progress:
  assumes "length present \<le> 2 ^ 31" "i < length present" "\<not> present ! i"
  shows "covered (missing_ranges present) \<noteq> {}"
proof
  assume none: "covered (missing_ranges present) = {}"
  have "missing_ranges present = []"
  proof (cases "missing_ranges present")
    case (Cons r rs)
    then have "unat (fst r) \<in> covered (missing_ranges present)"
      using missing_ranges_covers(4) [OF assms(1)] by (auto simp: covered_def case_prod_beta)
    with none show ?thesis by simp
  qed simp
  then show False
    using missing_ranges_covers(3) [OF assms(1)] none assms(2,3) by auto
qed

end
