(* ===== verification/Interfaces.thy ===== *)
theory Interfaces
  imports Prelude
begin

text \<open>
  Contracts that several components implement, as locales: a single-use replay cache with a
  window (the store's \<open>CheckAndMarkReplay\<close> and the router's \<open>checkReplay\<close>), a fixed-window rate
  limiter (the shard's \<open>limiter.allow\<close> and the router's \<open>allowRL\<close>), and a state machine whose
  operations keep an invariant. What a client may conclude from a contract is proved here once.
\<close>

section \<open>Replay cache\<close>

fun mark_all :: "(int \<Rightarrow> 'k \<Rightarrow> 's \<Rightarrow> bool \<times> 's) \<Rightarrow> (int \<times> 'k) list \<Rightarrow> 's \<Rightarrow> 's" where
  "mark_all mark [] s = s"
| "mark_all mark ((now, k) # evs) s = mark_all mark evs (snd (mark now k s))"

definition seen :: "('s \<Rightarrow> 'k \<Rightarrow> int option) \<Rightarrow> int \<Rightarrow> 'k \<Rightarrow> 's \<Rightarrow> bool" where
  "seen deadline now k s \<longleftrightarrow> (case deadline s k of Some e \<Rightarrow> now < e | None \<Rightarrow> False)"

locale replay_cache =
  fixes mark :: "int \<Rightarrow> 'k \<Rightarrow> 's \<Rightarrow> bool \<times> 's" and deadline :: "'s \<Rightarrow> 'k \<Rightarrow> int option"
    and window :: "int \<Rightarrow> int" and ok :: "'s \<Rightarrow> bool"
  assumes mark_seen: "ok s \<Longrightarrow> fst (mark now k s) \<longleftrightarrow> seen deadline now k s"
    and mark_new: "ok s \<Longrightarrow> \<not> seen deadline now k s \<Longrightarrow> deadline (snd (mark now k s)) k = Some (window now)"
    and mark_keeps: "ok s \<Longrightarrow> seen deadline now k' s \<Longrightarrow> deadline (snd (mark now k s)) k' = deadline s k'"
    and mark_ok: "ok s \<Longrightarrow> ok (snd (mark now k s))"
begin

lemma mark_all_ok: "ok s \<Longrightarrow> ok (mark_all mark evs s)"
proof (induction evs arbitrary: s)
  case Nil
  then show ?case by simp
next
  case (Cons ev evs)
  then show ?case by (cases ev) (simp add: mark_ok)
qed

lemma mark_all_keeps:
  assumes "ok s" "deadline s k = Some e" "\<forall>(now, k') \<in> set evs. now < e"
  shows "deadline (mark_all mark evs s) k = Some e"
  using assms
proof (induction evs arbitrary: s)
  case Nil
  then show ?case by simp
next
  case (Cons ev evs)
  obtain now k' where ev: "ev = (now, k')" by fastforce
  have "seen deadline now k s" using Cons.prems ev by (simp add: seen_def)
  then have "deadline (snd (mark now k' s)) k = Some e"
    using mark_keeps [OF Cons.prems(1)] Cons.prems(2) by simp
  then show ?case using Cons ev by (simp add: mark_ok)
qed

text \<open>A key accepted at \<open>t0\<close> is refused at every time before its deadline, whatever came between.\<close>

lemma single_use:
  assumes "ok s" "fst (mark t0 k s) = False" "\<forall>(now, k') \<in> set evs. now < window t0" "t1 < window t0"
  shows "fst (mark t1 k (mark_all mark evs (snd (mark t0 k s)))) = True"
proof -
  have "deadline (snd (mark t0 k s)) k = Some (window t0)"
    using mark_new [OF assms(1)] mark_seen [OF assms(1)] assms(2) by simp
  then have "deadline (mark_all mark evs (snd (mark t0 k s))) k = Some (window t0)"
    using assms(1,3) by (intro mark_all_keeps) (simp_all add: mark_ok)
  then show ?thesis
    using assms by (simp add: mark_seen mark_all_ok mark_ok seen_def)
qed

end

section \<open>Fixed-window rate limiter\<close>

text \<open>The number of calls for one key that are let through, over a list of call times.\<close>

fun count_allowed :: "('k \<Rightarrow> int \<Rightarrow> 's \<Rightarrow> bool \<times> 's) \<Rightarrow> 'k \<Rightarrow> int list \<Rightarrow> 's \<Rightarrow> nat" where
  "count_allowed allow k [] s = 0"
| "count_allowed allow k (now # nows) s =
     (if fst (allow k now s) then 1 else 0) + count_allowed allow k nows (snd (allow k now s))"

locale fixed_window =
  fixes allow :: "'k \<Rightarrow> int \<Rightarrow> 's \<Rightarrow> bool \<times> 's" and bucket :: "'s \<Rightarrow> 'k \<Rightarrow> (int \<times> int) option"
    and max :: int and reset :: "int \<Rightarrow> int"
  assumes max_pos: "0 < max"
    and allow_open: "(case bucket s k of None \<Rightarrow> True | Some (c, r) \<Rightarrow> now \<ge> r) \<Longrightarrow>
      fst (allow k now s) \<and> bucket (snd (allow k now s)) k = Some (1, reset now)"
    and allow_count: "bucket s k = Some (c, r) \<Longrightarrow> now < r \<Longrightarrow>
      (if c \<ge> max then \<not> fst (allow k now s) \<and> bucket (snd (allow k now s)) k = Some (c, r)
       else fst (allow k now s) \<and> bucket (snd (allow k now s)) k = Some (c + 1, r))"
begin

lemma allowed_in_window:
  assumes "bucket s k = Some (c, r)" "\<forall>now \<in> set nows. now < r" "0 \<le> c" "c \<le> max"
  shows "count_allowed allow k nows s = min (length nows) (nat (max - c))"
  using assms
proof (induction nows arbitrary: s c)
  case Nil
  then show ?case by simp
next
  case (Cons now nows)
  note step = allow_count [OF Cons.prems(1), of now]
  show ?case
  proof (cases "c \<ge> max")
    case True
    then have "\<not> fst (allow k now s)" "bucket (snd (allow k now s)) k = Some (c, r)"
      using step Cons.prems(2) by simp_all
    then show ?thesis using Cons.IH [of "snd (allow k now s)" c] Cons.prems True by simp
  next
    case False
    then have "fst (allow k now s)" "bucket (snd (allow k now s)) k = Some (c + 1, r)"
      using step Cons.prems(2) by simp_all
    moreover have "nat (max - c) = Suc (nat (max - (c + 1)))" using False by simp
    ultimately show ?thesis
      using Cons.IH [of "snd (allow k now s)" "c + 1"] Cons.prems False by simp
  qed
qed

text \<open>From the call that opens a window to its reset, exactly the first \<open>max\<close> calls pass.\<close>

lemma allowed_per_window:
  assumes "case bucket s k of None \<Rightarrow> True | Some (c, r) \<Rightarrow> t0 \<ge> r"
    and "\<forall>now \<in> set nows. now < reset t0"
  shows "count_allowed allow k (t0 # nows) s = min (Suc (length nows)) (nat max)"
proof -
  have "fst (allow k t0 s)" "bucket (snd (allow k t0 s)) k = Some (1, reset t0)"
    using allow_open [OF assms(1)] by simp_all
  moreover have "nat max = Suc (nat (max - 1))" using max_pos by simp
  ultimately show ?thesis
    using allowed_in_window [of "snd (allow k t0 s)" k 1 "reset t0" nows] assms(2) max_pos by simp
qed

end

section \<open>State machines with an invariant\<close>

inductive reachable :: "('op \<Rightarrow> 's \<Rightarrow> 's) \<Rightarrow> 's \<Rightarrow> 's \<Rightarrow> bool" for step :: "'op \<Rightarrow> 's \<Rightarrow> 's" and init :: 's where
  reach_init: "reachable step init init"
| reach_step: "reachable step init s \<Longrightarrow> reachable step init (step op s)"

locale invariant_machine =
  fixes init :: 's and step :: "'op \<Rightarrow> 's \<Rightarrow> 's" and inv :: "'s \<Rightarrow> bool"
  assumes inv_init: "inv init" and inv_step: "inv s \<Longrightarrow> inv (step op s)"
begin

lemma reachable_inv: "reachable step init s \<Longrightarrow> inv s"
  by (induction rule: reachable.induct) (simp_all add: inv_init inv_step)

end

end
