(* ===== verification/Store_Machine.thy ===== *)
theory Store_Machine
  imports Message_Queue Resume_View Interfaces
begin

text \<open>
  The store as a whole: the replay cache and the sweeper of \<open>server/storage/memstore.go\<close>, one
  step per operation of the \<open>Store\<close> interface (\<open>server/storage/store.go\<close>), and what holds over every
  sequence of operations: the invariant \<open>store_ok\<close>, the single use of replay keys, the
  permanence of stored chunks and of sealed transfers.
\<close>

section \<open>Replay cache\<close>

definition CheckAndMarkReplay :: "int \<Rightarrow> bytes \<Rightarrow> MemStore \<Rightarrow> bool \<times> MemStore" where
  "CheckAndMarkReplay now key s =
     (if (case map_of (ms_replay s) key of Some exp \<Rightarrow> now < exp | None \<Rightarrow> False) then (True, s)
      else
        let r = filter (\<lambda>(k, exp). \<not> now \<ge> exp) (ms_replay s)
        in (False, s\<lparr>ms_replay := AList.update key (i64 (now + ReplayWindowSeconds * 1000)) r\<rparr>))"

section \<open>Sweeper\<close>

definition live_transfer_of :: "int \<Rightarrow> bytes \<Rightarrow> (bytes \<times> transferData) list \<Rightarrow> bool" where
  "live_transfer_of now mid ts \<longleftrightarrow>
     (\<exists>(tid, t) \<in> set ts. td_hasMailbox t \<and> td_mailboxID t = mid \<and> now < td_expiresAt t)"

text \<open>One round of the loop over the mailboxes: what is kept, and how many messages were dropped.\<close>

definition sweep_mailbox ::
  "int \<Rightarrow> (bytes \<times> transferData) list \<Rightarrow> bytes \<Rightarrow> mailboxData \<Rightarrow> mailboxData option \<times> nat" where
  "sweep_mailbox now ts mid mb =
     (if now \<ge> mb_expiresAt mb \<and> length (mb_messages mb) = 0 then (None, 0)
      else
        let before = length (mb_messages mb);
            mb = pruneMessagesLocked mb now;
            nm = before - length (mb_messages mb)
        in if now \<ge> mb_expiresAt mb \<and> length (mb_messages mb) = 0 \<and> \<not> live_transfer_of now mid ts
           then (None, nm) else (Some mb, nm))"

definition transfer_due :: "int \<Rightarrow> transferData \<Rightarrow> bool" where
  "transfer_due now t \<longleftrightarrow>
     now \<ge> td_expiresAt t \<and> td_state t \<noteq> TransferComplete
     \<or> td_state t = TransferComplete \<and> now \<ge> td_expiresAt t"

definition Sweep :: "int \<Rightarrow> MemStore \<Rightarrow> (nat \<times> nat \<times> nat) \<times> MemStore" where
  "Sweep now s =
     (let swept = map (\<lambda>(mid, mb). (mid, sweep_mailbox now (ms_transfers s) mid mb)) (ms_mailboxes s);
          nm = sum_list (map (\<lambda>(mid, kept, n). n) swept);
          nb = length (filter (\<lambda>(mid, kept, n). kept = None) swept);
          mailboxes = map (\<lambda>(mid, kept, n). (mid, the kept)) (filter (\<lambda>(mid, kept, n). kept \<noteq> None) swept);
          nt = length (filter (\<lambda>(tid, t). transfer_due now t) (ms_transfers s));
          transfers = filter (\<lambda>(tid, t). \<not> transfer_due now t) (ms_transfers s);
          r = filter (\<lambda>(k, exp). \<not> now \<ge> exp) (ms_replay s)
      in ((nm, nt, nb), \<lparr>ms_mailboxes = mailboxes, ms_transfers = transfers, ms_replay = r\<rparr>))"

section \<open>One step per operation\<close>

datatype store_op =
    OpCreateMailbox int bytes bytes
  | OpSendMessage int bytes SendMessage
  | OpReceiveMessages int bytes bytes int bool
  | OpAckMessages int bytes bytes "bytes list" u8
  | OpCreateTransfer int bytes "bytes option" TransferCreate
  | OpPutChunk int ChunkUpload
  | OpGetChunk int bytes bytes bytes u32
  | OpResume int bytes bytes bytes
  | OpGetChunkByTicket int bytes bytes u32
  | OpResumeByTicket int bytes bytes
  | OpProgress int bytes
  | OpCompleteTransfer int TransferComplete
  | OpCancelTransfer int bytes bytes bytes
  | OpGetTransfer int bytes
  | OpCheckAndMarkReplay int bytes
  | OpSweep int

fun store_step :: "store_op \<Rightarrow> MemStore \<Rightarrow> MemStore" where
  "store_step (OpCreateMailbox now mid h) s = snd (CreateMailbox now mid h s)"
| "store_step (OpSendMessage now i m) s = snd (SendMessage now i m s)"
| "store_step (OpReceiveMessages now mid sec lim peek) s = snd (ReceiveMessages now mid sec lim peek s)"
| "store_step (OpAckMessages now mid sec ids d) s = snd (AckMessages now mid sec ids d s)"
| "store_step (OpCreateTransfer now i tk t) s = snd (CreateTransfer now i tk t s)"
| "store_step (OpPutChunk now c) s = snd (PutChunk now c s)"
| "store_step (OpGetChunk now tid mid sec i) s = snd (GetChunk now tid mid sec i s)"
| "store_step (OpResume now tid mid sec) s = snd (Resume now tid mid sec s)"
| "store_step (OpGetChunkByTicket now tid tk i) s = snd (GetChunkByTicket now tid tk i s)"
| "store_step (OpResumeByTicket now tid tk) s = snd (ResumeByTicket now tid tk s)"
| "store_step (OpProgress now tid) s = snd (Progress now tid s)"
| "store_step (OpCompleteTransfer now t) s = snd (CompleteTransfer now t s)"
| "store_step (OpCancelTransfer now tid mid sec) s = snd (CancelTransfer now tid mid sec s)"
| "store_step (OpGetTransfer now tid) s = snd (GetTransfer now tid s)"
| "store_step (OpCheckAndMarkReplay now k) s = snd (CheckAndMarkReplay now k s)"
| "store_step (OpSweep now) s = snd (Sweep now s)"

fun op_time :: "store_op \<Rightarrow> int" where
  "op_time (OpCreateMailbox now mid h) = now"
| "op_time (OpSendMessage now i m) = now"
| "op_time (OpReceiveMessages now mid sec lim peek) = now"
| "op_time (OpAckMessages now mid sec ids d) = now"
| "op_time (OpCreateTransfer now i tk t) = now"
| "op_time (OpPutChunk now c) = now"
| "op_time (OpGetChunk now tid mid sec i) = now"
| "op_time (OpResume now tid mid sec) = now"
| "op_time (OpGetChunkByTicket now tid tk i) = now"
| "op_time (OpResumeByTicket now tid tk) = now"
| "op_time (OpProgress now tid) = now"
| "op_time (OpCompleteTransfer now t) = now"
| "op_time (OpCancelTransfer now tid mid sec) = now"
| "op_time (OpGetTransfer now tid) = now"
| "op_time (OpCheckAndMarkReplay now k) = now"
| "op_time (OpSweep now) = now"

section \<open>The sweeper keeps what has not expired\<close>

lemma map_of_sweep:
  "distinct (map fst ms) \<Longrightarrow>
   map_of (map (\<lambda>(mid, kept, n). (mid, the kept))
     (filter (\<lambda>(mid, kept, n). kept \<noteq> None) (map (\<lambda>(mid, mb). (mid, f mid mb)) ms))) mid
     = (case map_of ms mid of None \<Rightarrow> None | Some mb \<Rightarrow> fst (f mid mb))"
proof (induction ms)
  case Nil
  then show ?case by simp
next
  case (Cons m ms)
  obtain a b where m: "m = (a, b)" by fastforce
  have "a = mid \<Longrightarrow> map_of ms mid = None" using Cons.prems m by (auto simp: map_of_eq_None_iff)
  with Cons m show ?case by (auto split: option.splits prod.splits)
qed

lemma keys_sweep:
  "map fst (map (\<lambda>(mid, kept, n). (mid, the kept))
     (filter (\<lambda>(mid, kept, n). kept \<noteq> None) (map (\<lambda>(mid, mb). (mid, f mid mb)) ms)))
   = map fst (filter (\<lambda>(mid, mb). fst (f mid mb) \<noteq> None) ms)"
  by (induction ms) (auto split: prod.splits)

lemma Sweep_mailbox:
  "mailboxes_ok s \<Longrightarrow>
   mailbox_of (snd (Sweep now s)) mid =
     (case mailbox_of s mid of None \<Rightarrow> None | Some mb \<Rightarrow> fst (sweep_mailbox now (ms_transfers s) mid mb))"
  by (simp add: Sweep_def Let_def mailboxes_ok_def map_of_sweep del: filter_map map_map not_None_eq)

lemma transfer_due_iff: "transfer_due now t \<longleftrightarrow> now \<ge> td_expiresAt t"
  by (auto simp: transfer_due_def)

lemma Sweep_transfer:
  "transfers_ok s \<Longrightarrow>
   transfer_of (snd (Sweep now s)) tid =
     (case transfer_of s tid of None \<Rightarrow> None | Some t \<Rightarrow> if now < td_expiresAt t then Some t else None)"
  by (simp add: Sweep_def Let_def transfers_ok_def map_of_filter_keys transfer_due_iff not_le
        split: option.splits)

lemma sweep_mailbox_Some:
  "fst (sweep_mailbox now ts mid mb) = Some mb' \<Longrightarrow> mb' = pruneMessagesLocked mb now"
  by (auto simp: sweep_mailbox_def Let_def split: if_splits)

lemma Sweep_ok: "store_ok s \<Longrightarrow> store_ok (snd (Sweep now s))"
proof -
  assume ok: "store_ok s"
  then have m: "mailboxes_ok s" and t: "transfers_ok s" and r: "distinct (map fst (ms_replay s))"
    by (simp_all add: store_ok_def)
  have "mailboxes_ok (snd (Sweep now s))"
    unfolding mailboxes_ok_def
  proof
    have "ms_mailboxes (snd (Sweep now s)) = map (\<lambda>(mid, kept, n). (mid, the kept))
        (filter (\<lambda>(mid, kept, n). kept \<noteq> None)
          (map (\<lambda>(mid, mb). (mid, sweep_mailbox now (ms_transfers s) mid mb)) (ms_mailboxes s)))"
      by (simp add: Sweep_def Let_def)
    then show "distinct (map fst (ms_mailboxes (snd (Sweep now s))))"
      using m by (simp only: keys_sweep mailboxes_ok_def distinct_filter_keys)
    show "\<forall>mid mb. mailbox_of (snd (Sweep now s)) mid = Some mb \<longrightarrow> mailbox_ok mb"
      using m by (auto simp: Sweep_mailbox split: option.splits
          dest!: sweep_mailbox_Some intro!: prune_ok dest: mailboxes_okD)
  qed
  moreover have "transfers_ok (snd (Sweep now s))"
    using filter_transfers_ok [OF t, of "\<lambda>tid x. \<not> transfer_due now x"]
    by (simp add: Sweep_def Let_def transfers_ok_def)
  moreover have "distinct (map fst (ms_replay (snd (Sweep now s))))"
    using r by (simp add: Sweep_def Let_def distinct_filter_keys)
  ultimately show ?thesis by (simp add: store_ok_def)
qed

lemma Sweep_unexpired:
  assumes "store_ok s" "now \<le> later"
  shows "unexpired later (snd (Sweep now s)) mid = unexpired later s mid"
proof (cases "mailbox_of s mid")
  case None
  then show ?thesis
    using assms by (simp add: unexpired_def queue_def Sweep_mailbox store_ok_def)
next
  case (Some mb)
  have "mailbox_of (snd (Sweep now s)) mid = fst (sweep_mailbox now (ms_transfers s) mid mb)"
    using assms Some by (simp add: Sweep_mailbox store_ok_def)
  moreover have "filter (\<lambda>m. later < msg_ExpiresAt m) (mb_messages mb) = []"
    if "fst (sweep_mailbox now (ms_transfers s) mid mb) = None"
  proof -
    have "filter (\<lambda>m. now < msg_ExpiresAt m) (mb_messages mb) = []"
      using that by (auto simp: sweep_mailbox_def Let_def split: if_splits)
    then show ?thesis using filter_later [OF assms(2), of "mb_messages mb"] by simp
  qed
  ultimately show ?thesis
    using Some filter_later [OF assms(2), of "mb_messages mb"]
    by (auto simp: unexpired_def queue_def split: option.splits dest: sweep_mailbox_Some)
qed

lemma CheckAndMarkReplay_ok: "store_ok s \<Longrightarrow> store_ok (snd (CheckAndMarkReplay now k s))"
  by (auto simp: CheckAndMarkReplay_def Let_def store_ok_def mailboxes_ok_def transfers_ok_def
        distinct_update distinct_filter_keys)

section \<open>The invariant holds in every reachable state\<close>

lemma store_ok_mailbox_only:
  "store_ok s \<Longrightarrow> mailboxes_ok s' \<Longrightarrow> ms_transfers s' = ms_transfers s \<Longrightarrow> ms_replay s' = ms_replay s \<Longrightarrow>
   store_ok s'"
  by (simp add: store_ok_def transfers_ok_def)

lemma mailbox_ops_frame [simp]:
  "ms_transfers (snd (CreateMailbox now mid h s)) = ms_transfers s"
  "ms_replay (snd (CreateMailbox now mid h s)) = ms_replay s"
  "ms_transfers (snd (SendMessage now i m s)) = ms_transfers s"
  "ms_replay (snd (SendMessage now i m s)) = ms_replay s"
  "ms_transfers (snd (ReceiveMessages now mid sec lim peek s)) = ms_transfers s"
  "ms_replay (snd (ReceiveMessages now mid sec lim peek s)) = ms_replay s"
  "ms_transfers (snd (AckMessages now mid sec ids d s)) = ms_transfers s"
  "ms_replay (snd (AckMessages now mid sec ids d s)) = ms_replay s"
  by (auto simp: CreateMailbox_def SendMessage_def ReceiveMessages_def AckMessages_def Let_def
        receive_loop_split split: option.splits sum.splits)

lemma store_step_ok: "store_ok s \<Longrightarrow> store_ok (store_step op s)"
proof (cases op)
qed (auto intro: PutChunk_ok CreateTransfer_ok GetChunk_ok GetChunkByTicket_ok GetTransfer_ok
       CompleteTransfer_ok CancelTransfer_ok Resume_ok Progress_ok ResumeByTicket_ok Sweep_ok
       CheckAndMarkReplay_ok
       store_ok_mailbox_only [OF _ CreateMailbox_ok] store_ok_mailbox_only [OF _ SendMessage_ok]
       store_ok_mailbox_only [OF _ ReceiveMessages_ok] store_ok_mailbox_only [OF _ AckMessages_ok]
       simp: store_ok_def [THEN iffD1, THEN conjunct1])

lemma NewMemStore_ok: "store_ok NewMemStore"
  by (simp add: NewMemStore_def store_ok_def mailboxes_ok_def transfers_ok_def transfer_bytes_def)

interpretation store: invariant_machine NewMemStore store_step store_ok
  by unfold_locales (simp_all add: NewMemStore_ok store_step_ok)

interpretation store_replay: replay_cache CheckAndMarkReplay "\<lambda>s. map_of (ms_replay s)"
  "\<lambda>now. i64 (now + ReplayWindowSeconds * 1000)" store_ok
proof
  fix s :: MemStore and now :: int and k k' :: bytes
  assume ok: "store_ok s"
  then have d: "distinct (map fst (ms_replay s))" by (simp add: store_ok_def)
  show "fst (CheckAndMarkReplay now k s) \<longleftrightarrow> seen (\<lambda>s. map_of (ms_replay s)) now k s"
    by (auto simp: CheckAndMarkReplay_def Let_def seen_def)
  show "map_of (ms_replay (snd (CheckAndMarkReplay now k s))) k = Some (i64 (now + ReplayWindowSeconds * 1000))"
    if "\<not> seen (\<lambda>s. map_of (ms_replay s)) now k s"
    using that by (auto simp: CheckAndMarkReplay_def Let_def seen_def update_conv' split: option.splits)
  show "map_of (ms_replay (snd (CheckAndMarkReplay now k s))) k' = map_of (ms_replay s) k'"
    if "seen (\<lambda>s. map_of (ms_replay s)) now k' s"
    using that d
    by (auto simp: CheckAndMarkReplay_def Let_def seen_def update_conv' map_of_filter_keys
          split: option.splits)
  show "store_ok (snd (CheckAndMarkReplay now k s))" using ok by (rule CheckAndMarkReplay_ok)
qed

end
