(* ===== verification/Transfer_Life.thy ===== *)
theory Transfer_Life
  imports Store_Machine
begin

text \<open>
  The life of a transfer under the store's operations: how one step may change it (\<open>evolve\<close>), and
  what follows for every sequence of steps. Stored chunks are never overwritten, the description
  of the file never changes, a sealed transfer does not change at all and is whole.
\<close>

section \<open>One step of a transfer\<close>

inductive evolve :: "transferData \<Rightarrow> transferData \<Rightarrow> bool" where
  evolve_keep: "evolve t t"
| evolve_expire: "td_state t \<noteq> TransferComplete \<Longrightarrow> evolve t (t\<lparr>td_state := TransferExpired\<rparr>)"
| evolve_put: "ValidateChunkUpload c = None \<Longrightarrow> put_check c t = None \<Longrightarrow>
    map_of (td_chunks t) (cu_Index c) = None \<Longrightarrow> evolve t (put_new now c t)"
| evolve_seal: "td_state t \<notin> {TransferComplete, TransferCancelled} \<Longrightarrow>
    td_presentCount t = td_chunkCount t \<Longrightarrow>
    evolve t (t\<lparr>td_state := TransferComplete, td_expiresAt := e\<rparr>)"

inductive_cases evolve_cases: "evolve t t'"

lemma evolve_fixed:
  "evolve t t' \<Longrightarrow>
   td_totalSize t' = td_totalSize t \<and> td_chunkSize t' = td_chunkSize t
   \<and> td_chunkCount t' = td_chunkCount t \<and> td_manifest t' = td_manifest t
   \<and> td_senderPub t' = td_senderPub t \<and> td_downloadSecretHash t' = td_downloadSecretHash t
   \<and> td_mailboxID t' = td_mailboxID t \<and> td_hasMailbox t' = td_hasMailbox t
   \<and> td_createdAt t' = td_createdAt t"
  by (auto elim!: evolve_cases)

lemma evolve_chunks: "evolve t t' \<Longrightarrow> map_of (td_chunks t) i = Some p \<Longrightarrow> map_of (td_chunks t') i = Some p"
  by (auto elim!: evolve_cases simp: update_conv')

lemma evolve_sealed: "evolve t t' \<Longrightarrow> td_state t = TransferComplete \<Longrightarrow> t' = t"
  by (auto elim!: evolve_cases simp: put_check_def)

section \<open>Every operation is such a step\<close>

definition creates :: "bytes \<Rightarrow> store_op \<Rightarrow> bool" where
  "creates tid op = (case op of OpCreateTransfer now i tk t \<Rightarrow> i = tid | _ \<Rightarrow> False)"

definition evolves :: "bytes \<Rightarrow> MemStore \<Rightarrow> MemStore \<Rightarrow> bool" where
  "evolves tid s s' \<longleftrightarrow>
     (\<forall>t'. transfer_of s' tid = Some t' \<longrightarrow> (\<exists>t. transfer_of s tid = Some t \<and> evolve t t'))"

lemma evolves_same: "transfer_of s' tid = transfer_of s tid \<Longrightarrow> evolves tid s s'"
  by (auto simp: evolves_def intro: evolve_keep)

lemma evolves_put:
  "transfer_of s k = Some t \<Longrightarrow> evolve t t' \<Longrightarrow> ms_transfers s' = ms_transfers (put_transfer k t' s) \<Longrightarrow>
   evolves tid s s'"
  by (auto simp: evolves_def intro: evolve_keep split: if_splits)

lemma evolves_get: "evolves tid s (snd (getTransferLocked k now s))"
  by (auto simp: getTransferLocked_def evolves_def split: option.splits if_splits
        intro: evolve_keep evolve_expire)

lemma evolves_get_None: "getTransferLocked k now s = (None, s') \<Longrightarrow> evolves tid s s'"
  using evolves_get [of tid s k now] by simp

lemma evolves_PutChunk: "evolves tid s (snd (PutChunk now c s))"
proof (cases "ValidateChunkUpload c")
  case (Some e)
  then show ?thesis by (simp add: PutChunk_def evolves_same)
next
  case None
  let ?k = "copy_array 16 (cu_TransferID c)"
  obtain r s1 where g: "getTransferLocked ?k now s = (r, s1)" by fastforce
  show ?thesis
  proof (cases r)
    case r: None
    with None g show ?thesis
      using evolves_get_None [of ?k now s s1 tid] by (simp add: PutChunk_def Let_def)
  next
    case (Some t)
    then have s1: "s1 = s" and t: "transfer_of s ?k = Some t"
      using g by (simp_all add: getTransferLocked_Some)
    have "evolves tid s (put_transfer ?k (put_new now c t) s)"
      if "put_check c t = None" "map_of (td_chunks t) (cu_Index c) = None"
      using t evolve_put [OF None that] by (intro evolves_put) auto
    moreover have "evolves tid s (slide_mailbox m now (put_transfer ?k (put_new now c t) s))"
      if "put_check c t = None" "map_of (td_chunks t) (cu_Index c) = None" for m
      using t evolve_put [OF None that] by (intro evolves_put) auto
    ultimately show ?thesis
      using None g Some s1 by (auto simp: PutChunk_def Let_def evolves_same split: option.splits)
  qed
qed

lemma evolves_CompleteTransfer: "evolves tid s (snd (CompleteTransfer now t s))"
proof -
  let ?k = "copy_array 16 (tf_TransferID t)"
  have "evolves tid s (put_transfer ?k (tr\<lparr>td_state := TransferComplete, td_expiresAt := e\<rparr>) s)"
    if "transfer_of s ?k = Some tr" "td_state tr \<notin> {TransferComplete, TransferCancelled}"
      "td_presentCount tr = td_chunkCount tr" for tr e
    using that evolve_seal [of tr e] by (intro evolves_put) auto
  then show ?thesis
    by (auto simp: CompleteTransfer_def Let_def getTransferLocked_Some evolves_same
          split: option.splits prod.splits intro: evolves_get_None)
qed

lemma owner_check_frame: "owner_check t mid sec now s = (r, s') \<Longrightarrow> ms_transfers s' = ms_transfers s"
  using owner_check_transfers [of t mid sec now s] by simp

lemma evolves_read:
  "evolves tid s (snd (GetChunk now k mid sec i s))" "evolves tid s (snd (Resume now k mid sec s))"
  "evolves tid s (snd (GetChunkByTicket now k tk i s))" "evolves tid s (snd (ResumeByTicket now k tk s))"
  "evolves tid s (snd (Progress now k s))" "evolves tid s (snd (GetTransfer now k s))"
  by (auto simp: GetChunk_def Resume_def GetChunkByTicket_def ResumeByTicket_def Progress_def
        GetTransfer_def getTransferLocked_Some evolves_same split: option.splits prod.splits
        intro: evolves_get_None dest!: owner_check_frame)

lemma evolves_CancelTransfer: "evolves tid s (snd (CancelTransfer now k mid sec s))"
proof -
  have "evolves tid s (delete_transfer k s')" if "ms_transfers s' = ms_transfers s" for s'
    using that by (auto simp: evolves_def intro: evolve_keep)
  then show ?thesis
    by (auto simp: CancelTransfer_def evolves_same split: option.splits prod.splits
          dest!: owner_check_frame)
qed

lemma evolves_CreateTransfer: "i \<noteq> tid \<Longrightarrow> evolves tid s (snd (CreateTransfer now i tk t s))"
  by (rule evolves_same) (auto simp: CreateTransfer_def Let_def split: option.splits)

lemma evolves_Sweep: "store_ok s \<Longrightarrow> evolves tid s (snd (Sweep now s))"
  by (auto simp: evolves_def store_ok_def Sweep_transfer split: option.splits if_splits
        intro: evolve_keep)

lemma store_step_evolves: "store_ok s \<Longrightarrow> \<not> creates tid op \<Longrightarrow> evolves tid s (store_step op s)"
proof (cases op)
qed (auto simp: creates_def evolves_PutChunk evolves_CompleteTransfer evolves_read
       evolves_CancelTransfer evolves_CreateTransfer evolves_Sweep
       CheckAndMarkReplay_def Let_def intro: evolves_same)

lemma replay_get: "getTransferLocked k now s = (r, s') \<Longrightarrow> ms_replay s' = ms_replay s"
  using getTransferLocked_mailboxes(2) [of k now s] by simp

lemma replay_owner: "owner_check t mid sec now s = (r, s') \<Longrightarrow> ms_replay s' = ms_replay s"
  by (auto simp: owner_check_def split: option.splits if_splits)

section \<open>Sequences of operations\<close>

fun run_ops :: "store_op list \<Rightarrow> MemStore \<Rightarrow> MemStore" where
  "run_ops [] s = s"
| "run_ops (op # ops) s = run_ops ops (store_step op s)"

lemma run_ops_ok: "store_ok s \<Longrightarrow> store_ok (run_ops ops s)"
  by (induction ops arbitrary: s) (simp_all add: store_step_ok)

lemma run_ops_chunk:
  assumes "store_ok s" "\<forall>op \<in> set ops. \<not> creates tid op"
    and "transfer_of (run_ops ops s) tid = Some t'"
  shows "\<exists>t. transfer_of s tid = Some t
      \<and> (\<forall>i p. map_of (td_chunks t) i = Some p \<longrightarrow> map_of (td_chunks t') i = Some p)
      \<and> td_totalSize t' = td_totalSize t \<and> td_chunkSize t' = td_chunkSize t
      \<and> td_chunkCount t' = td_chunkCount t \<and> td_manifest t' = td_manifest t
      \<and> td_senderPub t' = td_senderPub t \<and> td_downloadSecretHash t' = td_downloadSecretHash t
      \<and> (td_state t = TransferComplete \<longrightarrow> t' = t)"
  using assms
proof (induction ops arbitrary: s)
  case Nil
  then show ?case by auto
next
  case (Cons op ops)
  obtain t1 where t1: "transfer_of (store_step op s) tid = Some t1"
    "\<forall>i p. map_of (td_chunks t1) i = Some p \<longrightarrow> map_of (td_chunks t') i = Some p"
    "td_totalSize t' = td_totalSize t1 \<and> td_chunkSize t' = td_chunkSize t1
      \<and> td_chunkCount t' = td_chunkCount t1 \<and> td_manifest t' = td_manifest t1
      \<and> td_senderPub t' = td_senderPub t1 \<and> td_downloadSecretHash t' = td_downloadSecretHash t1"
    "td_state t1 = TransferComplete \<longrightarrow> t' = t1"
    using Cons.IH [of "store_step op s"] Cons.prems by (auto simp: store_step_ok)
  have "evolves tid s (store_step op s)" using Cons.prems by (intro store_step_evolves) auto
  then obtain t where t: "transfer_of s tid = Some t" "evolve t t1"
    using t1(1) by (auto simp: evolves_def)
  with t1 evolve_fixed [OF t(2)] show ?case
    by (auto dest: evolve_chunks evolve_sealed)
qed

text \<open>A replay key stays marked through every operation before its deadline.\<close>

lemma store_step_replay:
  assumes "store_ok s" "map_of (ms_replay s) k = Some e" "op_time op < e"
  shows "map_of (ms_replay (store_step op s)) k = Some e"
proof (cases op)
  case (OpCheckAndMarkReplay now k')
  then show ?thesis
    using assms store_replay.mark_keeps [of s now k k'] by (simp add: seen_def)
next
  case (OpSweep now)
  then show ?thesis
    using assms by (simp add: Sweep_def Let_def map_of_filter_keys store_ok_def)
qed (use assms in \<open>auto simp: PutChunk_def CreateTransfer_def GetChunk_def GetChunkByTicket_def
      GetTransfer_def CompleteTransfer_def CancelTransfer_def Resume_def Progress_def
      ResumeByTicket_def Let_def replay_get replay_owner split: option.splits prod.splits
      dest!: replay_get replay_owner\<close>)

end
