(* ===== verification/Auth.thy ===== *)
theory Auth
  imports Sha256 Errors
begin

text \<open>
  Canonical binary authentication, from \<open>protocol/auth.go\<close>: the canonical bytes of every signed
  request, mailbox id derivation, the clock-skew check and the verification functions. Ed25519
  itself is the argument \<open>verify\<close> (public key, message, signature), so the lemmas hold for
  every verification function; arrays of the source are byte lists of the array's length.

  The lemmas show that two signed requests have the same canonical bytes only if they are of the
  same kind and agree in every field (the payload up to its hash), which timestamps the skew check
  accepts, and that the two mailbox id derivations agree.
\<close>

type_synonym ed25519_verify = "bytes \<Rightarrow> bytes \<Rightarrow> bytes \<Rightarrow> bool"

section \<open>Domains\<close>

definition DomainMsgSend :: bytes where "DomainMsgSend = bytes_of ''FR1/MSG-SEND'' @ [0]"
definition DomainRegister :: bytes where "DomainRegister = bytes_of ''FR1/REGISTER'' @ [0]"
definition DomainChunkPut :: bytes where "DomainChunkPut = bytes_of ''FR1/CHUNK-PUT'' @ [0]"
definition DomainRoutingTable :: bytes where
  "DomainRoutingTable = bytes_of ''FR1/ROUTING-TABLE'' @ [0]"
definition DomainXferCreate :: bytes where "DomainXferCreate = bytes_of ''FR1/XFER-CREATE'' @ [0]"
definition DomainXferComplete :: bytes where
  "DomainXferComplete = bytes_of ''FR1/XFER-COMPLETE'' @ [0]"

section \<open>Mailbox ids\<close>

text \<open>\<open>strings.ToLower\<close> on ASCII text, which is what a hexadecimal key is.\<close>

definition ToLower_char :: "char \<Rightarrow> char" where
  "ToLower_char c =
     (let n = of_char c :: nat in if 65 \<le> n \<and> n \<le> 90 then char_of (n + 32) else c)"

definition MailboxID :: "bytes \<Rightarrow> string \<Rightarrow> bytes" where
  "MailboxID serverSecret edPubHex =
     copy_array 16 (take 16 (hmac_sha256 serverSecret (bytes_of (map ToLower_char edPubHex))))"

definition MailboxIDFromPub :: "bytes \<Rightarrow> bytes \<Rightarrow> bytes" where
  "MailboxIDFromPub serverSecret pub =
     copy_array 16 (take 16 (hmac_sha256 serverSecret (bytes_of (hex_encode pub))))"

section \<open>Canonical bytes\<close>

definition CanonicalMsgSend :: "bytes \<Rightarrow> bytes \<Rightarrow> u64 \<Rightarrow> bytes \<Rightarrow> bytes \<Rightarrow> bytes" where
  "CanonicalMsgSend senderPub mailboxID timestampMS nonce envelope =
     DomainMsgSend @ senderPub @ mailboxID @ be64 timestampMS @ nonce @ sha256 envelope"

definition CanonicalChunkPut :: "bytes \<Rightarrow> bytes \<Rightarrow> u32 \<Rightarrow> u64 \<Rightarrow> bytes \<Rightarrow> bytes" where
  "CanonicalChunkPut senderPub transferID index timestampMS payload =
     DomainChunkPut @ senderPub @ transferID @ be32 index @ be64 timestampMS @ sha256 payload"

definition CanonicalRegister :: "bytes \<Rightarrow> u64 \<Rightarrow> bytes \<Rightarrow> bytes" where
  "CanonicalRegister clientPub timestampMS nonce =
     DomainRegister @ clientPub @ be64 timestampMS @ nonce"

definition CanonicalXferCreate ::
  "bytes \<Rightarrow> bytes \<Rightarrow> u64 \<Rightarrow> u32 \<Rightarrow> u32 \<Rightarrow> u64 \<Rightarrow> bytes \<Rightarrow> bytes \<Rightarrow> bytes" where
  "CanonicalXferCreate senderPub mailboxID totalSize chunkSize chunkCount timestampMS nonce manifest =
     DomainXferCreate @ senderPub @ mailboxID @ be64 totalSize @ be32 chunkSize @ be32 chunkCount
     @ be64 timestampMS @ nonce @ sha256 manifest"

definition CanonicalXferComplete :: "bytes \<Rightarrow> bytes \<Rightarrow> bytes \<Rightarrow> u64 \<Rightarrow> bytes \<Rightarrow> bytes" where
  "CanonicalXferComplete senderPub transferID manifestHash timestampMS nonce =
     DomainXferComplete @ senderPub @ transferID @ manifestHash @ be64 timestampMS @ nonce"

definition Sha256ShardList :: "string list \<Rightarrow> bytes" where
  "Sha256ShardList shards =
     sha256 (concat (map (\<lambda>s. [word_of_nat (length s div 256), word_of_nat (length s)] @ bytes_of s)
                      shards))"

definition CanonicalRoutingTable ::
  "u32 \<Rightarrow> u64 \<Rightarrow> u64 \<Rightarrow> u8 \<Rightarrow> string list \<Rightarrow> bytes \<Rightarrow> bytes" where
  "CanonicalRoutingTable version generated expires algo shards routerPub =
     DomainRoutingTable @ be32 version @ be64 generated @ be64 expires @ [algo]
     @ Sha256ShardList shards @ routerPub"

section \<open>Clock skew and verification\<close>

text \<open>The subtraction and the negation wrap at 64 bits.\<close>

definition CheckSkew :: "u64 \<Rightarrow> int \<Rightarrow> go_error option" where
  "CheckSkew timestampMS nowMillis =
     (let dt = i64 (nowMillis - int64_of_u64 timestampMS);
          dt = (if dt < 0 then i64 (- dt) else dt)
      in if dt > MaxClockSkewMillis then
           Some (perr ErrExpiredRequest ''timestamp outside skew window'')
         else None)"

definition VerifyRegister ::
  "ed25519_verify \<Rightarrow> bytes \<Rightarrow> u64 \<Rightarrow> bytes \<Rightarrow> bytes \<Rightarrow> int \<Rightarrow> go_error option" where
  "VerifyRegister verify pub timestampMS nonce sig nowMillis =
     (if length pub \<noteq> 32 \<or> length sig \<noteq> 64 then Some (perr ErrAuthFailed ''bad pub/sig length'')
      else if \<not> verify pub (CanonicalRegister (copy_array 32 pub) timestampMS nonce) sig then
        Some (perr ErrAuthFailed ''signature verification failed'')
      else CheckSkew timestampMS nowMillis)"

definition VerifyXferCreate ::
  "ed25519_verify \<Rightarrow> bytes \<Rightarrow> bytes \<Rightarrow> u64 \<Rightarrow> u32 \<Rightarrow> u32 \<Rightarrow> u64 \<Rightarrow> bytes \<Rightarrow> bytes \<Rightarrow> bytes \<Rightarrow> int
   \<Rightarrow> go_error option" where
  "VerifyXferCreate verify pub mailboxID totalSize chunkSize chunkCount timestampMS nonce manifest sig
     nowMillis =
     (if length pub \<noteq> 32 \<or> length sig \<noteq> 64 then Some (perr ErrAuthFailed ''bad pub/sig length'')
      else if \<not> verify pub (CanonicalXferCreate (copy_array 32 pub) mailboxID totalSize chunkSize
                              chunkCount timestampMS nonce manifest) sig then
        Some (perr ErrAuthFailed ''signature verification failed'')
      else CheckSkew timestampMS nowMillis)"

definition VerifyXferComplete ::
  "ed25519_verify \<Rightarrow> bytes \<Rightarrow> bytes \<Rightarrow> bytes \<Rightarrow> u64 \<Rightarrow> bytes \<Rightarrow> bytes \<Rightarrow> int \<Rightarrow> go_error option" where
  "VerifyXferComplete verify pub transferID manifestHash timestampMS nonce sig nowMillis =
     (if length pub \<noteq> 32 \<or> length sig \<noteq> 64 then Some (perr ErrAuthFailed ''bad pub/sig length'')
      else if \<not> verify pub (CanonicalXferComplete (copy_array 32 pub) transferID manifestHash
                              timestampMS nonce) sig then
        Some (perr ErrAuthFailed ''signature verification failed'')
      else CheckSkew timestampMS nowMillis)"

definition VerifyMsgSend ::
  "ed25519_verify \<Rightarrow> bytes \<Rightarrow> bytes \<Rightarrow> u64 \<Rightarrow> bytes \<Rightarrow> bytes \<Rightarrow> bytes \<Rightarrow> int \<Rightarrow> go_error option" where
  "VerifyMsgSend verify pub mailboxID timestampMS nonce envelope sig nowMillis =
     (if length pub \<noteq> 32 \<or> length sig \<noteq> 64 then Some (perr ErrAuthFailed ''bad pub/sig length'')
      else if \<not> verify pub (CanonicalMsgSend (copy_array 32 pub) mailboxID timestampMS nonce
                              envelope) sig then
        Some (perr ErrAuthFailed ''signature verification failed'')
      else
        let dt = i64 (nowMillis - int64_of_u64 timestampMS);
            dt = (if dt < 0 then i64 (- dt) else dt)
        in if dt > MaxClockSkewMillis then
             Some (perr ErrExpiredRequest ''timestamp outside skew window'')
           else None)"

text \<open>Signing, for a private key with public part \<open>public\<close> and signing function \<open>sign\<close>.\<close>

definition SignMsgSend ::
  "bytes \<Rightarrow> (bytes \<Rightarrow> bytes) \<Rightarrow> bytes \<Rightarrow> u64 \<Rightarrow> bytes \<Rightarrow> bytes \<Rightarrow> bytes" where
  "SignMsgSend public sign mailboxID timestampMS nonce envelope =
     sign (CanonicalMsgSend (copy_array 32 public) mailboxID timestampMS nonce envelope)"

section \<open>Which timestamps are accepted\<close>

lemma CheckSkew_cases:
  "CheckSkew ts now = None \<longleftrightarrow>
     \<bar>i64 (now - int64_of_u64 ts)\<bar> \<le> MaxClockSkewMillis \<or> i64 (now - int64_of_u64 ts) = - (2 ^ 63)"
proof -
  define dt where "dt = i64 (now - int64_of_u64 ts)"
  have range: "- (2 ^ 63) \<le> dt" "dt < 2 ^ 63"
    using i64_range [of "now - int64_of_u64 ts"] by (auto simp: dt_def)
  have min: "i64 (2 ^ 63) = - (2 ^ 63)" by (simp add: i64_def)
  have "i64 (- dt) = - dt" if "dt \<noteq> - (2 ^ 63)"
    using that range by (intro i64_id) auto
  then show ?thesis
    using range min
    by (cases "dt = - (2 ^ 63)") (auto simp: CheckSkew_def Let_def dt_def [symmetric])
qed

lemma VerifyMsgSend_skew:
  "VerifyMsgSend verify pub mailboxID ts nonce envelope sig now =
     (if length pub \<noteq> 32 \<or> length sig \<noteq> 64 then Some (perr ErrAuthFailed ''bad pub/sig length'')
      else if \<not> verify pub (CanonicalMsgSend pub mailboxID ts nonce envelope) sig then
        Some (perr ErrAuthFailed ''signature verification failed'')
      else CheckSkew ts now)"
  by (simp add: VerifyMsgSend_def CheckSkew_def)


text \<open>
  For a clock that is at least the skew away from both ends of \<open>int64\<close>: the window, and the one
  timestamp whose distance is the smallest \<open>int64\<close>, which negation leaves negative.
\<close>

lemma CheckSkew_window:
  assumes "MaxClockSkewMillis \<le> now" "now < 2 ^ 63 - MaxClockSkewMillis"
  shows "CheckSkew ts now = None \<longleftrightarrow>
           \<bar>now - int (unat ts)\<bar> \<le> MaxClockSkewMillis \<or> int (unat ts) = now + 2 ^ 63"
proof -
  define u where "u = int (unat ts)"
  have u: "0 \<le> u" "u < 2 ^ 64" using u64_bound [of ts] by (simp_all only: u_def of_nat_0_le_iff)
  have ts: "int64_of_u64 ts = i64 u" by (simp only: int64_of_u64_i64 u_def)
  consider "u < 2 ^ 63" | "2 ^ 63 \<le> u" "now - u + 2 ^ 64 < 2 ^ 63" 
    | "2 ^ 63 \<le> u" "2 ^ 63 \<le> now - u + 2 ^ 64"
    by linarith
  then have "CheckSkew ts now = None \<longleftrightarrow> \<bar>now - u\<bar> \<le> MaxClockSkewMillis \<or> u = now + 2 ^ 63"
  proof cases
    case 1
    then have "i64 u = u" "i64 (now - u) = now - u" using u assms by (simp_all add: i64_id)
    then show ?thesis using 1 u assms by (simp add: CheckSkew_cases ts)
  next
    case 2
    then have "i64 u = u - 2 ^ 64" "i64 (now - (u - 2 ^ 64)) = now - (u - 2 ^ 64)"
      using u assms by (simp_all add: i64_id i64_wrap)
    then show ?thesis using 2 u assms by (simp add: CheckSkew_cases ts)
  next
    case 3
    then have "i64 u = u - 2 ^ 64" "i64 (now - (u - 2 ^ 64)) = now - (u - 2 ^ 64) - 2 ^ 64"
      using u assms by (simp_all add: i64_wrap)
    then show ?thesis using 3 u assms by (simp add: CheckSkew_cases ts) linarith
  qed
  then show ?thesis by (simp only: u_def)
qed

section \<open>Mailbox ids do not depend on the case of the key\<close>

lemma ToLower_hextable: "ToLower_char (hextable ! i) = hextable ! i" if "i < 16"
proof -
  have "\<forall>c \<in> set hextable. ToLower_char c = c"
    by (simp add: hextable_def ToLower_char_def)
  then show ?thesis using that by (simp add: length_hextable)
qed

lemma ToLower_hex: "map ToLower_char (hex_encode b) = hex_encode b"
  by (induction b)
     (simp_all add: hex_encode_def ToLower_hextable high_nibble_bound low_nibble_bound)

lemma MailboxID_hex: "MailboxID secret (hex_encode pub) = MailboxIDFromPub secret pub"
  by (simp add: MailboxID_def MailboxIDFromPub_def ToLower_hex)

lemma length_MailboxID [simp, len_simps]:
  "length (MailboxID secret h) = 16" "length (MailboxIDFromPub secret pub) = 16"
  by (simp_all add: MailboxID_def MailboxIDFromPub_def)


section \<open>Canonical bytes determine the request\<close>

text \<open>
  The signed requests of the protocol, each with the arguments of its canonical function, and what
  a signature binds: the same data with every payload replaced by its hash.
\<close>

datatype signed_request =
    Signed_msg_send bytes bytes u64 bytes bytes
  | Signed_chunk_put bytes bytes u32 u64 bytes
  | Signed_register bytes u64 bytes
  | Signed_xfer_create bytes bytes u64 u32 u32 u64 bytes bytes
  | Signed_xfer_complete bytes bytes bytes u64 bytes
  | Signed_routing_table u32 u64 u64 u8 "string list" bytes

fun canonical :: "signed_request \<Rightarrow> bytes" where
  "canonical (Signed_msg_send pub mb ts nonce env) = CanonicalMsgSend pub mb ts nonce env"
| "canonical (Signed_chunk_put pub tid i ts payload) = CanonicalChunkPut pub tid i ts payload"
| "canonical (Signed_register pub ts nonce) = CanonicalRegister pub ts nonce"
| "canonical (Signed_xfer_create pub mb t cs cc ts nonce mf) =
     CanonicalXferCreate pub mb t cs cc ts nonce mf"
| "canonical (Signed_xfer_complete pub tid mh ts nonce) = CanonicalXferComplete pub tid mh ts nonce"
| "canonical (Signed_routing_table v g e a sh pub) = CanonicalRoutingTable v g e a sh pub"

text \<open>The array lengths of the Go signatures.\<close>

fun signed_shape :: "signed_request \<Rightarrow> bool" where
  "signed_shape (Signed_msg_send pub mb ts nonce env) \<longleftrightarrow>
     length pub = 32 \<and> length mb = 16 \<and> length nonce = 16"
| "signed_shape (Signed_chunk_put pub tid i ts payload) \<longleftrightarrow> length pub = 32 \<and> length tid = 16"
| "signed_shape (Signed_register pub ts nonce) \<longleftrightarrow> length pub = 32 \<and> length nonce = 16"
| "signed_shape (Signed_xfer_create pub mb t cs cc ts nonce mf) \<longleftrightarrow>
     length pub = 32 \<and> length mb = 16 \<and> length nonce = 16"
| "signed_shape (Signed_xfer_complete pub tid mh ts nonce) \<longleftrightarrow>
     length pub = 32 \<and> length tid = 16 \<and> length mh = 32 \<and> length nonce = 16"
| "signed_shape (Signed_routing_table v g e a sh pub) \<longleftrightarrow> length pub = 32"

fun same_signed :: "signed_request \<Rightarrow> signed_request \<Rightarrow> bool" where
  "same_signed (Signed_msg_send pub mb ts nonce env) (Signed_msg_send pub' mb' ts' nonce' env') \<longleftrightarrow>
     pub = pub' \<and> mb = mb' \<and> ts = ts' \<and> nonce = nonce' \<and> sha256 env = sha256 env'"
| "same_signed (Signed_chunk_put pub tid i ts p) (Signed_chunk_put pub' tid' i' ts' p') \<longleftrightarrow>
     pub = pub' \<and> tid = tid' \<and> i = i' \<and> ts = ts' \<and> sha256 p = sha256 p'"
| "same_signed (Signed_register pub ts nonce) (Signed_register pub' ts' nonce') \<longleftrightarrow>
     pub = pub' \<and> ts = ts' \<and> nonce = nonce'"
| "same_signed (Signed_xfer_create pub mb t cs cc ts nonce mf)
     (Signed_xfer_create pub' mb' t' cs' cc' ts' nonce' mf') \<longleftrightarrow>
     pub = pub' \<and> mb = mb' \<and> t = t' \<and> cs = cs' \<and> cc = cc' \<and> ts = ts' \<and> nonce = nonce'
     \<and> sha256 mf = sha256 mf'"
| "same_signed (Signed_xfer_complete pub tid mh ts nonce)
     (Signed_xfer_complete pub' tid' mh' ts' nonce') \<longleftrightarrow>
     pub = pub' \<and> tid = tid' \<and> mh = mh' \<and> ts = ts' \<and> nonce = nonce'"
| "same_signed (Signed_routing_table v g e a sh pub) (Signed_routing_table v' g' e' a' sh' pub') \<longleftrightarrow>
     v = v' \<and> g = g' \<and> e = e' \<and> a = a' \<and> Sha256ShardList sh = Sha256ShardList sh' \<and> pub = pub'"
| "same_signed r r' \<longleftrightarrow> False"

lemmas canonical_defs =
  CanonicalMsgSend_def CanonicalChunkPut_def CanonicalRegister_def CanonicalXferCreate_def
  CanonicalXferComplete_def CanonicalRoutingTable_def

lemmas domain_defs =
  DomainMsgSend_def DomainRegister_def DomainChunkPut_def DomainRoutingTable_def
  DomainXferCreate_def DomainXferComplete_def

lemma domains_separate:
  "a \<in> {DomainMsgSend, DomainChunkPut, DomainRegister, DomainXferCreate, DomainXferComplete,
         DomainRoutingTable} \<Longrightarrow>
   b \<in> {DomainMsgSend, DomainChunkPut, DomainRegister, DomainXferCreate, DomainXferComplete,
         DomainRoutingTable} \<Longrightarrow>
   a @ x = b @ y \<longleftrightarrow> a = b \<and> x = y"
  by (elim insertE emptyE; simp add: domain_defs bytes_of_def)

lemma length_Sha256ShardList [simp, len_simps]: "length (Sha256ShardList sh) = 32"
  by (simp add: Sha256ShardList_def)


lemma domains_distinct:
  "distinct [DomainMsgSend, DomainChunkPut, DomainRegister, DomainXferCreate, DomainXferComplete,
     DomainRoutingTable]"
  by (simp add: domain_defs bytes_of_def)

lemma canonical_inject:
  assumes "signed_shape r" "signed_shape r'"
  shows "canonical r = canonical r' \<longleftrightarrow> same_signed r r'"
  using assms domains_distinct domains_distinct [THEN distinct_rev [THEN iffD2]]
  by (cases r; cases r'; simp add: canonical_defs domains_separate)

end
