(* ===== verification/Registry.thy ===== *)
theory Registry
  imports Errors
begin

text \<open>Protocol version, schema ids and HTTP routes, from \<open>protocol/registry.go\<close>.\<close>

abbreviation (input) ProtocolMajor :: u8 where "ProtocolMajor \<equiv> 1"
abbreviation (input) ProtocolMinor :: u8 where "ProtocolMinor \<equiv> 1"

abbreviation (input) SchemaHello :: u8 where "SchemaHello \<equiv> 50"
abbreviation (input) SchemaError :: u8 where "SchemaError \<equiv> 51"
abbreviation (input) SchemaRegisterResponse :: u8 where "SchemaRegisterResponse \<equiv> 53"
abbreviation (input) SchemaResolveResponse :: u8 where "SchemaResolveResponse \<equiv> 55"
abbreviation (input) SchemaRoutingTable :: u8 where "SchemaRoutingTable \<equiv> 56"
abbreviation (input) SchemaSendMessageResponse :: u8 where "SchemaSendMessageResponse \<equiv> 58"
abbreviation (input) SchemaReceiveMessagesResponse :: u8 where "SchemaReceiveMessagesResponse \<equiv> 60"
abbreviation (input) SchemaMessageAckResponse :: u8 where "SchemaMessageAckResponse \<equiv> 62"
abbreviation (input) SchemaTransferCreateResponse :: u8 where "SchemaTransferCreateResponse \<equiv> 64"
abbreviation (input) SchemaChunkAck :: u8 where "SchemaChunkAck \<equiv> 66"
abbreviation (input) SchemaChunkDownloadResponse :: u8 where "SchemaChunkDownloadResponse \<equiv> 68"
abbreviation (input) SchemaResumeResponse :: u8 where "SchemaResumeResponse \<equiv> 70"
abbreviation (input) SchemaTransferCompleteResponse :: u8 where "SchemaTransferCompleteResponse \<equiv> 72"

definition RouteHello :: string where "RouteHello = ''/fr/v1/hello''"
definition RouteRegister :: string where "RouteRegister = ''/fr/v1/register''"
definition RouteResolve :: string where "RouteResolve = ''/fr/v1/resolve''"
definition RouteTable :: string where "RouteTable = ''/fr/v1/table''"
definition RouteSend :: string where "RouteSend = ''/fr/v1/send''"
definition RouteReceive :: string where "RouteReceive = ''/fr/v1/receive''"
definition RouteAck :: string where "RouteAck = ''/fr/v1/ack''"
definition RouteTransferCreate :: string where "RouteTransferCreate = ''/fr/v1/xfer/create''"
definition RouteChunkPut :: string where "RouteChunkPut = ''/fr/v1/xfer/put''"
definition RouteChunkGet :: string where "RouteChunkGet = ''/fr/v1/xfer/get''"
definition RouteResume :: string where "RouteResume = ''/fr/v1/xfer/resume''"
definition RouteComplete :: string where "RouteComplete = ''/fr/v1/xfer/complete''"
definition RouteCancel :: string where "RouteCancel = ''/fr/v1/xfer/cancel''"

lemmas route_defs =
  RouteHello_def RouteRegister_def RouteResolve_def RouteTable_def RouteSend_def RouteReceive_def
  RouteAck_def RouteTransferCreate_def RouteChunkPut_def RouteChunkGet_def RouteResume_def
  RouteComplete_def RouteCancel_def

lemma routes_distinct:
  "distinct [RouteHello, RouteRegister, RouteResolve, RouteTable, RouteSend, RouteReceive, RouteAck,
     RouteTransferCreate, RouteChunkPut, RouteChunkGet, RouteResume, RouteComplete, RouteCancel]"
  by (simp add: route_defs)

end
