(* ===== verification/Client.thy ===== *)
theory Client
  imports Auth Wire_Messages Registry
begin

text \<open>
  The client adapter, from \<open>client/adapter.go\<close>: splitting opaque bytes into chunks, joining URLs,
  and delivering one message. Sending the HTTP request is the argument \<open>http\<close>, which maps
  the request URL and body to a transport error or a status code; the random nonce and message
  id are arguments, \<open>None\<close> when the random source fails. The clock is the one of \<open>client/time.go\<close>.
\<close>

section \<open>Splitting\<close>

function split_loop :: "bytes \<Rightarrow> nat \<Rightarrow> nat \<Rightarrow> bytes list" where
  "split_loop data chunkSize off =
     (if off < length data \<and> 0 < chunkSize then
        let end = (if off + chunkSize > length data then length data else off + chunkSize)
        in take (end - off) (drop off data) # split_loop data chunkSize (off + chunkSize)
      else [])"
  by pat_completeness auto
termination
  by (relation "measure (\<lambda>(data, chunkSize, off). length data - off)") auto

declare split_loop.simps [simp del]

definition SplitOpaque :: "bytes \<Rightarrow> int \<Rightarrow> go_error + bytes list" where
  "SplitOpaque data chunkSize =
     (if chunkSize \<le> 0 \<or> chunkSize > int MaxChunkBytes then
        Inl (ProtoErr \<lparr>Code = ErrChunkInvalid, Detail = [], RetryAfter = 0\<rparr>)
      else if length data > MaxFileBytes then
        Inl (ProtoErr \<lparr>Code = ErrPayloadTooLarge, Detail = [], RetryAfter = 0\<rparr>)
      else Inr (split_loop data (nat chunkSize) 0))"

definition ChunkHash :: "bytes \<Rightarrow> bytes" where "ChunkHash payload = sha256 payload"

section \<open>URLs\<close>

definition TrimRight_slash :: "string \<Rightarrow> string" where
  "TrimRight_slash s = rev (dropWhile (\<lambda>c. c = CHR ''/'') (rev s))"

definition joinURL :: "string \<Rightarrow> string \<Rightarrow> string" where
  "joinURL base route =
     (let base = TrimRight_slash base;
          route = (if \<not> (route \<noteq> [] \<and> hd route = CHR ''/'') then CHR ''/'' # route else route)
      in base @ route)"

section \<open>The clock\<close>

definition testNow :: int where [simp]: "testNow = 1750000000000"

text \<open>The variable \<open>nowMillisFunc\<close>, \<open>None\<close> for nil, with what the function returns.\<close>

definition nowMillisFunc :: "int option" where [simp]: "nowMillisFunc = Some testNow"

definition nowMillis :: "int option \<Rightarrow> int" where
  "nowMillis func = (case func of Some t \<Rightarrow> t | None \<Rightarrow> testNow)"

section \<open>Delivering a message\<close>

definition client_message :: "bytes \<Rightarrow> (bytes \<Rightarrow> bytes) \<Rightarrow> bytes \<Rightarrow> int \<Rightarrow> bytes \<Rightarrow> bytes \<Rightarrow> SendMessage" where
  "client_message pub sign nonce ts mailboxID payload =
     \<lparr>sm_MailboxID = mailboxID, sm_Envelope = payload, sm_SenderPub = pub,
      sm_Timestamp = u64_of_int64 ts, sm_Nonce = nonce,
      sm_Signature = sign (CanonicalMsgSend (copy_array 32 pub) mailboxID (u64_of_int64 ts) nonce payload),
      sm_TTLHintSec = word_of_int MsgTTLSeconds, sm_Burn = 1\<rparr>"

definition Adapter_SendMessage ::
  "nanopack \<Rightarrow> (string \<Rightarrow> bytes \<Rightarrow> go_error + int) \<Rightarrow> string \<Rightarrow> bytes \<Rightarrow> (bytes \<Rightarrow> bytes) \<Rightarrow> bytes option \<Rightarrow> int
   \<Rightarrow> bytes option \<Rightarrow> bytes \<Rightarrow> bytes \<Rightarrow> go_error + bytes" where
  "Adapter_SendMessage np http shardURL pub sign nonce ts msgID mailboxID payload =
     (if length payload = 0 \<or> length payload > MaxMessageBytes then
        Inl (ProtoErr \<lparr>Code = ErrMessageTooLarge, Detail = [], RetryAfter = 0\<rparr>)
      else (case nonce of
        None \<Rightarrow> Inl (ForeignErr ''rand'')
      | Some n \<Rightarrow>
          (case MarshalSendMessage np (client_message pub sign n ts mailboxID payload) of
             Inl e \<Rightarrow> Inl e
           | Inr body \<Rightarrow>
               (case http (joinURL shardURL RouteSend) body of
                  Inl e \<Rightarrow> Inl e
                | Inr status \<Rightarrow>
                    if status \<noteq> 200 then Inl (ForeignErr ''filerelay: send failed'')
                    else (case msgID of None \<Rightarrow> Inl (ForeignErr ''rand'') | Some i \<Rightarrow> Inr i)))))"

section \<open>Splitting loses nothing\<close>

lemma split_loop_chunks: "0 < n \<Longrightarrow> split_loop data n off = chunks n (drop off data)"
proof (induction data n off rule: split_loop.induct)
  case (1 data n off)
  show ?case
  proof (cases "off < length data")
    case True
    have "chunks n (drop off data) = take n (drop off data) # chunks n (drop (off + n) data)"
      using True "1.prems" by (subst chunks.simps) (simp add: add.commute)
    moreover have "take ((if off + n > length data then length data else off + n) - off) (drop off data)
        = take n (drop off data)"
      by simp
    ultimately show ?thesis
      using 1 True by (subst split_loop.simps) (simp add: Let_def)
  next
    case False
    then show ?thesis by (subst split_loop.simps) simp
  qed
qed

lemma SplitOpaque_Inr:
  assumes "SplitOpaque data chunkSize = Inr pieces"
  shows "pieces = chunks (nat chunkSize) data" and "0 < chunkSize" and "chunkSize \<le> int MaxChunkBytes"
    and "length data \<le> MaxFileBytes" and "concat pieces = data"
proof -
  from assms have c: "0 < chunkSize" "chunkSize \<le> int MaxChunkBytes" "length data \<le> MaxFileBytes"
      "pieces = split_loop data (nat chunkSize) 0"
    by (auto simp: SplitOpaque_def not_less split: if_splits)
  then show "pieces = chunks (nat chunkSize) data" by (simp add: split_loop_chunks)
  then show "concat pieces = data" using c by (simp add: concat_chunks)
  show "0 < chunkSize" "chunkSize \<le> int MaxChunkBytes" "length data \<le> MaxFileBytes" by (fact c)+
qed

lemma joinURL_slash: "joinURL (base @ ''/'') route = joinURL base route"
  by (simp add: joinURL_def TrimRight_slash_def)

lemma TrimRight_last: "TrimRight_slash s = [] \<or> last (TrimRight_slash s) \<noteq> CHR ''/''"
proof (cases "dropWhile (\<lambda>c. c = CHR ''/'') (rev s)")
  case Nil
  then show ?thesis by (simp add: TrimRight_slash_def)
next
  case (Cons c cs)
  then have "c \<noteq> CHR ''/''"
    using hd_dropWhile [of "\<lambda>c. c = CHR ''/''" "rev s"] by simp
  then show ?thesis using Cons by (simp add: TrimRight_slash_def)
qed

text \<open>The message the client builds passes the server's signature and skew checks.\<close>

lemma client_message_verifies:
  assumes "length pub = 32" "\<And>m. length (sign m) = 64" "\<And>m. verify pub m (sign m)"
    and "CheckSkew (u64_of_int64 ts) now = None"
    and "msg = client_message pub sign nonce ts mailboxID payload"
  shows "VerifyMsgSend verify pub mailboxID (sm_Timestamp msg) nonce payload (sm_Signature msg) now = None"
  using assms by (simp add: VerifyMsgSend_skew client_message_def)

end
