(* ===== verification/Upload_Download.thy ===== *)
theory Upload_Download
  imports Transfer_Life Client
begin

text \<open>
  A whole transfer, from the client's \<open>SplitOpaque\<close> through the store's operations: the file is
  split, created, uploaded piece by piece, sealed and downloaded with the ticket. The lemmas show
  that each upload is accepted while the transfer is alive and the quota holds, and that the
  downloaded bytes are the file.
\<close>

section \<open>Accepted uploads\<close>

lemma PutChunk_new:
  assumes "ValidateChunkUpload c = None" "transfer_of s (cu_TransferID c) = Some t"
    and "now < td_expiresAt t" "put_check c t = None" "map_of (td_chunks t) (cu_Index c) = None"
    and "td_hasMailbox t \<Longrightarrow>
      mailboxStoredBytesLocked (td_mailboxID t) s + int (length (cu_Payload c)) \<le> MaxStoredBytesPerMailbox"
  shows "PutChunk now c s =
    (Inr (td_presentCount (put_new now c t)),
     (if td_hasMailbox t then slide_mailbox (td_mailboxID t) now else id)
       (put_transfer (cu_TransferID c) (put_new now c t) s))"
proof -
  have "length (cu_TransferID c) = 16" using assms(1) by (simp add: ValidateChunkUpload_None)
  then show ?thesis
    using assms by (simp add: PutChunk_def Let_def getTransferLocked_def not_less)
qed

text \<open>A chunk that is already there: the same bytes are acknowledged, others refused.\<close>

lemma PutChunk_again:
  assumes "ValidateChunkUpload c = None" "transfer_of s (cu_TransferID c) = Some t"
    and "now < td_expiresAt t" "put_check c t = None" "map_of (td_chunks t) (cu_Index c) = Some old"
  shows "PutChunk now c s =
    (if length old = length (cu_Payload c) \<and> sha256 old = sha256 (cu_Payload c)
     then Inr (td_presentCount t)
     else Inl (perr ErrChunkConflict ''chunk exists with different bytes''), s)"
proof -
  have "length (cu_TransferID c) = 16" using assms(1) by (simp add: ValidateChunkUpload_None)
  then show ?thesis
    using assms by (simp add: PutChunk_def Let_def getTransferLocked_def hashBytes_def)
qed

lemma PutChunk_Inr:
  assumes "PutChunk now c s = (Inr n, s')"
  shows "\<exists>t. transfer_of s (cu_TransferID c) = Some t \<and> ValidateChunkUpload c = None
     \<and> put_check c t = None \<and> (now < td_expiresAt t)
     \<and> (case map_of (td_chunks t) (cu_Index c) of
          Some old \<Rightarrow> s' = s \<and> n = td_presentCount t \<and> sha256 old = sha256 (cu_Payload c)
        | None \<Rightarrow> transfer_of s' (cu_TransferID c) = Some (put_new now c t)
                   \<and> n = td_presentCount (put_new now c t))"
proof -
  have v: "ValidateChunkUpload c = None"
    using assms by (auto simp: PutChunk_def split: option.splits)
  then have len: "length (cu_TransferID c) = 16" by (simp add: ValidateChunkUpload_None)
  obtain t where t: "getTransferLocked (cu_TransferID c) now s = (Some t, s)" "put_check c t = None"
    using assms v len
    by (auto simp: PutChunk_def Let_def getTransferLocked_Some split: option.splits prod.splits)
  moreover have "td_state t \<noteq> TransferComplete" using t(2) by (auto simp: put_check_def)
  ultimately have "transfer_of s (cu_TransferID c) = Some t" "now < td_expiresAt t"
    by (simp_all add: getTransferLocked_Some)
  then show ?thesis
    using assms v len t
    by (auto simp: PutChunk_def Let_def hashBytes_def split: option.splits if_splits)
qed

section \<open>Uploading the pieces of a file\<close>

definition piece_upload :: "bytes \<Rightarrow> nat \<Rightarrow> nat \<Rightarrow> bytes \<Rightarrow> ChunkUpload" where
  "piece_upload tid csize i piece =
     \<lparr>cu_TransferID = tid, cu_Index = word_of_nat i, cu_Payload = piece,
      cu_ChunkHash = ChunkHash piece, cu_Offset = word_of_nat (i * csize)\<rparr>"

fun upload_pieces :: "bytes \<Rightarrow> nat \<Rightarrow> nat \<Rightarrow> (int \<times> bytes) list \<Rightarrow> MemStore \<Rightarrow> MemStore option" where
  "upload_pieces tid csize i [] s = Some s"
| "upload_pieces tid csize i ((now, piece) # ps) s =
     (case PutChunk now (piece_upload tid csize i piece) s of
        (Inr n, s') \<Rightarrow> upload_pieces tid csize (Suc i) ps s'
      | (Inl e, s') \<Rightarrow> None)"

fun download :: "int \<Rightarrow> bytes \<Rightarrow> bytes \<Rightarrow> nat list \<Rightarrow> MemStore \<Rightarrow> bytes option" where
  "download now tid ticket [] s = Some []"
| "download now tid ticket (i # is) s =
     (case GetChunkByTicket now tid ticket (word_of_nat i) s of
        (Inr (payload, hash), s') \<Rightarrow>
          if hash = ChunkHash payload then map_option ((@) payload) (download now tid ticket is s') else None
      | (Inl e, s') \<Rightarrow> None)"

text \<open>The piece at position \<open>i\<close> has the length the store demands there.\<close>

lemma piece_length:
  assumes "transfer_ok t" "length data = unat (td_totalSize t)" "i < unat (td_chunkCount t)"
  shows "length (chunks (unat (td_chunkSize t)) data ! i) = chunk_len t i"
proof -
  note b = transfer_ok_bounds [OF assms(1)]
  let ?S = "unat (td_chunkSize t)" and ?T = "unat (td_totalSize t)" and ?C = "unat (td_chunkCount t)"
  have v: "ValidateTransferCreate (td_totalSize t) (td_chunkSize t) (td_chunkCount t) = None"
    using assms(1) by (simp add: transfer_ok_def)
  note acc = accepted_chunk_count [OF v]
  have n: "length (chunks ?S data) = ?C"
    using v b assms(2) by (simp add: length_chunks ValidateTransferCreate_None)
  have len: "length (chunks ?S data ! i) = min ?S (?T - i * ?S)"
    using nth_chunks [of ?S i data] n assms b by (simp add: min.commute)
  show ?thesis
  proof (cases "i = ?C - 1")
    case True
    have "?C * ?S = i * ?S + ?S" using True b by (metis Suc_diff_1 add.commute mult_Suc)
    then have "?T - i * ?S \<le> ?S" using acc(2) by simp
    then show ?thesis using True len by (simp add: chunk_len_def)
  next
    case False
    then have "Suc i \<le> ?C - 1" using assms(3) by simp
    then have "Suc i * ?S \<le> (?C - 1) * ?S" by (rule mult_le_mono1)
    then have "?S \<le> ?T - i * ?S" using acc(1) by simp
    then show ?thesis using False len by (simp add: chunk_len_def)
  qed
qed

lemma piece_accepted:
  assumes ok: "transfer_ok t" and data: "length data = unat (td_totalSize t)"
    and i: "i < unat (td_chunkCount t)" and tid: "length tid = 16"
    and st: "td_state t \<in> {TransferCreated, TransferUploading}"
  defines "c \<equiv> piece_upload tid (unat (td_chunkSize t)) i (chunks (unat (td_chunkSize t)) data ! i)"
  shows "ValidateChunkUpload c = None" and "put_check c t = None"
proof -
  note b = transfer_ok_bounds [OF ok]
  let ?p = "chunks (unat (td_chunkSize t)) data ! i"
  have len: "length ?p = chunk_len t i" by (rule piece_length [OF ok data i])
  have ui: "unat (word_of_nat i :: u32) = i" using i b by (simp add: unat_of_nat)
  have acc: "(unat (td_chunkCount t) - 1) * unat (td_chunkSize t) < unat (td_totalSize t)"
      "unat (td_totalSize t) \<le> unat (td_chunkCount t) * unat (td_chunkSize t)"
    using ok accepted_chunk_count by (simp_all add: transfer_ok_def)
  have "chunk_len t i \<le> unat (td_chunkSize t) \<and> 0 < chunk_len t i"
  proof (cases "i = unat (td_chunkCount t) - 1")
    case True
    have "unat (td_chunkCount t) * unat (td_chunkSize t) = i * unat (td_chunkSize t) + unat (td_chunkSize t)"
      using True b by (metis Suc_diff_1 add.commute mult_Suc)
    then show ?thesis using True acc by (simp add: chunk_len_def)
  qed (use b in \<open>simp add: chunk_len_def\<close>)
  then have plen: "0 < length ?p" "length ?p \<le> 65536" using len b by simp_all
  then show "ValidateChunkUpload c = None"
    using tid i b by (simp add: ValidateChunkUpload_None c_def piece_upload_def ui ChunkHash_def)
  have off: "(ucast (word_of_nat i :: u32) * ucast (td_chunkSize t) :: u64)
      = word_of_nat (i * unat (td_chunkSize t))"
  proof -
    have "unat (ucast (word_of_nat i :: u32) * ucast (td_chunkSize t) :: u64) = i * unat (td_chunkSize t)"
      using offset_nat [of "word_of_nat i" "td_chunkSize t"] ui i b by simp
    from arg_cong [OF this, of "word_of_nat :: nat \<Rightarrow> u64"] show ?thesis by simp
  qed
  have lt: "\<not> td_chunkCount t \<le> word_of_nat i" using ui i by (simp add: word_le_nat_alt)
  have last: "word_of_nat i = td_chunkCount t - 1 \<longleftrightarrow> i = unat (td_chunkCount t) - 1"
    using ui b by (metis unat_minus_one unat_gt_0 neq0_conv word_unat_eq_iff unat_0)
  have "word_of_nat (length ?p) = (ucast (td_chunkSize t) :: u64)"
    if "i \<noteq> unat (td_chunkCount t) - 1"
    using that len by (simp add: chunk_len_def word_unat_eq_iff unsigned_ucast_eq) 
  moreover have "word_of_nat (length ?p) = td_totalSize t - word_of_nat (i * unat (td_chunkSize t))"
    if "i = unat (td_chunkCount t) - 1"
    using that len acc by (simp add: chunk_len_def of_nat_diff less_imp_le)
  ultimately show "put_check c t = None"
    using st lt last off
    by (auto simp: put_check_def c_def piece_upload_def Let_def ChunkHash_def)
qed

text \<open>Bytes counted for the mailbox after a new chunk.\<close>

lemma stored_slide [simp]:
  "mailboxStoredBytesLocked mid (slide_mailbox m now s) = mailboxStoredBytesLocked mid s"
  by (auto simp: mailboxStoredBytesLocked_def slide_mailbox_def split: option.splits)

lemma stored_put_new:
  assumes "transfers_ok s" "transfer_of s tid = Some t" "\<not> td_present t ! unat (cu_Index c)"
    and "td_hasMailbox t" "td_mailboxID t = mid"
  shows "mailboxStoredBytesLocked mid (put_transfer tid (put_new now c t) s)
      = mailboxStoredBytesLocked mid s + int (length (cu_Payload c))"
  using assms transfer_bytes_update [of "ms_transfers s" mid tid "put_new now c t"]
  by (simp add: mailboxStoredBytesLocked_def transfers_ok_def put_transfer_def
        counted_bytes_put_new)

text \<open>The first \<open>i\<close> pieces are in, the others missing, and every time of the window is in time.\<close>

definition upload_state :: "bytes \<Rightarrow> bytes \<Rightarrow> nat \<Rightarrow> transferData \<Rightarrow> MemStore \<Rightarrow> bool" where
  "upload_state tid data i t s \<longleftrightarrow>
     store_ok s \<and> transfer_of s tid = Some t \<and> length tid = 16
     \<and> length data = unat (td_totalSize t)
     \<and> td_state t \<in> {TransferCreated, TransferUploading}
     \<and> 0 \<le> td_createdAt t \<and> td_createdAt t < 2 ^ 62
     \<and> td_createdAt t + UploadTTLSeconds * 1000 \<le> td_expiresAt t
     \<and> (\<forall>j < unat (td_chunkCount t). map_of (td_chunks t) (word_of_nat j)
          = (if j < i then Some (chunks (unat (td_chunkSize t)) data ! j) else None))
     \<and> (td_hasMailbox t \<longrightarrow> mailboxStoredBytesLocked (td_mailboxID t) s
          + int (length (concat (drop i (chunks (unat (td_chunkSize t)) data)))) \<le> MaxStoredBytesPerMailbox)"

definition in_window :: "transferData \<Rightarrow> int \<Rightarrow> bool" where
  "in_window t now \<longleftrightarrow> td_createdAt t \<le> now \<and> now < td_createdAt t + UploadTTLSeconds * 1000"

lemma word_of_nat_eq_u32: "i < 16384 \<Longrightarrow> j < 16384 \<Longrightarrow> (word_of_nat i :: u32) = word_of_nat j \<longleftrightarrow> i = j"
  by (simp add: word_unat_eq_iff unat_of_nat)

lemma upload_step:
  assumes st: "upload_state tid data i t s" and i: "i < unat (td_chunkCount t)" and w: "in_window t now"
  defines "c \<equiv> piece_upload tid (unat (td_chunkSize t)) i (chunks (unat (td_chunkSize t)) data ! i)"
  shows "\<exists>s'. PutChunk now c s = (Inr (td_presentCount (put_new now c t)), s')
           \<and> upload_state tid data (Suc i) (put_new now c t) s'"
proof -
  let ?P = "chunks (unat (td_chunkSize t)) data" and ?t' = "put_new now c t"
  note u = st [unfolded upload_state_def]
  have ok: "transfer_ok t" using u by (auto dest: store_ok_transfer)
  note b = transfer_ok_bounds [OF ok]
  have c: "ValidateChunkUpload c = None" "put_check c t = None"
    unfolding c_def using u i by (auto intro!: piece_accepted [OF ok])
  have sel: "cu_TransferID c = tid" "cu_Index c = word_of_nat i" "cu_Payload c = ?P ! i"
    by (simp_all add: c_def piece_upload_def)
  have new: "map_of (td_chunks t) (cu_Index c) = None" using u i by (simp add: sel)
  have fresh: "\<not> td_present t ! unat (cu_Index c)"
    using ok new put_check_None(1) [OF ok c] by (auto simp: transfer_ok_def chunk_present)
  have n: "length ?P = unat (td_chunkCount t)"
    using ok u by (simp add: length_chunks transfer_ok_def ValidateTransferCreate_None)
  have rest: "concat (drop i ?P) = ?P ! i @ concat (drop (Suc i) ?P)"
    using i n Cons_nth_drop_Suc [of i ?P] by (metis concat.simps(2))
  have quota: "mailboxStoredBytesLocked (td_mailboxID t) s + int (length (?P ! i)) \<le> MaxStoredBytesPerMailbox"
    if "td_hasMailbox t" using u that by (simp add: rest)
  have now: "now < td_expiresAt t" using u w by (simp add: in_window_def)
  define s' where "s' = (if td_hasMailbox t then slide_mailbox (td_mailboxID t) now else id)
      (put_transfer tid ?t' s)"
  have put: "PutChunk now c s = (Inr (td_presentCount ?t'), s')"
    using PutChunk_new [OF c(1) _ now c(2) new] u quota by (simp add: sel s'_def)
  have "store_ok s'" using PutChunk_ok [of s now c] put u by simp
  moreover have "transfer_of s' tid = Some ?t'" by (simp add: s'_def)
  moreover have "map_of (td_chunks ?t') (word_of_nat j) = (if j < Suc i then Some (?P ! j) else None)"
    if "j < unat (td_chunkCount t)" for j
    using u that i b word_of_nat_eq_u32 [of j i] by (auto simp: update_conv' sel less_Suc_eq)
  moreover have "mailboxStoredBytesLocked (td_mailboxID t) s' + int (length (concat (drop (Suc i) ?P)))
      \<le> MaxStoredBytesPerMailbox" if "td_hasMailbox t"
    using stored_put_new [of s tid t c "td_mailboxID t" now] u fresh that
    by (simp add: s'_def sel rest store_ok_def)
  moreover have "td_createdAt t + UploadTTLSeconds * 1000 \<le> td_expiresAt ?t'"
    using u w by (simp add: in_window_def i64_id)
  ultimately show ?thesis
    using put u put_check_None(5) [OF ok c] by (auto simp: upload_state_def)
qed

lemma upload_all:
  assumes "upload_state tid data i t s" "\<forall>x \<in> set nows. in_window t x"
    and "length nows = unat (td_chunkCount t) - i" "i \<le> unat (td_chunkCount t)"
  shows "\<exists>t' s'. upload_pieces tid (unat (td_chunkSize t)) i
             (zip nows (drop i (chunks (unat (td_chunkSize t)) data))) s = Some s'
           \<and> upload_state tid data (unat (td_chunkCount t)) t' s'
           \<and> td_chunkSize t' = td_chunkSize t \<and> td_chunkCount t' = td_chunkCount t
           \<and> td_createdAt t' = td_createdAt t \<and> td_downloadSecretHash t' = td_downloadSecretHash t"
  using assms
proof (induction nows arbitrary: i t s)
  case Nil
  then show ?case by auto
next
  case (Cons now nows)
  let ?S = "unat (td_chunkSize t)"
  let ?c = "piece_upload tid ?S i (chunks ?S data ! i)"
  have i: "i < unat (td_chunkCount t)" using Cons.prems(3) by simp
  obtain s1 where s1: "PutChunk now ?c s = (Inr (td_presentCount (put_new now ?c t)), s1)"
      "upload_state tid data (Suc i) (put_new now ?c t) s1"
    using upload_step [OF Cons.prems(1) i, of now] Cons.prems(2) by auto
  have "transfer_ok t" using Cons.prems(1) by (auto simp: upload_state_def dest: store_ok_transfer)
  then have "length (chunks ?S data) = unat (td_chunkCount t)"
    using Cons.prems(1) by (simp add: upload_state_def length_chunks transfer_ok_def ValidateTransferCreate_None)
  then have drop: "drop i (chunks ?S data) = chunks ?S data ! i # drop (Suc i) (chunks ?S data)"
    using i by (simp add: Cons_nth_drop_Suc)
  show ?case
    using Cons.IH [OF s1(2)] Cons.prems i s1(1) by (simp add: drop in_window_def)
qed

section \<open>Sealing and downloading\<close>

lemma all_flags: "length (filter (\<lambda>b. b) xs) = length xs \<longleftrightarrow> (\<forall>i < length xs. xs ! i)"
  by (metis filter_id_conv in_set_conv_nth length_filter_less nat_neq_iff nth_mem)

text \<open>The counter equals the count exactly when every chunk is there.\<close>

lemma present_all_iff:
  assumes ok: "transfer_ok t"
  shows "td_presentCount t = td_chunkCount t \<longleftrightarrow>
         (\<forall>j < unat (td_chunkCount t). map_of (td_chunks t) (word_of_nat j) \<noteq> None)"
proof -
  note b = transfer_ok_bounds [OF ok]
  have "map_of (td_chunks t) (word_of_nat j) = None \<longleftrightarrow> \<not> td_present t ! j"
    if "j < unat (td_chunkCount t)" for j
  proof -
    have "unat (word_of_nat j :: u32) = j" using that b by (simp add: unat_of_nat)
    then show ?thesis
      using chunk_present [of t "word_of_nat j"] ok that by (simp add: transfer_ok_def word_less_nat_alt)
  qed
  moreover have "td_presentCount t = td_chunkCount t \<longleftrightarrow> (\<forall>j < unat (td_chunkCount t). td_present t ! j)"
    using ok all_flags [of "td_present t"] by (simp add: transfer_ok_def word_unat_eq_iff)
  ultimately show ?thesis by blast
qed

definition sealed_result :: "transferData \<Rightarrow> complete_result" where
  "sealed_result t =
     \<lparr>cr_sealed = True, cr_present = td_presentCount t, cr_count = td_chunkCount t, cr_err = None\<rparr>"

lemma CompleteTransfer_seals:
  assumes "ValidateTransferComplete req = None" "transfer_of s (tf_TransferID req) = Some t"
    and "now < td_expiresAt t" "td_state t \<notin> {TransferComplete, TransferCancelled}"
    and "td_presentCount t = td_chunkCount t"
  shows "CompleteTransfer now req s =
    (sealed_result t, put_transfer (tf_TransferID req)
       (t\<lparr>td_state := TransferComplete, td_expiresAt := i64 (now + CompleteTTLSeconds * 1000)\<rparr>) s)"
proof -
  have "length (tf_TransferID req) = 16" using assms(1) by (simp add: ValidateTransferComplete_None)
  then show ?thesis
    using assms by (simp add: CompleteTransfer_def Let_def getTransferLocked_def sealed_result_def)
qed

lemma CompleteTransfer_sealed:
  assumes "CompleteTransfer now req s = (r, s')" "cr_err r = None" "store_ok s"
  shows "cr_sealed r \<and> (\<exists>t. transfer_of s' (tf_TransferID req) = Some t \<and> td_state t = TransferComplete
           \<and> (\<forall>j < unat (td_chunkCount t). \<exists>p. map_of (td_chunks t) (word_of_nat j) = Some p
                \<and> length p = chunk_len t j \<and> map_of (td_hashes t) (word_of_nat j) = Some (sha256 p)))"
proof -
  have ok': "store_ok s'" using CompleteTransfer_ok [OF assms(3), of now req] assms(1) by simp
  have v: "length (tf_TransferID req) = 16"
    using assms by (auto simp: CompleteTransfer_def Let_def ValidateTransferComplete_None split: option.splits)
  have seal: "cr_sealed r \<and> (\<exists>t. transfer_of s' (tf_TransferID req) = Some t \<and> td_state t = TransferComplete)"
    using assms(1,2) v
    by (auto simp: CompleteTransfer_def Let_def getTransferLocked_Some
          split: option.splits prod.splits if_splits)
  then obtain t where t: "transfer_of s' (tf_TransferID req) = Some t" "td_state t = TransferComplete"
    by blast
  have ok: "transfer_ok t" using ok' t by (blast dest: store_ok_transfer)
  note b = transfer_ok_bounds [OF ok]
  have "\<exists>p. map_of (td_chunks t) (word_of_nat j) = Some p \<and> length p = chunk_len t j
      \<and> map_of (td_hashes t) (word_of_nat j) = Some (sha256 p)" if j: "j < unat (td_chunkCount t)" for j
  proof -
    have "unat (word_of_nat j :: u32) = j" using j b by (simp add: unat_of_nat)
    moreover have "td_presentCount t = td_chunkCount t" using ok t(2) by (simp add: transfer_ok_def)
    then obtain p where "map_of (td_chunks t) (word_of_nat j) = Some p"
      using present_all_iff [OF ok] j by auto
    moreover have "chunk_map_ok t" using ok by (simp add: transfer_ok_def)
    ultimately show ?thesis unfolding chunk_map_ok_def by metis
  qed
  with seal t show ?thesis by blast
qed

lemma ticket_chunk:
  assumes "transfer_of s tid = Some t" "td_state t = TransferComplete \<or> now < td_expiresAt t"
    and "length ticket = 32" "td_downloadSecretHash t = sha256 ticket" "transfer_ok t"
    and "j < unat (td_chunkCount t)" "map_of (td_chunks t) (word_of_nat j) = Some p"
  shows "GetChunkByTicket now tid ticket (word_of_nat j) s = (Inr (p, sha256 p), s)"
proof -
  have "unat (word_of_nat j :: u32) = j"
    using assms(6) transfer_ok_bounds [OF assms(5)] by (simp add: unat_of_nat)
  then have "\<not> td_chunkCount t \<le> word_of_nat j" using assms(6) by (simp add: word_le_nat_alt)
  moreover have "map_of (td_hashes t) (word_of_nat j) = Some (sha256 p)"
    using assms(5,7) by (simp add: transfer_ok_def chunk_map_ok_def)
  ultimately show ?thesis
    using assms by (auto simp: GetChunkByTicket_def getTransferLocked_def checkTicketLocked_def read_chunk_def)
qed

lemma download_chunks:
  assumes "transfer_of s tid = Some t" "td_state t = TransferComplete \<or> now < td_expiresAt t"
    and "length ticket = 32" "td_downloadSecretHash t = sha256 ticket" "transfer_ok t"
    and "\<forall>j \<in> set js. j < unat (td_chunkCount t) \<and> map_of (td_chunks t) (word_of_nat j) = Some (f j)"
  shows "download now tid ticket js s = Some (concat (map f js))"
  using assms(6) by (induction js) (simp_all add: ticket_chunk [OF assms(1-5)] ChunkHash_def)

section \<open>From creation to download\<close>

definition request_mailbox :: "TransferCreate \<Rightarrow> bytes" where
  "request_mailbox req = (if length (tc_MailboxID req) = 16 then tc_MailboxID req else replicate 16 0)"

lemma CreateTransfer_Inr:
  assumes "CreateTransfer now newID ticket req s = (Inr (tid, tk, exp), s')"
  shows "ValidateTransferCreateMsg req = None" "tid = newID" "ticket = Some tk"
    and "\<exists>t. transfer_of s' newID = Some t \<and> td_chunks t = [] \<and> td_state t = TransferCreated
           \<and> td_createdAt t = now \<and> td_expiresAt t = int64_of_u64 exp
           \<and> td_totalSize t = tc_TotalSize req \<and> td_chunkSize t = tc_ChunkSize req
           \<and> td_chunkCount t = tc_ChunkCount req \<and> td_manifest t = tc_Manifest req
           \<and> td_downloadSecretHash t = sha256 tk \<and> td_storedBytes t = 0
           \<and> td_hasMailbox t = (length (tc_MailboxID req) = 16) \<and> td_mailboxID t = request_mailbox req
           \<and> td_senderPub t = tc_SenderPub req"
    and "exp = u64_of_int64 (i64 (now + UploadTTLSeconds * 1000))"
    and "store_ok s \<Longrightarrow> mailboxStoredBytesLocked mid s' \<le> mailboxStoredBytesLocked mid s
           + (if length (tc_MailboxID req) = 16 \<and> mid = tc_MailboxID req then int (length (tc_Manifest req)) else 0)"
proof -
  show v: "ValidateTransferCreateMsg req = None" and "tid = newID" and tk: "ticket = Some tk"
    and "exp = u64_of_int64 (i64 (now + UploadTTLSeconds * 1000))"
    using assms by (auto simp: CreateTransfer_def Let_def split: option.splits if_splits)
  define m where "m = request_mailbox req"
  obtain td where td: "s' = (if length (tc_MailboxID req) = 16 then slide_mailbox m now else id)
        (put_transfer newID td s)"
      "td_chunks td = []" "td_state td = TransferCreated"
      "td_createdAt td = now" "td_expiresAt td = int64_of_u64 exp"
      "td_totalSize td = tc_TotalSize req" "td_chunkSize td = tc_ChunkSize req"
      "td_chunkCount td = tc_ChunkCount req" "td_manifest td = tc_Manifest req"
      "td_downloadSecretHash td = sha256 tk" "td_storedBytes td = 0"
      "td_hasMailbox td = (length (tc_MailboxID req) = 16)" "td_mailboxID td = m"
      "td_senderPub td = tc_SenderPub req"
    using assms v tk
    by (auto simp: CreateTransfer_def Let_def m_def request_mailbox_def split: if_splits)
  then show "\<exists>t. transfer_of s' newID = Some t \<and> td_chunks t = [] \<and> td_state t = TransferCreated
           \<and> td_createdAt t = now \<and> td_expiresAt t = int64_of_u64 exp
           \<and> td_totalSize t = tc_TotalSize req \<and> td_chunkSize t = tc_ChunkSize req
           \<and> td_chunkCount t = tc_ChunkCount req \<and> td_manifest t = tc_Manifest req
           \<and> td_downloadSecretHash t = sha256 tk \<and> td_storedBytes t = 0
           \<and> td_hasMailbox t = (length (tc_MailboxID req) = 16) \<and> td_mailboxID t = request_mailbox req
           \<and> td_senderPub t = tc_SenderPub req"
    by (auto simp: m_def)
  show "mailboxStoredBytesLocked mid s' \<le> mailboxStoredBytesLocked mid s
      + (if length (tc_MailboxID req) = 16 \<and> mid = tc_MailboxID req then int (length (tc_Manifest req)) else 0)"
    if "store_ok s"
  proof -
    have "0 \<le> (case transfer_of s newID of None \<Rightarrow> 0 | Some old \<Rightarrow> counted_bytes mid old)"
      using that by (auto intro: counted_bytes_nonneg dest: store_ok_transfer split: option.splits)
    moreover have "mailboxStoredBytesLocked mid s' = mailboxStoredBytesLocked mid (put_transfer newID td s)"
      using td(1) by simp
    ultimately show ?thesis
      using that td transfer_bytes_update [of "ms_transfers s" mid newID td]
      by (auto simp: mailboxStoredBytesLocked_def put_transfer_def counted_bytes_def store_ok_def
            transfers_ok_def m_def request_mailbox_def)
  qed
qed

lemma created_upload_state:
  assumes cr: "CreateTransfer t0 tid ticket req s = (Inr (tid', tk, exp), s')" and ok: "store_ok s"
    and tid: "length tid = 16" and data: "length data = unat (tc_TotalSize req)"
    and t0: "0 \<le> t0" "t0 < 2 ^ 62"
    and quota: "length (tc_MailboxID req) = 16 \<Longrightarrow> mailboxStoredBytesLocked (tc_MailboxID req) s
      + int (length (tc_Manifest req)) + int (length data) \<le> MaxStoredBytesPerMailbox"
  shows "\<exists>t. upload_state tid data 0 t s' \<and> td_createdAt t = t0 \<and> td_downloadSecretHash t = sha256 tk
           \<and> td_chunkSize t = tc_ChunkSize req \<and> td_chunkCount t = tc_ChunkCount req
           \<and> td_senderPub t = tc_SenderPub req"
proof -
  obtain t where t: "transfer_of s' tid = Some t" "td_chunks t = []" "td_state t = TransferCreated"
      "td_createdAt t = t0" "td_expiresAt t = int64_of_u64 exp" "td_totalSize t = tc_TotalSize req"
      "td_chunkSize t = tc_ChunkSize req" "td_chunkCount t = tc_ChunkCount req"
      "td_downloadSecretHash t = sha256 tk"
      "td_hasMailbox t = (length (tc_MailboxID req) = 16)" "td_mailboxID t = request_mailbox req"
      "td_senderPub t = tc_SenderPub req"
    using CreateTransfer_Inr(4) [OF cr] by blast
  have ok': "store_ok s'" using CreateTransfer_ok [OF ok, of t0 tid ticket req] cr by simp
  have "0 < unat (td_chunkSize t)" using ok' t(1) by (auto dest: store_ok_transfer transfer_ok_bounds(1))
  then have "concat (chunks (unat (td_chunkSize t)) data) = data" by (rule concat_chunks)
  moreover have "td_createdAt t + UploadTTLSeconds * 1000 \<le> td_expiresAt t"
    using t t0 CreateTransfer_Inr(5) [OF cr] by (simp add: i64_id int64_u64_id)
  moreover have "mailboxStoredBytesLocked (td_mailboxID t) s' + int (length data) \<le> MaxStoredBytesPerMailbox"
    if "td_hasMailbox t"
    using that t quota CreateTransfer_Inr(6) [OF cr ok, of "tc_MailboxID req"]
    by (simp add: request_mailbox_def)
  ultimately have "upload_state tid data 0 t s'"
    using ok' t tid data t0 by (simp add: upload_state_def)
  with t show ?thesis by blast
qed

text \<open>
  A file whose pieces are uploaded in order within a day of creation, with room in the mailbox,
  can be sealed, and the holder of the ticket reads it back at any later time until it is swept.
\<close>

lemma upload_seal_download:
  assumes cr: "CreateTransfer t0 tid ticket req s = (Inr (tid', tk, exp), s0)" and ok: "store_ok s"
    and tid: "length tid = 16" and tk: "length tk = 32"
    and split: "SplitOpaque data (int (unat (tc_ChunkSize req))) = Inr pieces"
    and data: "length data = unat (tc_TotalSize req)" and t0: "0 \<le> t0" "t0 < 2 ^ 62"
    and quota: "length (tc_MailboxID req) = 16 \<Longrightarrow> mailboxStoredBytesLocked (tc_MailboxID req) s
      + int (length (tc_Manifest req)) + int (length data) \<le> MaxStoredBytesPerMailbox"
    and nows: "length nows = unat (tc_ChunkCount req)" "\<forall>x \<in> set (t1 # nows). t0 \<le> x \<and> x < t0 + 86400000"
    and seal: "ValidateTransferComplete fin = None" "tf_TransferID fin = tid"
  shows "\<exists>s1 s2. upload_pieces tid (unat (tc_ChunkSize req)) 0 (zip nows pieces) s0 = Some s1
      \<and> CompleteTransfer t1 fin s1 = (\<lparr>cr_sealed = True, cr_present = tc_ChunkCount req,
             cr_count = tc_ChunkCount req, cr_err = None\<rparr>, s2)
      \<and> (\<forall>t2. download t2 tid tk [0..<unat (tc_ChunkCount req)] s2 = Some data)"
proof -
  let ?S = "unat (tc_ChunkSize req)" and ?C = "unat (tc_ChunkCount req)"
  have pieces: "pieces = chunks ?S data" "concat pieces = data"
    using SplitOpaque_Inr(1,5) [OF split] by simp_all
  obtain t where t: "upload_state tid data 0 t s0" "td_createdAt t = t0"
      "td_downloadSecretHash t = sha256 tk" "td_chunkSize t = tc_ChunkSize req"
      "td_chunkCount t = tc_ChunkCount req"
    using created_upload_state [OF cr ok tid data t0 quota] by blast
  obtain t' s1 where s1: "upload_pieces tid ?S 0 (zip nows pieces) s0 = Some s1"
      "upload_state tid data ?C t' s1" "td_chunkSize t' = td_chunkSize t"
      "td_chunkCount t' = td_chunkCount t" "td_createdAt t' = td_createdAt t"
      "td_downloadSecretHash t' = td_downloadSecretHash t"
    using upload_all [OF t(1), of nows] nows t pieces(1) by (auto simp: in_window_def)
  note u = s1(2) [unfolded upload_state_def]
  have ok': "transfer_ok t'" using u by (auto dest: store_ok_transfer)
  have full: "td_presentCount t' = td_chunkCount t'"
    using u s1(4) t(5) by (subst present_all_iff [OF ok']) simp
  have now: "t1 < td_expiresAt t'" using u nows(2) s1(5) t(2) by simp
  define s2 where "s2 = put_transfer tid
      (t'\<lparr>td_state := TransferComplete, td_expiresAt := i64 (t1 + CompleteTTLSeconds * 1000)\<rparr>) s1"
  have "CompleteTransfer t1 fin s1 = (sealed_result t', s2)"
    using CompleteTransfer_seals [OF seal(1) _ now _ full] u seal(2) by (auto simp: s2_def)
  moreover have "download t2 tid tk [0..<?C] s2 = Some data" for t2
  proof -
    have n: "length (chunks ?S data) = ?C"
      using ok' u s1(3,4) t(4,5) by (simp add: length_chunks transfer_ok_def ValidateTransferCreate_None)
    have "download t2 tid tk [0..<?C] s2 = Some (concat (map (\<lambda>j. chunks ?S data ! j) [0..<?C]))"
      by (rule download_chunks [where t = "t'\<lparr>td_state := TransferComplete,
              td_expiresAt := i64 (t1 + CompleteTTLSeconds * 1000)\<rparr>"])
         (use u s1 t tk full in \<open>simp_all add: s2_def transfer_ok_state [OF ok']\<close>)
    then show ?thesis using n pieces map_nth [of "chunks ?S data"] by simp
  qed
  ultimately show ?thesis
    using s1(1) full s1(4) t(5) by (auto simp: sealed_result_def)
qed

end
