(* ===== verification/Examples.thy ===== *)
theory Examples
  imports Upload_Download
begin

text \<open>Concrete keys, requests and store states at which the properties are instantiated.\<close>

definition ex_id :: bytes where "ex_id = replicate 16 1"
definition ex_nonce :: bytes where "ex_nonce = replicate 16 2"
definition ex_pub :: bytes where "ex_pub = replicate 32 3"
definition ex_secret :: bytes where "ex_secret = replicate 32 4"
definition ex_sig :: bytes where "ex_sig = replicate 64 5"

lemma ex_lengths [simp]:
  "length ex_id = 16" "length ex_nonce = 16" "length ex_pub = 32" "length ex_secret = 32"
  "length ex_sig = 64"
  by (simp_all add: ex_id_def ex_nonce_def ex_pub_def ex_secret_def ex_sig_def)

text \<open>A store with one mailbox, a message for it and a two-chunk transfer without a mailbox.\<close>

definition ex_mailbox :: MemStore where
  "ex_mailbox = snd (CreateMailbox 0 ex_id (sha256 ex_secret) NewMemStore)"

definition ex_message :: SendMessage where
  "ex_message =
     \<lparr>sm_MailboxID = ex_id, sm_Envelope = [7, 8], sm_SenderPub = ex_pub, sm_Timestamp = 100000,
      sm_Nonce = ex_nonce, sm_Signature = ex_sig, sm_TTLHintSec = 0, sm_Burn = 0\<rparr>"

definition ex_create :: TransferCreate where
  "ex_create =
     \<lparr>tc_MailboxID = [], tc_TotalSize = 3, tc_ChunkSize = 2, tc_ChunkCount = 2, tc_Manifest = [],
      tc_SenderPub = ex_pub, tc_Timestamp = 100000, tc_Nonce = ex_nonce, tc_Signature = ex_sig\<rparr>"

definition ex_finish :: TransferComplete where
  "ex_finish =
     \<lparr>tf_TransferID = ex_id, tf_ManifestHash = replicate 32 0, tf_MailboxID = [], tf_SenderPub = ex_pub,
      tf_Timestamp = 100000, tf_Nonce = ex_nonce, tf_Signature = ex_sig\<rparr>"

definition ex_transfer :: transferData where
  "ex_transfer =
     \<lparr>td_mailboxID = replicate 16 0, td_hasMailbox = False, td_downloadSecretHash = sha256 ex_secret,
      td_totalSize = 3, td_chunkSize = 2, td_chunkCount = 2, td_manifest = [], td_senderPub = ex_pub,
      td_state = TransferCreated, td_present = replicate 2 False, td_chunks = [], td_hashes = [],
      td_presentCount = 0, td_highest = 0, td_createdAt = 0, td_expiresAt = 86400000, td_storedBytes = 0\<rparr>"

definition ex_uploading :: MemStore where
  "ex_uploading = put_transfer ex_id ex_transfer NewMemStore"

definition ex_chunk :: ChunkUpload where
  "ex_chunk =
     \<lparr>cu_TransferID = ex_id, cu_Index = 0, cu_Payload = [1, 2], cu_ChunkHash = [], cu_Offset = 0\<rparr>"

lemmas ex_defs =
  ex_mailbox_def ex_message_def ex_create_def ex_finish_def ex_transfer_def ex_uploading_def ex_chunk_def

lemma NewMemStore_empty [simp]:
  "ms_mailboxes NewMemStore = []" "ms_transfers NewMemStore = []" "ms_replay NewMemStore = []"
  by (simp_all add: NewMemStore_def)

lemma ex_create_valid [simp]: "ValidateTransferCreateMsg ex_create = None"
  by (simp add: ValidateTransferCreateMsg_def ValidateTransferCreate_def ex_create_def)

lemma ex_finish_valid [simp]: "ValidateTransferComplete ex_finish = None"
  by (simp add: ValidateTransferComplete_def ex_finish_def)

lemma ex_message_valid [simp]: "ValidateSendMessage ex_message = None"
  by (simp add: ValidateSendMessage_def ex_message_def)

lemma ex_create_accepted:
  "CreateTransfer 0 ex_id (Some ex_secret) ex_create NewMemStore
     = (Inr (ex_id, ex_secret, 86400000), ex_uploading)"
  by (simp add: CreateTransfer_def Let_def)
     (simp add: ex_create_def ex_uploading_def ex_transfer_def i64_def u64_of_int64_def int64_of_u64_def)

lemma ex_mailbox_state:
  "mailbox_of ex_mailbox ex_id =
     Some \<lparr>mb_readSecretHash = sha256 ex_secret, mb_messages = [], mb_expiresAt = 31536000000, mb_storedBytes = 0\<rparr>"
  by (simp add: ex_mailbox_def CreateMailbox_def i64_def)

lemma ex_mailbox_ok: "store_ok ex_mailbox"
  unfolding ex_mailbox_def
  using store_step_ok [OF NewMemStore_ok, of "OpCreateMailbox 0 ex_id (sha256 ex_secret)"] by simp

lemma ex_uploading_ok: "store_ok ex_uploading"
  using store_step_ok [OF NewMemStore_ok, of "OpCreateTransfer 0 ex_id (Some ex_secret) ex_create"]
    ex_create_accepted by simp

lemma ex_uploading_transfer [simp]: "transfer_of ex_uploading ex_id = Some ex_transfer"
  by (simp add: ex_uploading_def)

definition ex_one :: transferData where
  "ex_one = ex_transfer\<lparr>td_totalSize := 2, td_chunkCount := 1, td_present := [True], td_chunks := [(0, [1, 2])],
     td_hashes := [(0, sha256 [1, 2])], td_presentCount := 1, td_highest := 1, td_storedBytes := 2\<rparr>"

definition ex_full :: MemStore where "ex_full = put_transfer ex_id ex_one NewMemStore"

lemma ex_full_ok: "store_ok ex_full"
proof -
  have "transfer_ok ex_one"
    by (auto simp: transfer_ok_def chunk_map_ok_def ex_one_def ex_transfer_def ValidateTransferCreate_def
          chunk_len_def word_less_nat_alt unat_eq_zero split: if_splits)
  then show ?thesis
    by (simp add: store_ok_def mailboxes_ok_def transfers_ok_def put_transfer_def transfer_bytes_def
          counted_bytes_def ex_full_def ex_one_def ex_transfer_def)
qed

lemma ex_sent:
  "SendMessage 1 ex_nonce ex_message ex_mailbox
     = (Inr (ex_nonce, 1), put_mailbox ex_id
         \<lparr>mb_readSecretHash = sha256 ex_secret, mb_messages = [stored 1 ex_nonce ex_message],
          mb_expiresAt = 31536000001, mb_storedBytes = 2\<rparr> ex_mailbox)"
  by (simp add: SendMessage_def Let_def getMailboxLocked_def prune_filter ex_mailbox_state)
     (simp add: ex_message_def ex_mailbox_state stored_def i64_def getMailboxLocked_def prune_filter Let_def
       put_mailbox_def ex_mailbox_def CreateMailbox_def)

end
