(* ===== verification/Store_Properties.thy ===== *)
theory Store_Properties
  imports Examples
begin

text \<open>The properties of the shard's store, each over the definitions of its model.\<close>

text \<open>C3. A file survives the relay. When a transfer is created, the pieces the client's
  \<open>SplitOpaque\<close> makes of the file are uploaded in order within a day, with room in the mailbox, and
  the transfer is then completed: every upload is accepted, the transfer is sealed, and the holder of
  the download ticket reads back exactly the file, whatever the clock says then.\<close>

theorem file_roundtrip:
  assumes "CreateTransfer t0 tid ticket req s = (Inr (tid', tk, exp), s0)" and "store_ok s"
    and "length tid = 16" and "length tk = 32"
    and "SplitOpaque data (int (unat (tc_ChunkSize req))) = Inr pieces"
    and "length data = unat (tc_TotalSize req)" and "0 \<le> t0" "t0 < 2 ^ 62"
    and "length (tc_MailboxID req) = 16 \<Longrightarrow> mailboxStoredBytesLocked (tc_MailboxID req) s
      + int (length (tc_Manifest req)) + int (length data) \<le> MaxStoredBytesPerMailbox"
    and "length nows = unat (tc_ChunkCount req)" "\<forall>x \<in> set (t1 # nows). t0 \<le> x \<and> x < t0 + 86400000"
    and "ValidateTransferComplete fin = None" "tf_TransferID fin = tid"
  shows "\<exists>s1 s2. upload_pieces tid (unat (tc_ChunkSize req)) 0 (zip nows pieces) s0 = Some s1
      \<and> CompleteTransfer t1 fin s1 = (\<lparr>cr_sealed = True, cr_present = tc_ChunkCount req,
             cr_count = tc_ChunkCount req, cr_err = None\<rparr>, s2)
      \<and> (\<forall>t2. download t2 tid tk [0..<unat (tc_ChunkCount req)] s2 = Some data)"
  using assms by (rule upload_seal_download)

theorem file_roundtrip_witness:
  "\<exists>s1 s2. upload_pieces ex_id 2 0 [(5, [9, 8]), (6, [7])] ex_uploading = Some s1
      \<and> CompleteTransfer 7 ex_finish s1 = (\<lparr>cr_sealed = True, cr_present = 2, cr_count = 2, cr_err = None\<rparr>, s2)
      \<and> (\<forall>t2. download t2 ex_id ex_secret [0..<2] s2 = Some [9, 8, 7])"
proof -
  have split: "SplitOpaque [9, 8, 7] 2 = Inr [[9, 8], [7]]"
    by (simp add: SplitOpaque_def split_loop.simps)
  show ?thesis
    using file_roundtrip [OF ex_create_accepted NewMemStore_ok, where data = "[9, 8, 7]"
        and pieces = "[[9, 8], [7]]" and nows = "[5, 6]" and ?t1.0 = 7 and fin = ex_finish] split
    by (simp add: ex_create_def ex_finish_def ValidateTransferComplete_def)
qed

text \<open>C4. A mailbox is a first-in first-out queue. Messages accepted for an empty mailbox, each not
  yet expired at reading time, come out of repeated draining reads once, whole and in the order they
  were sent, in as many rounds as batches are needed; afterwards the mailbox is empty.\<close>

theorem mailbox_fifo:
  assumes "enqueue_all (store_enq T mid) sends s = Some s'" and "unexpired T s mid = []"
    and "readable T mid secret s'" "0 \<le> T" "T < 2 ^ 62" and "length sends \<le> k * MaxBatchMessages"
  shows "\<exists>s''. drain (store_deq T mid secret) k s'
             = Some (map (\<lambda>(now, newID, msg). stored now newID msg) sends, s'')
           \<and> unexpired T s'' mid = []"
  using mailbox_queue.fill_then_drain [where T = T and mid = mid and secret = secret] assms by blast

theorem mailbox_fifo_witness:
  "\<exists>s' s''. enqueue_all (store_enq 5 ex_id) [(1, ex_nonce, ex_message)] ex_mailbox = Some s'
     \<and> drain (store_deq 5 ex_id ex_secret) 1 s' = Some ([stored 1 ex_nonce ex_message], s'')"
proof -
  let ?s' = "snd (SendMessage 1 ex_nonce ex_message ex_mailbox)"
  have enq: "enqueue_all (store_enq 5 ex_id) [(1, ex_nonce, ex_message)] ex_mailbox = Some ?s'"
    by (simp add: store_enq_def ex_sent) (simp add: ex_message_def i64_def)
  moreover have "unexpired 5 ex_mailbox ex_id = []" by (simp add: unexpired_def queue_def ex_mailbox_state)
  moreover have "readable 5 ex_id ex_secret ?s'"
    by (simp add: readable_def MailboxExists_def CheckReadSecret_def ex_sent hashSecret_def)
  ultimately show ?thesis
    using mailbox_fifo [of 5 ex_id "[(1, ex_nonce, ex_message)]" ex_mailbox ?s' ex_secret 1] by auto
qed

text \<open>C8. Every state the store can reach through its operations, in any order and at any
  clock readings, is consistent: queues and byte counts within their limits, transfers whose
  flags, counters, hashes and byte counts describe their chunk map.\<close>

theorem store_invariant:
  assumes "reachable store_step NewMemStore s"
  shows "store_ok s"
  using assms by (rule store.reachable_inv)

theorem store_invariant_witness:
  "store_ok (store_step (OpSweep 5) (store_step (OpCreateMailbox 0 [1] [2]) NewMemStore))"
  by (intro store_invariant reach_step reach_init)

text \<open>C9. Stored data is permanent while the transfer lives. Whatever operations run (none drawing
  the same random id again), a transfer that is still there has every chunk it had with the same bytes
  and the same description, sender and ticket; a sealed transfer has not changed at all.\<close>

theorem chunks_permanent:
  assumes "store_ok s" "\<forall>op \<in> set ops. \<not> creates tid op"
    and "transfer_of (run_ops ops s) tid = Some t'"
  shows "\<exists>t. transfer_of s tid = Some t
      \<and> (\<forall>i p. map_of (td_chunks t) i = Some p \<longrightarrow> map_of (td_chunks t') i = Some p)
      \<and> td_totalSize t' = td_totalSize t \<and> td_chunkSize t' = td_chunkSize t
      \<and> td_chunkCount t' = td_chunkCount t \<and> td_manifest t' = td_manifest t
      \<and> td_senderPub t' = td_senderPub t \<and> td_downloadSecretHash t' = td_downloadSecretHash t
      \<and> (td_state t = TransferComplete \<longrightarrow> t' = t)"
  using assms by (rule run_ops_chunk)

theorem chunks_permanent_witness:
  "\<exists>t'. transfer_of (run_ops [OpProgress 5 ex_id] ex_uploading) ex_id = Some t'
     \<and> td_senderPub t' = ex_pub"
proof -
  have after: "transfer_of (run_ops [OpProgress 5 ex_id] ex_uploading) ex_id = Some ex_transfer"
    by (simp add: Progress_def getTransferLocked_def) (simp add: ex_transfer_def)
  show ?thesis
    using chunks_permanent [OF ex_uploading_ok _ after] after
    by (auto simp: creates_def ex_transfer_def)
qed

text \<open>The chunks a transfer still lacks, by position.\<close>

definition lacking :: "transferData \<Rightarrow> nat set" where
  "lacking t = {j. j < unat (td_chunkCount t) \<and> map_of (td_chunks t) (word_of_nat j) = None}"

lemma lacking_flags:
  assumes "transfer_ok t"
  shows "lacking t = {j. j < length (td_present t) \<and> \<not> td_present t ! j}"
proof -
  have "map_of (td_chunks t) (word_of_nat j) = None \<longleftrightarrow> \<not> td_present t ! j"
    if "j < unat (td_chunkCount t)" for j
  proof -
    have "unat (word_of_nat j :: u32) = j"
      using that transfer_ok_bounds [OF assms] by (simp add: unat_of_nat)
    then show ?thesis
      using chunk_present [of t "word_of_nat j"] assms that
      by (simp add: transfer_ok_def word_less_nat_alt)
  qed
  then show ?thesis using assms by (auto simp: lacking_def transfer_ok_def)
qed

text \<open>C27. For a transfer of at most 256 chunks the resume view is a bitmap with a bit for every
  chunk, set exactly for the chunks that are stored; the spare bits of the last byte are clear.\<close>

theorem resume_bitmap:
  assumes "transfer_ok t" "unat (td_chunkCount t) \<le> 256" "buildResumeViewLocked t tid = (rv, tv)"
  shows "rw_Encoding rv = ResumeBitmap \<and> length (rw_Bitmap rv) = (unat (td_chunkCount t) + 7) div 8
    \<and> (\<forall>j < 8 * length (rw_Bitmap rv).
         bit (rw_Bitmap rv ! (j div 8)) (j mod 8) \<longleftrightarrow> j < unat (td_chunkCount t) \<and> j \<notin> lacking t)"
proof -
  have "rw_Encoding rv = ResumeBitmap \<and> rw_Bitmap rv = build_bitmap (td_present t) (td_chunkCount t)"
    using assms(2,3) by (auto simp: buildResumeViewLocked_def word_le_nat_alt)
  then show ?thesis
    using bitmap_length [OF assms(2)] bitmap_bit [OF assms(2)] assms(1)
    by (auto simp: lacking_flags transfer_ok_def)
qed

theorem resume_bitmap_witness:
  "rw_Encoding (fst (buildResumeViewLocked ex_transfer ex_id)) = ResumeBitmap"
proof -
  have "transfer_ok ex_transfer" using ex_uploading_ok ex_uploading_transfer by (rule store_ok_transfer)
  then show ?thesis 
    using resume_bitmap [of ex_transfer ex_id "fst (buildResumeViewLocked ex_transfer ex_id)"
        "snd (buildResumeViewLocked ex_transfer ex_id)"]
    by (simp add: ex_transfer_def)
qed

text \<open>C26. For a larger transfer the resume view lists ranges that decode, are at most 1024, cover only
  chunks that are missing, cover all of them unless the list is full, and cover at least one while
  any is missing, so a client that uploads what is listed makes progress.\<close>

theorem resume_ranges:
  assumes "transfer_ok t" "256 < unat (td_chunkCount t)" "buildResumeViewLocked t tid = (rv, tv)"
  shows "\<exists>ranges. DecodeRanges (rw_MissingRanges rv) = Inr ranges \<and> length ranges \<le> MaxMissingRanges
    \<and> covered ranges \<subseteq> lacking t \<and> (length ranges < MaxMissingRanges \<longrightarrow> covered ranges = lacking t)
    \<and> (lacking t \<noteq> {} \<longrightarrow> covered ranges \<noteq> {})"
proof -
  have len: "length (td_present t) = unat (td_chunkCount t)" "length (td_present t) \<le> 2 ^ 31"
    using assms(1) transfer_ok_bounds [OF assms(1)] by (simp_all add: transfer_ok_def)
  then have "rw_MissingRanges rv = EncodeRanges (missing_ranges (td_present t))"
    using assms(2,3) by (auto simp: buildResumeViewLocked_def word_le_nat_alt)
  then show ?thesis
    using missing_ranges_covers [OF len(2)] missing_ranges_progress [OF len(2)] lacking_flags [OF assms(1)]
    by (auto simp: decode_EncodeRanges)
qed

definition ex_large :: transferData where
  "ex_large = ex_transfer\<lparr>td_totalSize := 514, td_chunkCount := 257, td_present := replicate 257 False\<rparr>"

lemma ex_large_ok: "transfer_ok ex_large"
  by (simp add: transfer_ok_def chunk_map_ok_def ex_large_def ex_transfer_def ValidateTransferCreate_def
        word_less_nat_alt)

theorem resume_ranges_witness:
  "\<exists>ranges. DecodeRanges (rw_MissingRanges (fst (buildResumeViewLocked ex_large ex_id))) = Inr ranges
     \<and> covered ranges \<noteq> {}"
proof -
  have "0 \<in> lacking ex_large" by (simp add: lacking_def ex_large_def ex_transfer_def)
  then show ?thesis 
    using resume_ranges [OF ex_large_ok, of ex_id "fst (buildResumeViewLocked ex_large ex_id)"
        "snd (buildResumeViewLocked ex_large ex_id)"]
    by (auto simp: ex_large_def)
qed

text \<open>What an accepted message changes: the request was valid and its mailbox alive; the queue
  becomes the unexpired messages followed by the new one; the reported length is that of the queue; and
  the count and byte limits of the mailbox hold.\<close>

theorem send_accepted:
  assumes "SendMessage now newID msg s = (Inr (i, n), s')"
  shows "ValidateSendMessage msg = None \<and> i = newID \<and> MailboxExists now (sm_MailboxID msg) s
    \<and> queue s' (sm_MailboxID msg) = unexpired now s (sm_MailboxID msg) @ [stored now newID msg]
    \<and> n = word_of_nat (length (queue s' (sm_MailboxID msg)))
    \<and> length (queue s' (sm_MailboxID msg)) \<le> MaxQueuedMessages
    \<and> envelope_bytes (queue s' (sm_MailboxID msg)) \<le> MaxStoredBytesPerMailbox
    \<and> (\<forall>mid. mid \<noteq> sm_MailboxID msg \<longrightarrow> mailbox_of s' mid = mailbox_of s mid)"
proof -
  have "copy_array 16 (sm_MailboxID msg) = sm_MailboxID msg"
    using SendMessage_Inr(1) [OF assms] by (simp add: ValidateSendMessage_None)
  then show ?thesis
    using SendMessage_Inr [OF assms] SendMessage_other [of _ msg now newID s] assms by simp
qed

theorem send_accepted_witness:
  "\<exists>s'. SendMessage 1 ex_nonce ex_message ex_mailbox = (Inr (ex_nonce, 1), s')
     \<and> queue s' ex_id = [stored 1 ex_nonce ex_message]"
  using send_accepted [OF ex_sent] ex_sent
  by (auto simp: ex_message_def unexpired_def queue_def ex_mailbox_state)

text \<open>A mailbox is read exactly by who holds its secret: reading succeeds if and only if the
  mailbox is alive and the secret hashes to the stored value; a successful read returns the oldest
  unexpired messages up to the batch limit, and removes exactly those unless it peeks.\<close>

theorem receive_exact:
  "case ReceiveMessages now mid secret limit peek s of
     (Inl e, s') \<Rightarrow> \<not> (MailboxExists now mid s \<and> CheckReadSecret mid secret s) \<and> s' = s
   | (Inr (out, consumed), s') \<Rightarrow>
       MailboxExists now mid s \<and> CheckReadSecret mid secret s
       \<and> out = take (batch_limit limit) (unexpired now s mid) \<and> consumed = (\<not> peek)
       \<and> queue s' mid = (if peek then unexpired now s mid
                         else drop (batch_limit limit) (unexpired now s mid))"
proof (cases "ReceiveMessages now mid secret limit peek s")
  case (Pair r s')
  show ?thesis
  proof (cases r)
    case (Inl e)
    then show ?thesis
      using Pair ReceiveMessages_auth [of now mid secret limit peek s]
        ReceiveMessages_Inl [of now mid secret limit peek s e s'] by auto
  next
    case (Inr rr)
    then show ?thesis
      using Pair ReceiveMessages_auth [of now mid secret limit peek s]
        ReceiveMessages_Inr [of now mid secret limit peek s "fst rr" "snd rr" s'] by (cases rr) auto
  qed
qed

text \<open>C25. An acknowledgement needs the living mailbox and its secret, counts the unexpired messages
  whose ids are named, and with disposition consumed removes exactly those from the queue, keeping the
  order of the rest; otherwise no unexpired message is removed.\<close>

theorem ack_exact:
  assumes "AckMessages now mid secret ids disp s = (Inr (acked, remaining), s')"
  shows "MailboxExists now mid s \<and> CheckReadSecret mid secret s
    \<and> acked = word_of_nat (length (filter (\<lambda>m. msg_ID m \<in> set ids) (unexpired now s mid)))
    \<and> remaining = word_of_nat (length (queue s' mid))
    \<and> queue s' mid = (if disp = AckConsumed then filter (\<lambda>m. msg_ID m \<notin> set ids) (unexpired now s mid)
                      else unexpired now s mid)"
  using AckMessages_Inr [OF assms] by blast

theorem ack_exact_witness:
  "\<exists>s'. AckMessages 2 ex_id ex_secret [ex_nonce] AckConsumed
         (snd (SendMessage 1 ex_nonce ex_message ex_mailbox)) = (Inr (1, 0), s') \<and> queue s' ex_id = []"
proof -
  let ?s = "snd (SendMessage 1 ex_nonce ex_message ex_mailbox)"
  have mb: "mailbox_of ?s ex_id = Some \<lparr>mb_readSecretHash = sha256 ex_secret,
      mb_messages = [stored 1 ex_nonce ex_message], mb_expiresAt = 31536000001, mb_storedBytes = 2\<rparr>"
    by (simp add: ex_sent)
  have live: "unexpired 2 ?s ex_id = [stored 1 ex_nonce ex_message]"
    by (simp add: unexpired_def queue_def mb stored_def i64_def)
  obtain a r s' where acc: "AckMessages 2 ex_id ex_secret [ex_nonce] AckConsumed ?s = (Inr (a, r), s')"
    using mb by (auto simp: AckMessages_def Let_def getMailboxLocked_def secretMatches_def hashSecret_def)
  show ?thesis using ack_exact [OF acc] acc live by (simp add: stored_def)
qed

text \<open>Uploading a chunk again: in an open transfer an index that already holds bytes is
  acknowledged when length and hash agree and refused as a conflict otherwise, and in both cases the
  store is unchanged, so a retried upload is harmless and a stored chunk is never replaced.\<close>

theorem put_again:
  assumes "ValidateChunkUpload c = None" "transfer_of s (cu_TransferID c) = Some t"
    and "now < td_expiresAt t" "put_check c t = None" "map_of (td_chunks t) (cu_Index c) = Some old"
  shows "PutChunk now c s =
    (if length old = length (cu_Payload c) \<and> sha256 old = sha256 (cu_Payload c)
     then Inr (td_presentCount t)
     else Inl (perr ErrChunkConflict ''chunk exists with different bytes''), s)"
  using assms by (rule PutChunk_again)

theorem put_again_witness:
  "PutChunk 5 ex_chunk (put_transfer ex_id (ex_transfer\<lparr>td_chunks := [(0, [1, 2])]\<rparr>) NewMemStore)
     = (Inr 0, put_transfer ex_id (ex_transfer\<lparr>td_chunks := [(0, [1, 2])]\<rparr>) NewMemStore)"
  by (subst put_again [where t = "ex_transfer\<lparr>td_chunks := [(0, [1, 2])]\<rparr>" and old = "[1, 2]"])
     (simp_all add: ex_chunk_def ex_transfer_def ValidateChunkUpload_def put_check_def Let_def)

text \<open>C28. A completion that succeeds means the file is whole: the transfer is sealed and every
  position holds a chunk of the length its position demands, with its SHA-256 hash beside it.\<close>

theorem complete_whole:
  assumes "CompleteTransfer now req s = (r, s')" "cr_err r = None" "store_ok s"
  shows "cr_sealed r \<and> (\<exists>t. transfer_of s' (tf_TransferID req) = Some t \<and> td_state t = TransferComplete
           \<and> (\<forall>j < unat (td_chunkCount t). \<exists>p. map_of (td_chunks t) (word_of_nat j) = Some p
                \<and> length p = chunk_len t j \<and> map_of (td_hashes t) (word_of_nat j) = Some (sha256 p)))"
  using assms by (rule CompleteTransfer_sealed)

theorem complete_whole_witness:
  "cr_sealed (fst (CompleteTransfer 5 ex_finish ex_full))"
proof -
  let ?s = ex_full
  have "cr_err (fst (CompleteTransfer 5 ex_finish ?s)) = None"
    by (simp add: CompleteTransfer_def Let_def getTransferLocked_def)
       (simp add: ex_finish_def ex_full_def ex_one_def ex_transfer_def)
  then show ?thesis
    using complete_whole [of 5 ex_finish ?s "fst (CompleteTransfer 5 ex_finish ?s)"
        "snd (CompleteTransfer 5 ex_finish ?s)"] ex_full_ok by simp
qed

text \<open>C29. The sweeper removes nothing that is alive: every message that has not expired at a later
  time is still in its queue, in order, and a transfer is kept unchanged exactly when its deadline has
  not passed.\<close>

theorem sweep_keeps_live:
  assumes "store_ok s" "now \<le> later"
  shows "unexpired later (snd (Sweep now s)) mid = unexpired later s mid
    \<and> transfer_of (snd (Sweep now s)) tid =
        (case transfer_of s tid of
           None \<Rightarrow> None | Some t \<Rightarrow> if now < td_expiresAt t then Some t else None)"
  using Sweep_unexpired [OF assms] Sweep_transfer [of s now tid] assms by (simp add: store_ok_def)

theorem sweep_keeps_live_witness:
  "transfer_of (snd (Sweep 5 ex_uploading)) ex_id = Some ex_transfer"
  using sweep_keeps_live [OF ex_uploading_ok, of 5 5 ex_id ex_id] by (simp add: ex_transfer_def)



end
