(* ===== verification/Store_Interface.thy ===== *)
theory Store_Interface
  imports Transfer_Life
begin

text \<open>
  The \<open>Store\<close> interface of \<open>server/storage/store.go\<close> as a record of operations on a state of any
  type, which the handlers take as an argument, and \<open>mem_store\<close>, the interface filled with the
  operations of \<open>MemStore\<close>. Every operation that reads the store's clock or draws randomness takes
  the reading and the draw as its first arguments.

  The contract the handlers rely on is the locale \<open>store_contract\<close>: an invariant that every
  operation keeps, and a replay cache that refuses a key for the length of its window.
\<close>

record 's Store =
  st_CreateMailbox :: "int \<Rightarrow> bytes \<Rightarrow> bytes \<Rightarrow> 's \<Rightarrow> (go_error + bool) \<times> 's"
  st_MailboxExists :: "int \<Rightarrow> bytes \<Rightarrow> 's \<Rightarrow> bool"
  st_CheckReadSecret :: "bytes \<Rightarrow> bytes \<Rightarrow> 's \<Rightarrow> bool"
  st_SendMessage :: "int \<Rightarrow> bytes \<Rightarrow> SendMessage \<Rightarrow> 's \<Rightarrow> (go_error + bytes \<times> u32) \<times> 's"
  st_ReceiveMessages ::
    "int \<Rightarrow> bytes \<Rightarrow> bytes \<Rightarrow> int \<Rightarrow> bool \<Rightarrow> 's \<Rightarrow> (go_error + StoredMessage list \<times> bool) \<times> 's"
  st_AckMessages ::
    "int \<Rightarrow> bytes \<Rightarrow> bytes \<Rightarrow> bytes list \<Rightarrow> u8 \<Rightarrow> 's \<Rightarrow> (go_error + u32 \<times> u32) \<times> 's"
  st_CreateTransfer ::
    "int \<Rightarrow> bytes \<Rightarrow> bytes option \<Rightarrow> TransferCreate \<Rightarrow> 's \<Rightarrow> (go_error + bytes \<times> bytes \<times> u64) \<times> 's"
  st_PutChunk :: "int \<Rightarrow> ChunkUpload \<Rightarrow> 's \<Rightarrow> (go_error + u32) \<times> 's"
  st_GetChunk :: "int \<Rightarrow> bytes \<Rightarrow> bytes \<Rightarrow> bytes \<Rightarrow> u32 \<Rightarrow> 's \<Rightarrow> (go_error + bytes \<times> bytes) \<times> 's"
  st_Resume ::
    "int \<Rightarrow> bytes \<Rightarrow> bytes \<Rightarrow> bytes \<Rightarrow> 's \<Rightarrow> (go_error + ResumeView \<times> TransferView) \<times> 's"
  st_GetChunkByTicket :: "int \<Rightarrow> bytes \<Rightarrow> bytes \<Rightarrow> u32 \<Rightarrow> 's \<Rightarrow> (go_error + bytes \<times> bytes) \<times> 's"
  st_ResumeByTicket :: "int \<Rightarrow> bytes \<Rightarrow> bytes \<Rightarrow> 's \<Rightarrow> (go_error + ResumeView \<times> TransferView) \<times> 's"
  st_Progress :: "int \<Rightarrow> bytes \<Rightarrow> 's \<Rightarrow> (go_error + ResumeView \<times> TransferView) \<times> 's"
  st_CompleteTransfer :: "int \<Rightarrow> TransferComplete \<Rightarrow> 's \<Rightarrow> complete_result \<times> 's"
  st_CancelTransfer :: "int \<Rightarrow> bytes \<Rightarrow> bytes \<Rightarrow> bytes \<Rightarrow> 's \<Rightarrow> go_error option \<times> 's"
  st_GetTransfer :: "int \<Rightarrow> bytes \<Rightarrow> 's \<Rightarrow> (go_error + TransferView) \<times> 's"
  st_CheckAndMarkReplay :: "int \<Rightarrow> bytes \<Rightarrow> 's \<Rightarrow> bool \<times> 's"

definition mem_store :: "MemStore Store" where
  "mem_store =
     \<lparr>st_CreateMailbox = (\<lambda>now mid h s. map_prod Inr id (CreateMailbox now mid h s)),
      st_MailboxExists = MailboxExists, st_CheckReadSecret = CheckReadSecret,
      st_SendMessage = SendMessage, st_ReceiveMessages = ReceiveMessages,
      st_AckMessages = AckMessages, st_CreateTransfer = CreateTransfer, st_PutChunk = PutChunk,
      st_GetChunk = GetChunk, st_Resume = Resume, st_GetChunkByTicket = GetChunkByTicket,
      st_ResumeByTicket = ResumeByTicket, st_Progress = Progress,
      st_CompleteTransfer = CompleteTransfer, st_CancelTransfer = CancelTransfer,
      st_GetTransfer = GetTransfer, st_CheckAndMarkReplay = CheckAndMarkReplay\<rparr>"

lemma mem_store_sel [simp]:
  "st_CreateMailbox mem_store = (\<lambda>now mid h s. map_prod Inr id (CreateMailbox now mid h s))"
  "st_MailboxExists mem_store = MailboxExists" "st_CheckReadSecret mem_store = CheckReadSecret"
  "st_SendMessage mem_store = SendMessage" "st_ReceiveMessages mem_store = ReceiveMessages"
  "st_AckMessages mem_store = AckMessages" "st_CreateTransfer mem_store = CreateTransfer"
  "st_PutChunk mem_store = PutChunk" "st_GetChunk mem_store = GetChunk"
  "st_Resume mem_store = Resume" "st_GetChunkByTicket mem_store = GetChunkByTicket"
  "st_ResumeByTicket mem_store = ResumeByTicket" "st_Progress mem_store = Progress"
  "st_CompleteTransfer mem_store = CompleteTransfer" "st_CancelTransfer mem_store = CancelTransfer"
  "st_GetTransfer mem_store = GetTransfer" "st_CheckAndMarkReplay mem_store = CheckAndMarkReplay"
  by (simp_all add: mem_store_def)

text \<open>The states an interface can move to in one call made at clock reading \<open>now\<close>.\<close>

inductive store_call :: "'s Store \<Rightarrow> int \<Rightarrow> 's \<Rightarrow> 's \<Rightarrow> bool" for st :: "'s Store" and now :: int and s :: 's where
  call_CreateMailbox: "store_call st now s (snd (st_CreateMailbox st now mid h s))"
| call_SendMessage: "store_call st now s (snd (st_SendMessage st now i m s))"
| call_ReceiveMessages: "store_call st now s (snd (st_ReceiveMessages st now mid sec lim peek s))"
| call_AckMessages: "store_call st now s (snd (st_AckMessages st now mid sec ids d s))"
| call_CreateTransfer: "store_call st now s (snd (st_CreateTransfer st now i tk t s))"
| call_PutChunk: "store_call st now s (snd (st_PutChunk st now c s))"
| call_GetChunk: "store_call st now s (snd (st_GetChunk st now tid mid sec j s))"
| call_Resume: "store_call st now s (snd (st_Resume st now tid mid sec s))"
| call_GetChunkByTicket: "store_call st now s (snd (st_GetChunkByTicket st now tid tkt j s))"
| call_ResumeByTicket: "store_call st now s (snd (st_ResumeByTicket st now tid tkt s))"
| call_Progress: "store_call st now s (snd (st_Progress st now tid s))"
| call_CompleteTransfer: "store_call st now s (snd (st_CompleteTransfer st now f s))"
| call_CancelTransfer: "store_call st now s (snd (st_CancelTransfer st now tid mid sec s))"
| call_GetTransfer: "store_call st now s (snd (st_GetTransfer st now tid s))"
| call_CheckAndMarkReplay: "store_call st now s (snd (st_CheckAndMarkReplay st now k s))"

locale store_contract =
  fixes st :: "'s Store" and inv :: "'s \<Rightarrow> bool" and replay_until :: "'s \<Rightarrow> bytes \<Rightarrow> int option"
    and replay_window :: "int \<Rightarrow> int"
  assumes call_inv: "inv s \<Longrightarrow> store_call st now s s' \<Longrightarrow> inv s'"
    and call_replay: "inv s \<Longrightarrow> store_call st now s s' \<Longrightarrow> replay_until s k = Some e \<Longrightarrow> now < e \<Longrightarrow>
      replay_until s' k = Some e"
    and replay_refused: "inv s \<Longrightarrow> replay_until s k = Some e \<Longrightarrow> now < e \<Longrightarrow>
      fst (st_CheckAndMarkReplay st now k s)"
    and replay_marked: "inv s \<Longrightarrow> st_CheckAndMarkReplay st now k s = (False, s') \<Longrightarrow>
      replay_until s' k = Some (replay_window now)"

lemma mem_store_call_step: "store_call mem_store now s s' \<Longrightarrow> \<exists>op. op_time op = now \<and> s' = store_step op s"
proof (induction rule: store_call.induct)
  case (call_CreateMailbox mid h)
  show ?case by (rule exI [of _ "OpCreateMailbox now mid h"]) simp
next
  case (call_SendMessage i m)
  show ?case by (rule exI [of _ "OpSendMessage now i m"]) simp
next
  case (call_ReceiveMessages mid sec lim peek)
  show ?case by (rule exI [of _ "OpReceiveMessages now mid sec lim peek"]) simp
next
  case (call_AckMessages mid sec ids d)
  show ?case by (rule exI [of _ "OpAckMessages now mid sec ids d"]) simp
next
  case (call_CreateTransfer i tk t)
  show ?case by (rule exI [of _ "OpCreateTransfer now i tk t"]) simp
next
  case (call_PutChunk c)
  show ?case by (rule exI [of _ "OpPutChunk now c"]) simp
next
  case (call_GetChunk tid mid sec j)
  show ?case by (rule exI [of _ "OpGetChunk now tid mid sec j"]) simp
next
  case (call_Resume tid mid sec)
  show ?case by (rule exI [of _ "OpResume now tid mid sec"]) simp
next
  case (call_GetChunkByTicket tid tkt j)
  show ?case by (rule exI [of _ "OpGetChunkByTicket now tid tkt j"]) simp
next
  case (call_ResumeByTicket tid tkt)
  show ?case by (rule exI [of _ "OpResumeByTicket now tid tkt"]) simp
next
  case (call_Progress tid)
  show ?case by (rule exI [of _ "OpProgress now tid"]) simp
next
  case (call_CompleteTransfer f)
  show ?case by (rule exI [of _ "OpCompleteTransfer now f"]) simp
next
  case (call_CancelTransfer tid mid sec)
  show ?case by (rule exI [of _ "OpCancelTransfer now tid mid sec"]) simp
next
  case (call_GetTransfer tid)
  show ?case by (rule exI [of _ "OpGetTransfer now tid"]) simp
next
  case (call_CheckAndMarkReplay k)
  show ?case by (rule exI [of _ "OpCheckAndMarkReplay now k"]) simp
qed

interpretation mem: store_contract mem_store store_ok "\<lambda>s. map_of (ms_replay s)"
  "\<lambda>now. i64 (now + ReplayWindowSeconds * 1000)"
proof
  fix s s' :: MemStore and now e :: int and k :: bytes
  assume ok: "store_ok s"
  show "store_ok s'" if "store_call mem_store now s s'"
    using mem_store_call_step [OF that] ok store_step_ok by auto
  show "map_of (ms_replay s') k = Some e"
    if "store_call mem_store now s s'" "map_of (ms_replay s) k = Some e" "now < e"
    using mem_store_call_step [OF that(1)] ok that store_step_replay by auto
  show "fst (st_CheckAndMarkReplay mem_store now k s)"
    if "map_of (ms_replay s) k = Some e" "now < e"
    using that by (simp add: store_replay.mark_seen [OF ok] seen_def)
  show "map_of (ms_replay s') k = Some (i64 (now + ReplayWindowSeconds * 1000))"
    if "st_CheckAndMarkReplay mem_store now k s = (False, s')"
    using that store_replay.mark_new [OF ok, of now k] store_replay.mark_seen [OF ok, of now k] by simp
qed

end
