(* ===== verification/Http.thy ===== *)
theory Http
  imports Registry Wire_Messages Sha256
begin

text \<open>
  What the shard and the router share at the HTTP edge (\<open>server/shard/handler.go\<close>,
  \<open>server/router/handler.go\<close>): reading a bounded body, naming the client, and writing a protocol
  response or error. A request is what the handlers look at; the result of
  \<open>net.SplitHostPort\<close> on the peer address is one of its fields, \<open>None\<close> when that fails.
\<close>

record http_request =
  hr_Method :: string
  hr_Path :: string
  hr_ContentLength :: int
  hr_Body :: "bytes option"   \<comment> \<open>\<open>None\<close>: reading fails\<close>
  hr_ForwardedFor :: string   \<comment> \<open>header \<open>X-Forwarded-For\<close>, empty when absent\<close>
  hr_RemoteAddr :: string
  hr_RemoteHost :: "string option"

record http_response =
  rs_Status :: int
  rs_Schema :: string
  rs_Protocol :: string
  rs_CacheControl :: string
  rs_Body :: bytes

definition MethodPost :: string where "MethodPost = ''POST''"
definition MethodGet :: string where "MethodGet = ''GET''"

section \<open>Client address\<close>

definition is_space :: "char \<Rightarrow> bool" where
  "is_space c \<longleftrightarrow> of_char c \<in> {9, 10, 11, 12, 13, 32 :: nat}"

definition TrimSpace :: "string \<Rightarrow> string" where
  "TrimSpace s = rev (dropWhile is_space (rev (dropWhile is_space s)))"

definition clientIP :: "http_request \<Rightarrow> string" where
  "clientIP r =
     (if hr_ForwardedFor r \<noteq> [] then TrimSpace (takeWhile (\<lambda>c. c \<noteq> CHR '','') (hr_ForwardedFor r))
      else (case hr_RemoteHost r of None \<Rightarrow> hr_RemoteAddr r | Some host \<Rightarrow> host))"

section \<open>Reading the body\<close>

definition readBody :: "http_request \<Rightarrow> nat \<Rightarrow> ProtocolError + bytes" where
  "readBody r limit =
     (if hr_ContentLength r > int limit then Inl (mk_error ErrPayloadTooLarge ''body exceeds limit'')
      else (case hr_Body r of
        None \<Rightarrow> Inl (mk_error ErrInvalidRequest ''unreadable body'')
      | Some body \<Rightarrow>
          let b = take (limit + 1) body in
          if length b > limit then Inl (mk_error ErrPayloadTooLarge ''body exceeds limit'')
          else if length b = 0 then Inl (mk_error ErrInvalidRequest ''empty body'')
          else Inr b))"

section \<open>Writing a response\<close>

definition protocolVersionHeader :: string where
  "protocolVersionHeader =
     char_of (48 + unat ProtocolMajor) # ''.'' @ [char_of (48 + unat ProtocolMinor)]"

definition shard_status :: "u32 \<Rightarrow> int" where
  "shard_status code =
     (if code \<in> {ErrInvalidRequest, ErrChunkInvalid, ErrHashMismatch, ErrExpiredRequest, ErrBatchTooLarge}
        then 400
      else if code = ErrAuthFailed then 401
      else if code \<in> {ErrReplayDetected, ErrChunkConflict, ErrTransferConflict} then 409
      else if code \<in> {ErrMailboxNotFound, ErrTransferNotFound} then 404
      else if code \<in> {ErrMailboxExpired, ErrTransferExpired} then 410
      else if code \<in> {ErrMessageTooLarge, ErrPayloadTooLarge, ErrChunkOutOfRange} then 413
      else if code \<in> {ErrQuotaExceeded, ErrRateLimited} then 429
      else if code \<in> {ErrStorageUnavailable, ErrServerUnavailable} then 503
      else 400)"

definition router_status :: "u32 \<Rightarrow> int" where
  "router_status code =
     (if code \<in> {ErrInvalidRequest, ErrExpiredRequest, ErrBatchTooLarge} then 400
      else if code = ErrAuthFailed then 401
      else if code = ErrReplayDetected then 409
      else if code \<in> {ErrMailboxNotFound, ErrTransferNotFound} then 404
      else if code \<in> {ErrMailboxExpired, ErrTransferExpired} then 410
      else if code \<in> {ErrPayloadTooLarge, ErrMessageTooLarge} then 413
      else if code \<in> {ErrQuotaExceeded, ErrRateLimited} then 429
      else 400)"

definition writeProto :: "u8 \<Rightarrow> bytes \<Rightarrow> http_response" where
  "writeProto schemaID body =
     \<lparr>rs_Status = 200, rs_Schema = itoa (ucast schemaID), rs_Protocol = protocolVersionHeader,
      rs_CacheControl = ''no-store'', rs_Body = body\<rparr>"

definition error_body :: "nanopack \<Rightarrow> ProtocolError \<Rightarrow> bytes" where
  "error_body np pe = (case MarshalError np pe of Inl e \<Rightarrow> [] | Inr body \<Rightarrow> body)"

definition error_response :: "int \<Rightarrow> bytes \<Rightarrow> http_response" where
  "error_response status body =
     \<lparr>rs_Status = status, rs_Schema = ''51'', rs_Protocol = protocolVersionHeader,
      rs_CacheControl = ''no-store'', rs_Body = body\<rparr>"

text \<open>The shard fills in a missing retry delay before it encodes a rate-limit error.\<close>

definition shard_writeError :: "nanopack \<Rightarrow> ProtocolError \<Rightarrow> http_response" where
  "shard_writeError np pe =
     (let pe = (if Code pe = ErrRateLimited \<and> RetryAfter pe = 0 then pe\<lparr>RetryAfter := 60\<rparr> else pe)
      in error_response (shard_status (Code pe)) (error_body np pe))"

definition router_writeError :: "nanopack \<Rightarrow> ProtocolError \<Rightarrow> http_response" where
  "router_writeError np pe = error_response (router_status (Code pe)) (error_body np pe)"

definition rate_limited :: ProtocolError where
  "rate_limited = \<lparr>Code = ErrRateLimited, Detail = ''rate limited'', RetryAfter = 60\<rparr>"

definition method_not_allowed :: ProtocolError where
  "method_not_allowed = mk_error ErrInvalidRequest ''method not allowed''"

section \<open>Lemmas\<close>

text \<open>What \<open>readBody\<close> returns is the whole body, not empty, within the limit.\<close>

lemma readBody_Inr:
  "readBody r limit = Inr b \<longleftrightarrow>
     hr_ContentLength r \<le> int limit \<and> hr_Body r = Some b \<and> 0 < length b \<and> length b \<le> limit"
  by (auto simp: readBody_def Let_def not_less min_def split: option.splits if_splits)

lemma status_error [simp]: "shard_status code \<noteq> 200" "router_status code \<noteq> 200"
  by (simp_all add: shard_status_def router_status_def)

lemma writeError_status [simp]:
  "rs_Status (shard_writeError np pe) \<noteq> 200" "rs_Status (router_writeError np pe) \<noteq> 200"
  by (simp_all add: shard_writeError_def router_writeError_def error_response_def Let_def)

lemma writeProto_sel [simp]:
  "rs_Status (writeProto schema body) = 200" "rs_Body (writeProto schema body) = body"
  by (simp_all add: writeProto_def)

end
