(* ===== verification/Handler_Monad.thy ===== *)
theory Handler_Monad
  imports Http Interfaces "HOL-Library.AList"
begin

text \<open>
  The control flow the HTTP handlers and the bridge share. A Go handler is a sequence of steps, each of
  which may write an error and return; here a step is a function from the state to a result (\<open>Inl\<close>: the
  error that is written) and the state after it, and \<open>hbind\<close> runs the next step only after a step that
  did not return. The handlers of both servers fail with protocol errors. The fixed-window limiter of both servers (\<open>limiter.allow\<close>,
  \<open>Handler.allowRL\<close>) is here too: its map of windows is a part of the server state.

  A predicate \<open>moves R m\<close> says that a step, whatever it returns, moves the state along \<open>R\<close>; it is
  closed under the combinators, so what a handler may do to the state follows from its steps.
\<close>

type_synonym ('s, 'e, 'a) step = "'s \<Rightarrow> ('e + 'a) \<times> 's"
type_synonym ('s, 'a) handler = "('s, ProtocolError, 'a) step"

section \<open>Combinators\<close>

definition hreturn :: "'a \<Rightarrow> ('s, 'e, 'a) step" where
  "hreturn x s = (Inr x, s)"

definition hfail :: "'e \<Rightarrow> ('s, 'e, 'a) step" where
  "hfail pe s = (Inl pe, s)"

definition hbind :: "('s, 'e, 'a) step \<Rightarrow> ('a \<Rightarrow> ('s, 'e, 'b) step) \<Rightarrow> ('s, 'e, 'b) step" where
  "hbind m f s = (case m s of (Inl pe, s') \<Rightarrow> (Inl pe, s') | (Inr x, s') \<Rightarrow> f x s')"

definition hrequire :: "bool \<Rightarrow> 'e \<Rightarrow> ('s, 'e, unit) step" where
  "hrequire b pe = (if b then hreturn () else hfail pe)"

text \<open>A computed result with a Go error, a body with a protocol error, and a bare Go error.\<close>

definition hgo :: "go_error + 'a \<Rightarrow> ('s, 'a) handler" where
  "hgo r = (case r of Inl e \<Rightarrow> hfail (AsProtocolError e) | Inr x \<Rightarrow> hreturn x)"

definition hproto :: "ProtocolError + 'a \<Rightarrow> ('s, 'a) handler" where
  "hproto r = (case r of Inl pe \<Rightarrow> hfail pe | Inr x \<Rightarrow> hreturn x)"

definition hcheck :: "go_error option \<Rightarrow> ('s, unit) handler" where
  "hcheck r = (case r of Some e \<Rightarrow> hfail (AsProtocolError e) | None \<Rightarrow> hreturn ())"

text \<open>A step on a part of the state, and the same for an operation with a Go error.\<close>

definition hon :: "('s \<Rightarrow> 't) \<Rightarrow> ('t \<Rightarrow> 's \<Rightarrow> 's) \<Rightarrow> ('t \<Rightarrow> 'a \<times> 't) \<Rightarrow> ('s, 'e, 'a) step" where
  "hon get put f s = (case f (get s) of (x, t) \<Rightarrow> (Inr x, put t s))"

definition hcall ::
  "('s \<Rightarrow> 't) \<Rightarrow> ('t \<Rightarrow> 's \<Rightarrow> 's) \<Rightarrow> ('t \<Rightarrow> (go_error + 'a) \<times> 't) \<Rightarrow> ('s, 'a) handler" where
  "hcall get put f = hbind (hon get put f) hgo"

lemmas handler_defs =
  hreturn_def hfail_def hrequire_def hgo_def hproto_def hcheck_def hcall_def hon_def

section \<open>The outcome of a step\<close>

lemma hbind_Inr:
  "hbind m f s = (Inr y, s') \<longleftrightarrow> (\<exists>x s1. m s = (Inr x, s1) \<and> f x s1 = (Inr y, s'))"
  by (auto simp: hbind_def split: prod.splits sum.splits)

lemma hbind_Inl:
  "hbind m f s = (Inl pe, s') \<longleftrightarrow>
     m s = (Inl pe, s') \<or> (\<exists>x s1. m s = (Inr x, s1) \<and> f x s1 = (Inl pe, s'))"
  by (auto simp: hbind_def split: prod.splits sum.splits)

lemma hstep_Inr [simp]:
  "hreturn x s = (Inr y, s') \<longleftrightarrow> x = y \<and> s' = s"
  "hfail pe s = (Inr y, s') \<longleftrightarrow> False"
  "hrequire b pe s = (Inr u, s') \<longleftrightarrow> b \<and> s' = s"
  "hgo r s = (Inr y, s') \<longleftrightarrow> r = Inr y \<and> s' = s"
  "hproto p s = (Inr y, s') \<longleftrightarrow> p = Inr y \<and> s' = s"
  "hcheck c s = (Inr u, s') \<longleftrightarrow> c = None \<and> s' = s"
  by (auto simp: handler_defs split: sum.splits option.splits)

lemma hcall_Inr:
  "hcall get put f s = (Inr y, s') \<longleftrightarrow> (\<exists>t. f (get s) = (Inr y, t) \<and> s' = put t s)"
  by (auto simp: hcall_def hbind_Inr hon_def split: prod.splits)

lemma hon_Inr: "hon get put f s = (Inr y, s') \<longleftrightarrow> (\<exists>t. f (get s) = (y, t) \<and> s' = put t s)"
  by (auto simp: hon_def split: prod.splits)

lemmas handler_Inr = hbind_Inr hcall_Inr hon_Inr

section \<open>What a step may do to the state\<close>

definition moves :: "('s \<Rightarrow> 's \<Rightarrow> bool) \<Rightarrow> ('s, 'e, 'a) step \<Rightarrow> bool" where
  "moves R m \<longleftrightarrow> (\<forall>s. R s (snd (m s)))"

lemma moves_case_prod: "(\<And>a b. moves R (f a b)) \<Longrightarrow> moves R (case p of (a, b) \<Rightarrow> f a b)"
  by (cases p) simp

lemma moves_case_sum:
  "(\<And>x. moves R (f x)) \<Longrightarrow> (\<And>y. moves R (g y)) \<Longrightarrow> moves R (case r of Inl x \<Rightarrow> f x | Inr y \<Rightarrow> g y)"
  by (cases r) simp_all

locale state_order =
  fixes R :: "'s \<Rightarrow> 's \<Rightarrow> bool"
  assumes R_refl: "R s s" and R_trans: "R s s' \<Longrightarrow> R s' s'' \<Longrightarrow> R s s''"
begin

lemma moves_bind: "moves R m \<Longrightarrow> (\<And>x. moves R (f x)) \<Longrightarrow> moves R (hbind m f)"
  unfolding moves_def hbind_def
  by (auto split: prod.splits sum.splits) (metis R_trans snd_conv)+

lemma moves_pure:
  "moves R (hreturn x)" "moves R (hfail pe)" "moves R (hrequire b pe)" "moves R (hgo r)"
  "moves R (hproto p)" "moves R (hcheck c)"
  by (auto simp: moves_def handler_defs R_refl split: sum.splits option.splits)

lemma moves_on: "(\<And>s. R s (put (snd (f (get s))) s)) \<Longrightarrow> moves R (hon get put f)"
  by (simp add: moves_def hon_def split: prod.splits) (metis snd_conv)

lemma moves_call: "(\<And>s. R s (put (snd (f (get s))) s)) \<Longrightarrow> moves R (hcall get put f)"
  unfolding hcall_def by (intro moves_bind moves_on moves_pure)

lemma moves_if: "moves R m \<Longrightarrow> moves R m' \<Longrightarrow> moves R (if b then m else m')"
  by simp

lemmas moves_intros = moves_bind moves_pure moves_on moves_call moves_if

end

section \<open>The fixed-window limiter\<close>

record window =
  w_count :: int
  w_resetAt :: int

type_synonym buckets = "(string \<times> window) list"

definition allow_window :: "string \<Rightarrow> int \<Rightarrow> int \<Rightarrow> buckets \<Rightarrow> bool \<times> buckets" where
  "allow_window key now mx b =
     (let fresh = (True, AList.update key \<lparr>w_count = 1, w_resetAt = i64 (now + 60000)\<rparr> b) in
      case map_of b key of
        None \<Rightarrow> fresh
      | Some w \<Rightarrow>
          if now \<ge> w_resetAt w then fresh
          else if w_count w \<ge> mx then (False, b)
          else (True, AList.update key (w\<lparr>w_count := w_count w + 1\<rparr>) b))"

definition window_of :: "buckets \<Rightarrow> string \<Rightarrow> (int \<times> int) option" where
  "window_of b key = map_option (\<lambda>w. (w_count w, w_resetAt w)) (map_of b key)"

interpretation limiter: fixed_window "\<lambda>k now. allow_window k now (int n + 1)" window_of "int n + 1"
  "\<lambda>now. i64 (now + 60000)" for n :: nat
  by unfold_locales
     (auto simp: allow_window_def window_of_def Let_def update_conv' split: option.splits)

text \<open>Every positive maximum is of that form.\<close>

lemma allow_window_per_window:
  assumes "0 < mx" "case window_of b key of None \<Rightarrow> True | Some (c, r) \<Rightarrow> t0 \<ge> r"
    and "\<forall>now \<in> set nows. now < i64 (t0 + 60000)"
  shows "count_allowed (\<lambda>k now. allow_window k now mx) key (t0 # nows) b = min (Suc (length nows)) (nat mx)"
  using limiter.allowed_per_window [where s = b and k = key and ?t0.0 = t0 and nows = nows and n = "nat mx - 1"] assms by simp

text \<open>A call for one key leaves the windows of the others alone.\<close>

lemma allow_window_other: "k \<noteq> key \<Longrightarrow> window_of (snd (allow_window key now mx b)) k = window_of b k"
  by (auto simp: allow_window_def window_of_def Let_def update_conv' split: option.splits)

end
