(* ===== verification/Wire_Control.thy ===== *)
theory Wire_Control
  imports Nanopack
begin

text \<open>
  Codecs of the control plane, from \<open>protocol/control.go\<close>: \<open>Hello\<close> (50), \<open>Register\<close> (52),
  \<open>RegisterResponse\<close> (53), \<open>Resolve\<close> (54), \<open>ResolveResponse\<close> (55) and \<open>RoutingTable\<close> (56)
  with its packed shard list, and their round trips.
\<close>

section \<open>Hello (50)\<close>

record Hello =
  he_Major :: u8
  he_Minor :: u8
  he_NowMS :: u64

definition MarshalHello :: "nanopack \<Rightarrow> Hello \<Rightarrow> go_error + bytes" where
  "MarshalHello np h = np_bytes np [(1, [he_Major h]), (2, [he_Minor h]), (3, putU64 (he_NowMS h))]"

definition Hello_field :: "Hello \<Rightarrow> u8 \<Rightarrow> bytes \<Rightarrow> go_error + Hello" where
  "Hello_field out fid d =
     (if fid = 1 then store_field (getU8 d) (\<lambda>v. out\<lparr>he_Major := v\<rparr>)
      else if fid = 2 then store_field (getU8 d) (\<lambda>v. out\<lparr>he_Minor := v\<rparr>)
      else if fid = 3 then store_field (getU64 d) (\<lambda>v. out\<lparr>he_NowMS := v\<rparr>)
      else Inr out)"

definition UnmarshalHello :: "nanopack \<Rightarrow> bytes \<Rightarrow> go_error + Hello" where
  "UnmarshalHello np body =
     unmarshal np 64 Hello_field \<lparr>he_Major = 0, he_Minor = 0, he_NowMS = 0\<rparr> Inr body"

section \<open>Register (52)\<close>

record Register =
  rg_ClientPub :: bytes
  rg_Timestamp :: u64
  rg_Nonce :: bytes
  rg_Signature :: bytes

definition ValidateRegister :: "Register \<Rightarrow> go_error option" where
  "ValidateRegister r =
     (if length (rg_ClientPub r) \<noteq> 32 then
        Some (perr ErrAuthFailed ''client_pub must be 32 bytes'')
      else if length (rg_Nonce r) \<noteq> 16 then
        Some (perr ErrInvalidRequest ''nonce must be 16 bytes'')
      else if length (rg_Signature r) \<noteq> 64 then
        Some (perr ErrAuthFailed ''signature must be 64 bytes'')
      else None)"

definition MarshalRegister :: "nanopack \<Rightarrow> Register \<Rightarrow> go_error + bytes" where
  "MarshalRegister np r =
     marshal np (ValidateRegister r)
       [(1, rg_ClientPub r), (2, putU64 (rg_Timestamp r)), (3, rg_Nonce r), (4, rg_Signature r)]"

definition Register_zero :: Register where
  "Register_zero = \<lparr>rg_ClientPub = [], rg_Timestamp = 0, rg_Nonce = [], rg_Signature = []\<rparr>"

definition Register_field :: "Register \<Rightarrow> u8 \<Rightarrow> bytes \<Rightarrow> go_error + Register" where
  "Register_field out fid d =
     (if fid = 1 then Inr (out\<lparr>rg_ClientPub := d\<rparr>)
      else if fid = 2 then store_field (getU64 d) (\<lambda>v. out\<lparr>rg_Timestamp := v\<rparr>)
      else if fid = 3 then Inr (out\<lparr>rg_Nonce := d\<rparr>)
      else if fid = 4 then Inr (out\<lparr>rg_Signature := d\<rparr>)
      else Inr out)"

definition UnmarshalRegister :: "nanopack \<Rightarrow> bytes \<Rightarrow> go_error + Register" where
  "UnmarshalRegister np body =
     unmarshal np 256 Register_field Register_zero (\<lambda>out. check (ValidateRegister out) out) body"

section \<open>RegisterResponse (53)\<close>

record RegisterResponse =
  rr_MailboxID :: bytes
  rr_ReadSecret :: bytes
  rr_ShardURL :: string
  rr_TableVersion :: u32
  rr_ExpiresAt :: u64

definition check_RegisterResponse :: "RegisterResponse \<Rightarrow> go_error option" where
  "check_RegisterResponse r =
     (if length (rr_MailboxID r) \<noteq> 16 \<or> length (rr_ReadSecret r) \<noteq> 32 \<or> rr_ShardURL r = [] then
        Some (perr ErrInvalidRequest ''bad register response'')
      else None)"

definition MarshalRegisterResponse :: "nanopack \<Rightarrow> RegisterResponse \<Rightarrow> go_error + bytes" where
  "MarshalRegisterResponse np r =
     marshal np (check_RegisterResponse r)
       [(1, rr_MailboxID r), (2, rr_ReadSecret r), (3, bytes_of (rr_ShardURL r)),
        (4, putU32 (rr_TableVersion r)), (5, putU64 (rr_ExpiresAt r))]"

definition RegisterResponse_zero :: RegisterResponse where
  "RegisterResponse_zero =
     \<lparr>rr_MailboxID = [], rr_ReadSecret = [], rr_ShardURL = [], rr_TableVersion = 0, rr_ExpiresAt = 0\<rparr>"

definition RegisterResponse_field ::
  "RegisterResponse \<Rightarrow> u8 \<Rightarrow> bytes \<Rightarrow> go_error + RegisterResponse" where
  "RegisterResponse_field out fid d =
     (if fid = 1 then Inr (out\<lparr>rr_MailboxID := d\<rparr>)
      else if fid = 2 then Inr (out\<lparr>rr_ReadSecret := d\<rparr>)
      else if fid = 3 then Inr (out\<lparr>rr_ShardURL := string_of d\<rparr>)
      else if fid = 4 then store_field (getU32 d) (\<lambda>v. out\<lparr>rr_TableVersion := v\<rparr>)
      else if fid = 5 then store_field (getU64 d) (\<lambda>v. out\<lparr>rr_ExpiresAt := v\<rparr>)
      else Inr out)"

definition UnmarshalRegisterResponse :: "nanopack \<Rightarrow> bytes \<Rightarrow> go_error + RegisterResponse" where
  "UnmarshalRegisterResponse np body =
     unmarshal np 1024 RegisterResponse_field RegisterResponse_zero
       (\<lambda>out. check (check_RegisterResponse out) out) body"

section \<open>Resolve (54) and ResolveResponse (55)\<close>

definition check_Resolve :: "bytes \<Rightarrow> go_error option" where
  "check_Resolve pub =
     (if length pub \<noteq> 32 then Some (perr ErrInvalidRequest ''client_pub must be 32 bytes'') else None)"

definition MarshalResolve :: "nanopack \<Rightarrow> bytes \<Rightarrow> go_error + bytes" where
  "MarshalResolve np pub = marshal np (check_Resolve pub) [(1, pub)]"

definition Resolve_field :: "bytes \<Rightarrow> u8 \<Rightarrow> bytes \<Rightarrow> go_error + bytes" where
  "Resolve_field pub fid d = (if fid = 1 then Inr d else Inr pub)"

definition UnmarshalResolve :: "nanopack \<Rightarrow> bytes \<Rightarrow> go_error + bytes" where
  "UnmarshalResolve np body =
     unmarshal np 128 Resolve_field [] (\<lambda>pub. check (check_Resolve pub) pub) body"

record ResolveResponse =
  rv_MailboxID :: bytes
  rv_ShardURL :: string
  rv_Era :: u32
  rv_TableVersion :: u32

definition check_ResolveResponse :: "ResolveResponse \<Rightarrow> go_error option" where
  "check_ResolveResponse r =
     (if length (rv_MailboxID r) \<noteq> 16 \<or> rv_ShardURL r = [] then
        Some (perr ErrInvalidRequest ''bad resolve response'')
      else None)"

definition MarshalResolveResponse :: "nanopack \<Rightarrow> ResolveResponse \<Rightarrow> go_error + bytes" where
  "MarshalResolveResponse np r =
     marshal np (check_ResolveResponse r)
       [(1, rv_MailboxID r), (2, bytes_of (rv_ShardURL r)), (3, putU32 (rv_Era r)),
        (4, putU32 (rv_TableVersion r))]"

definition ResolveResponse_zero :: ResolveResponse where
  "ResolveResponse_zero = \<lparr>rv_MailboxID = [], rv_ShardURL = [], rv_Era = 0, rv_TableVersion = 0\<rparr>"

definition ResolveResponse_field :: "ResolveResponse \<Rightarrow> u8 \<Rightarrow> bytes \<Rightarrow> go_error + ResolveResponse" where
  "ResolveResponse_field out fid d =
     (if fid = 1 then Inr (out\<lparr>rv_MailboxID := d\<rparr>)
      else if fid = 2 then Inr (out\<lparr>rv_ShardURL := string_of d\<rparr>)
      else if fid = 3 then store_field (getU32 d) (\<lambda>v. out\<lparr>rv_Era := v\<rparr>)
      else if fid = 4 then store_field (getU32 d) (\<lambda>v. out\<lparr>rv_TableVersion := v\<rparr>)
      else Inr out)"

definition UnmarshalResolveResponse :: "nanopack \<Rightarrow> bytes \<Rightarrow> go_error + ResolveResponse" where
  "UnmarshalResolveResponse np body =
     unmarshal np 1024 ResolveResponse_field ResolveResponse_zero
       (\<lambda>out. check (check_ResolveResponse out) out) body"

section \<open>RoutingTable (56)\<close>

abbreviation (input) RoutingAlgoSHA256ModN :: u8 where "RoutingAlgoSHA256ModN \<equiv> 1"

record RoutingTable =
  rt_Version :: u32
  rt_GeneratedAt :: u64
  rt_ExpiresAt :: u64
  rt_Algorithm :: u8
  rt_Shards :: "string list"
  rt_ReplicationFactor :: u32
  rt_RouterPub :: bytes
  rt_Signature :: bytes

text \<open>Each shard URL as a two-byte big-endian length and its bytes; \<open>byte(n)\<close> truncates.\<close>

definition encodeShardList :: "string list \<Rightarrow> bytes" where
  "encodeShardList shards =
     concat (map (\<lambda>s. [word_of_nat (length s div 256), word_of_nat (length s)] @ bytes_of s) shards)"

text \<open>The unpacking loop, on the bytes from the read position on.\<close>

function decodeShardList :: "bytes \<Rightarrow> go_error + string list" where
  "decodeShardList blob =
     (if blob = [] then Inr []
      else if length blob < 2 then Inl ErrShortBody
      else
        let n = unat (blob ! 0) * 256 + unat (blob ! 1); rest = drop 2 blob in
        if n = 0 \<or> n > length rest then Inl ErrShortBody
        else (case decodeShardList (drop n rest) of
                Inl e \<Rightarrow> Inl e
              | Inr out \<Rightarrow> Inr (string_of (take n rest) # out)))"
  by pat_completeness auto
termination
  by (relation "measure length") auto

declare decodeShardList.simps [simp del]

definition check_RoutingTable :: "RoutingTable \<Rightarrow> go_error option" where
  "check_RoutingTable t =
     (if length (rt_RouterPub t) \<noteq> 32 \<or> length (rt_Signature t) \<noteq> 64 \<or> length (rt_Shards t) = 0 then
        Some (perr ErrInvalidRequest ''bad routing table'')
      else None)"

definition MarshalRoutingTable :: "nanopack \<Rightarrow> RoutingTable \<Rightarrow> go_error + bytes" where
  "MarshalRoutingTable np t =
     marshal np (check_RoutingTable t)
       [(1, putU32 (rt_Version t)), (2, putU64 (rt_GeneratedAt t)), (3, putU64 (rt_ExpiresAt t)),
        (4, [rt_Algorithm t]), (5, encodeShardList (rt_Shards t)),
        (6, putU32 (rt_ReplicationFactor t)), (7, rt_RouterPub t), (8, rt_Signature t)]"

definition RoutingTable_zero :: RoutingTable where
  "RoutingTable_zero =
     \<lparr>rt_Version = 0, rt_GeneratedAt = 0, rt_ExpiresAt = 0, rt_Algorithm = 0, rt_Shards = [],
      rt_ReplicationFactor = 0, rt_RouterPub = [], rt_Signature = []\<rparr>"

definition RoutingTable_field :: "RoutingTable \<Rightarrow> u8 \<Rightarrow> bytes \<Rightarrow> go_error + RoutingTable" where
  "RoutingTable_field out fid d =
     (if fid = 1 then store_field (getU32 d) (\<lambda>v. out\<lparr>rt_Version := v\<rparr>)
      else if fid = 2 then store_field (getU64 d) (\<lambda>v. out\<lparr>rt_GeneratedAt := v\<rparr>)
      else if fid = 3 then store_field (getU64 d) (\<lambda>v. out\<lparr>rt_ExpiresAt := v\<rparr>)
      else if fid = 4 then store_field (getU8 d) (\<lambda>v. out\<lparr>rt_Algorithm := v\<rparr>)
      else if fid = 5 then store_field (decodeShardList d) (\<lambda>v. out\<lparr>rt_Shards := v\<rparr>)
      else if fid = 6 then store_field (getU32 d) (\<lambda>v. out\<lparr>rt_ReplicationFactor := v\<rparr>)
      else if fid = 7 then Inr (out\<lparr>rt_RouterPub := d\<rparr>)
      else if fid = 8 then Inr (out\<lparr>rt_Signature := d\<rparr>)
      else Inr out)"

definition UnmarshalRoutingTable :: "nanopack \<Rightarrow> bytes \<Rightarrow> go_error + RoutingTable" where
  "UnmarshalRoutingTable np body =
     unmarshal np 8192 RoutingTable_field RoutingTable_zero
       (\<lambda>out. check (check_RoutingTable out) out) body"

section \<open>Round trips\<close>

lemma ValidateRegister_None:
  "ValidateRegister r = None \<longleftrightarrow>
     length (rg_ClientPub r) = 32 \<and> length (rg_Nonce r) = 16 \<and> length (rg_Signature r) = 64"
  by (auto simp: ValidateRegister_def)

lemma check_RegisterResponse_None:
  "check_RegisterResponse r = None \<longleftrightarrow>
     length (rr_MailboxID r) = 16 \<and> length (rr_ReadSecret r) = 32 \<and> rr_ShardURL r \<noteq> []"
  by (auto simp: check_RegisterResponse_def)

lemma check_ResolveResponse_None:
  "check_ResolveResponse r = None \<longleftrightarrow> length (rv_MailboxID r) = 16 \<and> rv_ShardURL r \<noteq> []"
  by (auto simp: check_ResolveResponse_def)

lemma check_RoutingTable_None:
  "check_RoutingTable t = None \<longleftrightarrow>
     length (rt_RouterPub t) = 32 \<and> length (rt_Signature t) = 64 \<and> rt_Shards t \<noteq> []"
  by (auto simp: check_RoutingTable_def)

definition shard_list_ok :: "string list \<Rightarrow> bool" where
  "shard_list_ok shards \<longleftrightarrow> (\<forall>s \<in> set shards. 0 < length s \<and> length s < 65536)"

lemma decode_encodeShardList:
  "shard_list_ok shards \<Longrightarrow> decodeShardList (encodeShardList shards) = Inr shards"
proof (induction shards)
  case Nil
  then show ?case by (simp add: encodeShardList_def decodeShardList.simps)
next
  case (Cons s shards)
  then have len: "0 < length s" "length s < 65536" and ok: "shard_list_ok shards"
    by (simp_all add: shard_list_ok_def)
  let ?rest = "bytes_of s @ encodeShardList shards"
  let ?hi = "word_of_nat (length s div 256) :: byte" and ?lo = "word_of_nat (length s) :: byte"
  have eq: "encodeShardList (s # shards) = ?hi # ?lo # ?rest"
    by (simp add: encodeShardList_def)
  have "unat ?hi = length s div 256" "unat ?lo = length s mod 256"
    using len by (simp_all add: unat_of_nat)
  then have n: "unat ?hi * 256 + unat ?lo = length s" by simp
  have "decodeShardList (?hi # ?lo # ?rest)
      = (case decodeShardList (drop (length s) ?rest) of
           Inl e \<Rightarrow> Inl e | Inr out \<Rightarrow> Inr (string_of (take (length s) ?rest) # out))"
    by (subst decodeShardList.simps) (use n len in \<open>simp add: Let_def\<close>)
  with Cons.IH ok show ?case by (simp add: eq)
qed

context nanopack_codec
begin

lemma hello_rt:
  assumes "MarshalHello np h = Inr body"
  shows "UnmarshalHello np body = Inr h"
  unfolding UnmarshalHello_def
  by (subst unmarshal_bytes [OF assms [unfolded MarshalHello_def]])
     (simp_all add: uleb_size_small(1) Hello_field_def)

lemma register_rt:
  assumes "MarshalRegister np r = Inr body"
  shows "UnmarshalRegister np body = Inr r"
proof -
  from assms have "ValidateRegister r = None" by (simp add: MarshalRegister_def marshal_Inr)
  then show ?thesis
    unfolding UnmarshalRegister_def
    by (subst unmarshal_marshal [OF assms [unfolded MarshalRegister_def]])
       (simp_all add: ValidateRegister_None uleb_size_small(1) Register_field_def Register_zero_def)
qed

lemma register_response_rt:
  assumes "MarshalRegisterResponse np r = Inr body" and "length (rr_ShardURL r) \<le> 900"
  shows "UnmarshalRegisterResponse np body = Inr r"
proof -
  have "uleb_size (length (rr_ShardURL r)) \<le> 2" using assms(2) by (intro uleb_size_small) simp
  moreover have "check_RegisterResponse r = None"
    using assms(1) by (simp add: MarshalRegisterResponse_def marshal_Inr)
  ultimately show ?thesis
    using assms(2) unfolding UnmarshalRegisterResponse_def
    by (subst unmarshal_marshal [OF assms(1) [unfolded MarshalRegisterResponse_def]])
       (simp_all add: check_RegisterResponse_None uleb_size_small(1) RegisterResponse_field_def
          RegisterResponse_zero_def)
qed

lemma resolve_rt:
  assumes "MarshalResolve np pub = Inr body"
  shows "UnmarshalResolve np body = Inr pub"
proof -
  from assms have "check_Resolve pub = None" by (simp add: MarshalResolve_def marshal_Inr)
  then show ?thesis
    unfolding UnmarshalResolve_def
    by (subst unmarshal_marshal [OF assms [unfolded MarshalResolve_def]])
       (simp_all add: check_Resolve_def uleb_size_small(1) Resolve_field_def split: if_splits)
qed

lemma resolve_response_rt:
  assumes "MarshalResolveResponse np r = Inr body" and "length (rv_ShardURL r) \<le> 900"
  shows "UnmarshalResolveResponse np body = Inr r"
proof -
  have "uleb_size (length (rv_ShardURL r)) \<le> 2" using assms(2) by (intro uleb_size_small) simp
  moreover have "check_ResolveResponse r = None"
    using assms(1) by (simp add: MarshalResolveResponse_def marshal_Inr)
  ultimately show ?thesis
    using assms(2) unfolding UnmarshalResolveResponse_def
    by (subst unmarshal_marshal [OF assms(1) [unfolded MarshalResolveResponse_def]])
       (simp_all add: check_ResolveResponse_None uleb_size_small(1) ResolveResponse_field_def
          ResolveResponse_zero_def)
qed

lemma routing_table_rt:
  assumes "MarshalRoutingTable np t = Inr body" and "shard_list_ok (rt_Shards t)"
    and "length (encodeShardList (rt_Shards t)) \<le> 8000"
  shows "UnmarshalRoutingTable np body = Inr t"
proof -
  have "uleb_size (length (encodeShardList (rt_Shards t))) \<le> 2"
    using assms(3) by (intro uleb_size_small) simp
  moreover have "check_RoutingTable t = None"
    using assms(1) by (simp add: MarshalRoutingTable_def marshal_Inr)
  ultimately show ?thesis
    using assms(3) decode_encodeShardList [OF assms(2)] unfolding UnmarshalRoutingTable_def
    by (subst unmarshal_marshal [OF assms(1) [unfolded MarshalRoutingTable_def]])
       (simp_all add: check_RoutingTable_None uleb_size_small(1) RoutingTable_field_def
          RoutingTable_zero_def)
qed

end

end
