(* ===== verification/Shard.thy ===== *)
theory Shard
  imports Store_Interface Handler_Monad Auth Wire_Control
begin

text \<open>
  The shard server (\<open>server/shard\<close>): the rate limits and the limiter, the replay keys, one definition
  per HTTP handler and the dispatch of \<open>NewHandler\<close>, over any implementation \<open>st\<close> of the store
  interface; then the legacy \<open>Server\<close> wrapper and the helpers of \<open>util.go\<close>.

  What a handler reads from outside is its environment: the handler clock, the store clock at its
  first, second and third store call, and the random draws of the store. \<open>verify\<close> is
  \<open>ed25519.Verify\<close> and \<open>np\<close> the serialisation library.
\<close>

section \<open>State and environment\<close>

record RateLimits =
  SendsPerSender :: int
  SendsPerTarget :: int
  SendsPerIP :: int
  ReceivesPerIP :: int
  PutsPerXfer :: int
  PutsPerIP :: int

definition DefaultRateLimits :: RateLimits where
  "DefaultRateLimits =
     \<lparr>SendsPerSender = 600, SendsPerTarget = 600, SendsPerIP = 1200, ReceivesPerIP = 1200,
      PutsPerXfer = 2000, PutsPerIP = 4000\<rparr>"

record 's Handler =
  h_store :: 's
  h_buckets :: buckets

definition NewHandler :: "'s \<Rightarrow> 's Handler" where
  "NewHandler s = \<lparr>h_store = s, h_buckets = []\<rparr>"

record environment =
  ev_now :: int
  ev_first :: int
  ev_second :: int
  ev_third :: int
  ev_id :: bytes
  ev_ticket :: "bytes option"

record 's server =
  sv_store :: "'s Store"
  sv_limits :: RateLimits
  sv_np :: nanopack
  sv_verify :: ed25519_verify

section \<open>Helpers\<close>

definition allow :: "string \<Rightarrow> int \<Rightarrow> int \<Rightarrow> buckets \<Rightarrow> bool \<times> buckets" where
  "allow key now mx b = (if mx \<le> 0 then (True, b) else allow_window key now mx b)"

definition replayDomainMsg :: bytes where "replayDomainMsg = bytes_of ''FR1/replay-msg'' @ [0]"
definition replayDomainCreate :: bytes where "replayDomainCreate = bytes_of ''FR1/replay-create'' @ [0]"
definition replayDomainComplete :: bytes where
  "replayDomainComplete = bytes_of ''FR1/replay-complete'' @ [0]"

definition replayKey :: "bytes \<Rightarrow> bytes \<Rightarrow> bytes \<Rightarrow> bytes" where
  "replayKey domain pub nonce = copy_array 32 (sha256 (domain @ pub @ nonce))"

definition to32 :: "bytes \<Rightarrow> bytes option" where
  "to32 b = (if length b \<noteq> 32 then None else Some (copy_array 32 b))"

definition to16 :: "bytes \<Rightarrow> bytes option" where
  "to16 b = (if length b \<noteq> 16 then None else Some (copy_array 16 b))"

text \<open>
  The steps of the handlers: a conversion that may fail, a store call, the limiter, the replay
  check and the method check.
\<close>

definition convert :: "'a option \<Rightarrow> ProtocolError \<Rightarrow> ('s, 'a) handler" where
  "convert r pe = (case r of None \<Rightarrow> hfail pe | Some x \<Rightarrow> hreturn x)"

definition call_store :: "('s \<Rightarrow> (go_error + 'a) \<times> 's) \<Rightarrow> ('s Handler, 'a) handler" where
  "call_store = hcall h_store (\<lambda>t h. h\<lparr>h_store := t\<rparr>)"

definition limited :: "string \<Rightarrow> int \<Rightarrow> int \<Rightarrow> ('s Handler, unit) handler" where
  "limited key now mx =
     hbind (hon h_buckets (\<lambda>b h. h\<lparr>h_buckets := b\<rparr>) (allow key now mx))
       (\<lambda>ok. hrequire ok rate_limited)"

definition fresh :: "'s Store \<Rightarrow> int \<Rightarrow> bytes \<Rightarrow> ('s Handler, unit) handler" where
  "fresh st t key =
     hbind (hon h_store (\<lambda>u h. h\<lparr>h_store := u\<rparr>) (st_CheckAndMarkReplay st t key))
       (\<lambda>seen. hrequire (\<not> seen) (mk_error ErrReplayDetected ''replay detected''))"

definition post_only :: "http_request \<Rightarrow> ('s, unit) handler" where
  "post_only r = hrequire (hr_Method r = MethodPost) method_not_allowed"

lemma convert_Inr [simp]: "convert r pe h = (Inr x, h') \<longleftrightarrow> r = Some x \<and> h' = h"
  by (auto simp: convert_def split: option.splits)

section \<open>The handlers\<close>

text \<open>Each handler ends with the schema id and the body that \<open>writeProto\<close> sends.\<close>

definition hello_body :: "nanopack \<Rightarrow> int \<Rightarrow> bytes" where
  "hello_body np now =
     (case MarshalHello np \<lparr>he_Major = ProtocolMajor, he_Minor = ProtocolMinor,
                             he_NowMS = u64_of_int64 now\<rparr> of
        Inl e \<Rightarrow> [] | Inr body \<Rightarrow> body)"

definition handleHello ::
  "'s server \<Rightarrow> environment \<Rightarrow> http_request \<Rightarrow> ('s Handler, u8 \<times> bytes) handler" where
  "handleHello sv ev r =
     hbind (hrequire (hr_Method r = MethodPost \<or> hr_Method r = MethodGet) method_not_allowed) (\<lambda>_.
     if hr_Method r = MethodGet then hreturn (SchemaHello, hello_body (sv_np sv) (ev_now ev))
     else
       hbind (hproto (readBody r 64)) (\<lambda>raw.
       hbind (hgo (UnmarshalHello (sv_np sv) raw)) (\<lambda>hello.
       hreturn (SchemaHello, hello_body (sv_np sv) (ev_now ev)))))"

definition handleSend ::
  "'s server \<Rightarrow> environment \<Rightarrow> http_request \<Rightarrow> ('s Handler, u8 \<times> bytes) handler" where
  "handleSend sv ev r =
     (let np = sv_np sv; st = sv_store sv; lim = sv_limits sv; now = ev_now ev in
     hbind (post_only r) (\<lambda>_.
     hbind (hproto (readBody r MaxRequestBytes)) (\<lambda>raw.
     hbind (hgo (UnmarshalSendMessage np raw)) (\<lambda>msg.
     hbind (convert (to32 (sm_SenderPub msg)) (mk_error ErrAuthFailed ''bad sender pub'')) (\<lambda>pub.
     hbind (convert (to16 (sm_MailboxID msg)) (mk_error ErrInvalidRequest ''bad mailbox'')) (\<lambda>mid.
     hbind (convert (to16 (sm_Nonce msg)) (mk_error ErrInvalidRequest ''bad nonce'')) (\<lambda>nonce.
     hbind (hcheck (VerifyMsgSend (sv_verify sv) (sm_SenderPub msg) mid (sm_Timestamp msg) nonce
                      (sm_Envelope msg) (sm_Signature msg) now)) (\<lambda>_.
     hbind (fresh st (ev_first ev) (replayKey replayDomainMsg (sm_SenderPub msg) (sm_Nonce msg))) (\<lambda>_.
     hbind (limited (''send-sender:'' @ hex_encode (sm_SenderPub msg)) now (SendsPerSender lim)) (\<lambda>_.
     hbind (limited (''send-target:'' @ hex_encode (sm_MailboxID msg)) now (SendsPerTarget lim)) (\<lambda>_.
     hbind (limited (''send-ip:'' @ clientIP r) now (SendsPerIP lim)) (\<lambda>_.
     hbind (call_store (st_SendMessage st (ev_second ev) (ev_id ev) msg)) (\<lambda>(msgID, queued).
     hbind (hgo (MarshalSendMessageResponse np 1 queued msgID)) (\<lambda>resp.
     hreturn (SchemaSendMessageResponse, resp)))))))))))))))"

definition handleReceive ::
  "'s server \<Rightarrow> environment \<Rightarrow> http_request \<Rightarrow> ('s Handler, u8 \<times> bytes) handler" where
  "handleReceive sv ev r =
     (let np = sv_np sv; st = sv_store sv; lim = sv_limits sv; now = ev_now ev in
     hbind (post_only r) (\<lambda>_.
     hbind (hproto (readBody r 256)) (\<lambda>raw.
     hbind (hgo (UnmarshalReceiveMessages np raw)) (\<lambda>req.
     hbind (limited (''recv-ip:'' @ clientIP r) now (ReceivesPerIP lim)) (\<lambda>_.
     let mid = copy_array 16 (rcv_MailboxID req);
         limit = int (unat (rcv_Limit req));
         limit = (if limit \<le> 0 then int MaxBatchMessages else limit) in
     hbind (call_store (st_ReceiveMessages st (ev_first ev) mid (rcv_ReadSecret req) limit
                          (rcv_Peek req = 1))) (\<lambda>(msgs, consumed).
     hbind (hgo (MarshalReceiveMessagesResponse np
                   (map (\<lambda>m. \<lparr>rm_MsgID = msg_ID m, rm_Envelope = msg_Envelope m\<rparr>) msgs) consumed)) (\<lambda>resp.
     hreturn (SchemaReceiveMessagesResponse, resp))))))))"

definition handleAck ::
  "'s server \<Rightarrow> environment \<Rightarrow> http_request \<Rightarrow> ('s Handler, u8 \<times> bytes) handler" where
  "handleAck sv ev r =
     (let np = sv_np sv; st = sv_store sv in
     hbind (post_only r) (\<lambda>_.
     hbind (hproto (readBody r (MaxBatchMessages * 16 + 256))) (\<lambda>raw.
     hbind (hgo (UnmarshalMessageAck np raw)) (\<lambda>req.
     let mid = copy_array 16 (ack_MailboxID req) in
     hbind (call_store (st_AckMessages st (ev_first ev) mid (ack_ReadSecret req) (ack_MsgIDs req)
                          (ack_Disposition req))) (\<lambda>(acked, remaining).
     hbind (hgo (MarshalMessageAckResponse np acked remaining)) (\<lambda>resp.
     hreturn (SchemaMessageAckResponse, resp)))))))"

definition handleCreate ::
  "'s server \<Rightarrow> environment \<Rightarrow> http_request \<Rightarrow> ('s Handler, u8 \<times> bytes) handler" where
  "handleCreate sv ev r =
     (let np = sv_np sv; st = sv_store sv; lim = sv_limits sv; now = ev_now ev in
     hbind (post_only r) (\<lambda>_.
     hbind (hproto (readBody r (MaxManifestBytes + 512))) (\<lambda>raw.
     hbind (hgo (UnmarshalTransferCreate np raw)) (\<lambda>req.
     hbind (convert (to32 (tc_SenderPub req)) (mk_error ErrAuthFailed ''bad sender pub'')) (\<lambda>pub.
     hbind (convert (to16 (tc_Nonce req)) (mk_error ErrInvalidRequest ''bad nonce'')) (\<lambda>nonce.
     let mid = (if length (tc_MailboxID req) = 16 then copy_array 16 (tc_MailboxID req)
                else replicate 16 0) in
     hbind (hcheck (VerifyXferCreate (sv_verify sv) (tc_SenderPub req) mid (tc_TotalSize req)
                      (tc_ChunkSize req) (tc_ChunkCount req) (tc_Timestamp req) nonce
                      (tc_Manifest req) (tc_Signature req) now)) (\<lambda>_.
     hbind (fresh st (ev_first ev) (replayKey replayDomainCreate (tc_SenderPub req) (tc_Nonce req))) (\<lambda>_.
     hbind (limited (''create-sender:'' @ hex_encode (tc_SenderPub req)) now (SendsPerSender lim)) (\<lambda>_.
     hbind (limited (''create-ip:'' @ clientIP r) now (SendsPerIP lim)) (\<lambda>_.
     hbind (call_store (st_CreateTransfer st (ev_second ev) (ev_id ev) (ev_ticket ev) req))
       (\<lambda>(tid, ticket, exp).
     hbind (hgo (MarshalTransferCreateResponse np
                   \<lparr>tcr_TransferID = tid, tcr_ExpiresAt = exp, tcr_ChunkSize = tc_ChunkSize req,
                    tcr_DownloadSecret = ticket\<rparr>)) (\<lambda>resp.
     hreturn (SchemaTransferCreateResponse, resp)))))))))))))"

definition handlePut ::
  "'s server \<Rightarrow> environment \<Rightarrow> http_request \<Rightarrow> ('s Handler, u8 \<times> bytes) handler" where
  "handlePut sv ev r =
     (let np = sv_np sv; st = sv_store sv; lim = sv_limits sv; now = ev_now ev in
     hbind (post_only r) (\<lambda>_.
     hbind (hproto (readBody r (MaxChunkBytes + 2048))) (\<lambda>raw.
     hbind (hgo (UnmarshalChunkUpload np raw)) (\<lambda>req.
     let tid = copy_array 16 (cu_TransferID req) in
     hbind (limited (''put-xfer:'' @ hex_encode (cu_TransferID req)) now (PutsPerXfer lim)) (\<lambda>_.
     hbind (limited (''put-ip:'' @ clientIP r) now (PutsPerIP lim)) (\<lambda>_.
     hbind (call_store (st_PutChunk st (ev_first ev) req)) (\<lambda>_.
     hbind (call_store (st_Progress st (ev_second ev) tid)) (\<lambda>(rv, _).
     hbind (hgo (MarshalChunkAck np
                   \<lparr>ca_TransferID = tid, ca_HighestContiguous = rw_HighestContiguous rv,
                    ca_MissingRanges = rw_MissingRanges rv, ca_Bitmap = rw_Bitmap rv,
                    ca_Encoding = rw_Encoding rv\<rparr>)) (\<lambda>resp.
     hreturn (SchemaChunkAck, resp))))))))))"

definition handleGet ::
  "'s server \<Rightarrow> environment \<Rightarrow> http_request \<Rightarrow> ('s Handler, u8 \<times> bytes) handler" where
  "handleGet sv ev r =
     (let np = sv_np sv; st = sv_store sv in
     hbind (post_only r) (\<lambda>_.
     hbind (hproto (readBody r 256)) (\<lambda>raw.
     hbind (hgo (UnmarshalChunkDownload np raw)) (\<lambda>req.
     let tid = copy_array 16 (cd_TransferID req); mid = copy_array 16 (cd_MailboxID req) in
     hbind (hrequire (cd_Count req = 1) (mk_error ErrInvalidRequest ''count must be 1 in v1'')) (\<lambda>_.
     hbind (if TicketMode (cd_Ticket req)
            then call_store (st_GetChunkByTicket st (ev_first ev) tid (cd_Ticket req) (cd_Index req))
            else call_store (st_GetChunk st (ev_first ev) tid mid (cd_ReadSecret req) (cd_Index req)))
       (\<lambda>(payload, hash).
     hbind (hgo (MarshalChunkDownloadResponse np
                   \<lparr>cdr_TransferID = tid, cdr_Index = cd_Index req, cdr_Payload = payload,
                    cdr_ChunkHash = hash\<rparr>)) (\<lambda>resp.
     hreturn (SchemaChunkDownloadResponse, resp))))))))"

definition handleResume ::
  "'s server \<Rightarrow> environment \<Rightarrow> http_request \<Rightarrow> ('s Handler, u8 \<times> bytes) handler" where
  "handleResume sv ev r =
     (let np = sv_np sv; st = sv_store sv in
     hbind (post_only r) (\<lambda>_.
     hbind (hproto (readBody r 256)) (\<lambda>raw.
     hbind (hgo (UnmarshalResumeRequest np raw)) (\<lambda>req.
     let tid = copy_array 16 (rq_TransferID req); mid = copy_array 16 (rq_MailboxID req) in
     hbind (if TicketMode (rq_Ticket req)
            then call_store (st_ResumeByTicket st (ev_first ev) tid (rq_Ticket req))
            else call_store (st_Resume st (ev_first ev) tid mid (rq_ReadSecret req)))
       (\<lambda>(rv, tv).
     hbind (hgo (MarshalResumeResponse np
                   \<lparr>rp_TransferID = tid, rp_ChunkCount = rw_ChunkCount rv,
                    rp_HighestContiguous = rw_HighestContiguous rv, rp_Encoding = rw_Encoding rv,
                    rp_Bitmap = rw_Bitmap rv, rp_MissingRanges = rw_MissingRanges rv\<rparr>)) (\<lambda>resp.
     hreturn (SchemaResumeResponse, resp)))))))"

text \<open>\<open>CompleteTransfer\<close> returns its error beside the counts: the handler looks at the error first.\<close>

definition complete_call :: "(complete_result \<times> 's) \<Rightarrow> (go_error + complete_result) \<times> 's" where
  "complete_call = (\<lambda>(res, s). (case cr_err res of Some e \<Rightarrow> Inl e | None \<Rightarrow> Inr res, s))"

definition handleComplete ::
  "'s server \<Rightarrow> environment \<Rightarrow> http_request \<Rightarrow> ('s Handler, u8 \<times> bytes) handler" where
  "handleComplete sv ev r =
     (let np = sv_np sv; st = sv_store sv; now = ev_now ev in
     hbind (post_only r) (\<lambda>_.
     hbind (hproto (readBody r 512)) (\<lambda>raw.
     hbind (hgo (UnmarshalTransferComplete np raw)) (\<lambda>req.
     hbind (convert (to32 (tf_SenderPub req)) (mk_error ErrAuthFailed ''bad sender pub'')) (\<lambda>pub.
     let tid = copy_array 16 (tf_TransferID req); mhash = copy_array 32 (tf_ManifestHash req) in
     hbind (convert (to16 (tf_Nonce req)) (mk_error ErrInvalidRequest ''bad nonce'')) (\<lambda>nonce.
     hbind (hcheck (VerifyXferComplete (sv_verify sv) (tf_SenderPub req) tid mhash (tf_Timestamp req)
                      nonce (tf_Signature req) now)) (\<lambda>_.
     hbind (fresh st (ev_first ev) (replayKey replayDomainComplete (tf_SenderPub req) (tf_Nonce req))) (\<lambda>_.
     hbind (call_store (st_GetTransfer st (ev_second ev) tid)) (\<lambda>tv.
     hbind (hrequire (tv_SenderPub tv = tf_SenderPub req)
              (mk_error ErrAuthFailed ''sender mismatch'')) (\<lambda>_.
     hbind (call_store (\<lambda>s. complete_call (st_CompleteTransfer st (ev_third ev) req s))) (\<lambda>res.
     hbind (hgo (MarshalTransferCompleteResponse np
                   \<lparr>tfr_Sealed = (if cr_sealed res then 1 else 0), tfr_ChunkCount = cr_count res,
                    tfr_Present = cr_present res\<rparr>)) (\<lambda>resp.
     hreturn (SchemaTransferCompleteResponse, resp)))))))))))))"

definition handleCancel ::
  "'s server \<Rightarrow> environment \<Rightarrow> http_request \<Rightarrow> ('s Handler, u8 \<times> bytes) handler" where
  "handleCancel sv ev r =
     (let np = sv_np sv; st = sv_store sv in
     hbind (post_only r) (\<lambda>_.
     hbind (hproto (readBody r 256)) (\<lambda>raw.
     hbind (hgo (UnmarshalTransferCancel np raw)) (\<lambda>req.
     let tid = copy_array 16 (tx_TransferID req); mid = copy_array 16 (tx_MailboxID req) in
     hbind (hon h_store (\<lambda>t h. h\<lparr>h_store := t\<rparr>)
              (st_CancelTransfer st (ev_first ev) tid mid (tx_ReadSecret req))) (\<lambda>err.
     hbind (hcheck err) (\<lambda>_.
     hbind (hgo (MarshalMessageAckResponse np 1 0)) (\<lambda>resp.
     hreturn (SchemaMessageAckResponse, resp))))))))"

section \<open>Dispatch\<close>

definition routes ::
  "(string \<times> ('s server \<Rightarrow> environment \<Rightarrow> http_request \<Rightarrow> ('s Handler, u8 \<times> bytes) handler)) list" where
  "routes =
     [(RouteHello, handleHello), (RouteSend, handleSend), (RouteReceive, handleReceive),
      (RouteAck, handleAck), (RouteTransferCreate, handleCreate), (RouteChunkPut, handlePut),
      (RouteChunkGet, handleGet), (RouteResume, handleResume), (RouteComplete, handleComplete),
      (RouteCancel, handleCancel)]"

definition respond :: "nanopack \<Rightarrow> ('s, u8 \<times> bytes) handler \<Rightarrow> 's \<Rightarrow> http_response \<times> 's" where
  "respond np m s =
     (case m s of
        (Inl pe, s') \<Rightarrow> (shard_writeError np pe, s')
      | (Inr (schemaID, body), s') \<Rightarrow> (writeProto schemaID body, s'))"

text \<open>\<open>None\<close>: no registered pattern, which the multiplexer of \<open>net/http\<close> answers itself.\<close>

definition ServeHTTP ::
  "'s server \<Rightarrow> environment \<Rightarrow> http_request \<Rightarrow> 's Handler \<Rightarrow> http_response option \<times> 's Handler" where
  "ServeHTTP sv ev r h =
     (case map_of routes (hr_Path r) of
        None \<Rightarrow> (None, h)
      | Some handle \<Rightarrow> map_prod Some id (respond (sv_np sv) (handle sv ev r) h))"

section \<open>The legacy server and util.go\<close>

definition Server_Send :: "int \<Rightarrow> bytes \<Rightarrow> SendMessage \<Rightarrow> MemStore \<Rightarrow> (go_error + bytes) \<times> MemStore" where
  "Server_Send now newID m s = map_prod (map_sum id fst) id (SendMessage now newID m s)"

definition Server_Receive ::
  "int \<Rightarrow> bytes \<Rightarrow> bytes \<Rightarrow> int \<Rightarrow> bool \<Rightarrow> MemStore \<Rightarrow> (go_error + bytes list) \<times> MemStore" where
  "Server_Receive now mailboxID readSecret limit peek s =
     map_prod (map_sum id (\<lambda>(msgs, _). map msg_Envelope msgs)) id
       (ReceiveMessages now (copy_array 16 mailboxID) readSecret limit (\<not> peek) s)"

definition hash16 :: "bytes \<Rightarrow> bytes" where "hash16 b = take 16 (sha256 b)"

definition checkSecret :: "bytes \<Rightarrow> bytes \<Rightarrow> bool" where
  "checkSecret digest provided =
     (length provided = 32 \<and> list_all (\<lambda>i. digest ! i = sha256 provided ! i) [0..<32])"

end
