(* ===== verification/Router.thy ===== *)
theory Router
  imports Shard
begin

text \<open>
  The router (\<open>server/router/handler.go\<close>): its configuration and state, the placement of mailboxes on
  shards, its rate limiter and replay cache, and its handlers. A shard reference is a URL with the
  state of the store behind it; two references to one store object are not modelled. The signing key
  is the function \<open>sign\<close>; the random read secret is drawn by the environment (\<open>None\<close>: the source fails),
  which also gives the clock of every store a request probes.
\<close>

section \<open>Configuration and state\<close>

record 's Config =
  cfg_Secret :: bytes
  cfg_Version :: u32
  cfg_RouterPub :: bytes
  cfg_sign :: "bytes \<Rightarrow> bytes"
  cfg_MaxRegistersPerIP :: int
  cfg_MaxResolvesPerIP :: int
  cfg_store :: "'s Store"
  cfg_np :: nanopack
  cfg_verify :: ed25519_verify

record 's Router =
  ro_shards :: "(string \<times> 's) list"
  ro_regRL :: buckets
  ro_resRL :: buckets
  ro_replay :: "(bytes \<times> int) list"

definition NewRouter :: "(string \<times> 's) list \<Rightarrow> 's Router" where
  "NewRouter shards = \<lparr>ro_shards = shards, ro_regRL = [], ro_resRL = [], ro_replay = []\<rparr>"

definition maxReg :: "'s Config \<Rightarrow> int" where
  "maxReg cfg = (if cfg_MaxRegistersPerIP cfg \<le> 0 then 600 else cfg_MaxRegistersPerIP cfg)"

definition maxRes :: "'s Config \<Rightarrow> int" where
  "maxRes cfg = (if cfg_MaxResolvesPerIP cfg \<le> 0 then 1200 else cfg_MaxResolvesPerIP cfg)"

record router_env =
  re_now :: int
  re_store :: int
  re_probe :: "nat \<Rightarrow> int"
  re_secret :: "bytes option"

section \<open>Placement\<close>

text \<open>The length of a slice fits \<open>uint\<close>, so the remainder is taken on natural numbers.\<close>

definition Owner :: "bytes \<Rightarrow> string list \<Rightarrow> string" where
  "Owner mailboxID shardURLs =
     (if length shardURLs = 0 then []
      else
        let h = sha256 mailboxID;
            v = push_bit 24 (ucast (h ! 0) :: u64) OR push_bit 16 (ucast (h ! 1))
                OR push_bit 8 (ucast (h ! 2)) OR ucast (h ! 3)
        in shardURLs ! (unat v mod length shardURLs))"

definition shardURLs :: "'s Router \<Rightarrow> string list" where
  "shardURLs h = map fst (ro_shards h)"

text \<open>The index of the first shard with the URL.\<close>

fun find_from :: "string \<Rightarrow> nat \<Rightarrow> (string \<times> 's) list \<Rightarrow> nat option" where
  "find_from url i [] = None"
| "find_from url i ((u, s) # shards) = (if u = url then Some i else find_from url (Suc i) shards)"

definition findShard :: "string \<Rightarrow> 's Router \<Rightarrow> nat option" where
  "findShard url h = find_from url 0 (ro_shards h)"

section \<open>Rate limiting and replay\<close>

definition allowRL :: "string \<Rightarrow> int \<Rightarrow> int \<Rightarrow> buckets \<Rightarrow> bool \<times> buckets" where
  "allowRL key now mx table = allow_window key now mx table"

definition replay_key :: "bytes \<Rightarrow> bytes \<Rightarrow> bytes" where
  "replay_key pub nonce = copy_array 32 (sha256 (DomainRegister @ pub @ nonce))"

definition mark_key :: "int \<Rightarrow> bytes \<Rightarrow> (bytes \<times> int) list \<Rightarrow> bool \<times> (bytes \<times> int) list" where
  "mark_key now key m =
     (if (case map_of m key of Some exp \<Rightarrow> now < exp | None \<Rightarrow> False) then (True, m)
      else (False, AList.update key (i64 (now + ReplayWindowSeconds * 1000))
                     (filter (\<lambda>(k, exp). \<not> now \<ge> exp) m)))"

definition checkReplay :: "bytes \<Rightarrow> bytes \<Rightarrow> int \<Rightarrow> (bytes \<times> int) list \<Rightarrow> bool \<times> (bytes \<times> int) list" where
  "checkReplay pub nonce now m = mark_key now (replay_key pub nonce) m"

section \<open>Handlers\<close>

definition store_at :: "nat \<Rightarrow> 's Router \<Rightarrow> 's" where
  "store_at i h = snd (ro_shards h ! i)"

definition put_store :: "nat \<Rightarrow> 's \<Rightarrow> 's Router \<Rightarrow> 's Router" where
  "put_store i s h = h\<lparr>ro_shards := (ro_shards h)[i := (fst (ro_shards h ! i), s)]\<rparr>"

definition unavailable :: "string \<Rightarrow> ProtocolError" where
  "unavailable detail = mk_error ErrServerUnavailable detail"

definition router_handleRegister ::
  "'s Config \<Rightarrow> router_env \<Rightarrow> http_request \<Rightarrow> ('s Router, http_response) handler" where
  "router_handleRegister cfg ev r =
     (let np = cfg_np cfg; now = re_now ev in
     hbind (post_only r) (\<lambda>_.
     hbind (hon ro_regRL (\<lambda>b h. h\<lparr>ro_regRL := b\<rparr>)
              (allowRL (''reg-ip:'' @ clientIP r) now (maxReg cfg))) (\<lambda>ok.
     hbind (hrequire ok rate_limited) (\<lambda>_.
     hbind (hproto (readBody r 256)) (\<lambda>raw.
     hbind (hgo (UnmarshalRegister np raw)) (\<lambda>req.
     let nonce = copy_array 16 (rg_Nonce req) in
     hbind (hcheck (VerifyRegister (cfg_verify cfg) (rg_ClientPub req) (rg_Timestamp req) nonce
                      (rg_Signature req) now)) (\<lambda>_.
     hbind (hon ro_replay (\<lambda>m h. h\<lparr>ro_replay := m\<rparr>)
              (checkReplay (rg_ClientPub req) (rg_Nonce req) now)) (\<lambda>replayed.
     hbind (hrequire (\<not> replayed) (mk_error ErrReplayDetected ''replay detected'')) (\<lambda>_.
     hbind (hrequire (length (cfg_Secret cfg) \<noteq> 0) (unavailable ''router not configured'')) (\<lambda>_ h.
     let mailboxID = MailboxIDFromPub (cfg_Secret cfg) (rg_ClientPub req); urls = shardURLs h;
         primary = Owner mailboxID urls in
     hbind (hrequire (length urls \<noteq> 0) (unavailable ''no shards'')) (\<lambda>_.
     hbind (convert (findShard primary h) (unavailable ''shard not found'')) (\<lambda>ref.
     hbind (convert (re_secret ev) (mk_error ErrStorageUnavailable ''rand failed'')) (\<lambda>secret.
     hbind (hcall (store_at ref) (put_store ref)
              (st_CreateMailbox (cfg_store cfg) (re_store ev) mailboxID (sha256 secret))) (\<lambda>_.
     hbind (hgo (MarshalRegisterResponse np
                   \<lparr>rr_MailboxID = mailboxID, rr_ReadSecret = secret, rr_ShardURL = primary,
                    rr_TableVersion = cfg_Version cfg,
                    rr_ExpiresAt = u64_of_int64 (i64 (now + CapabilityTTLSeconds * 1000))\<rparr>)) (\<lambda>resp.
     hreturn (writeProto SchemaRegisterResponse resp)))))) h))))))))))"

text \<open>The probe of the shards, primary first, for one that holds the mailbox.\<close>

definition probe_order :: "string \<Rightarrow> string list \<Rightarrow> string list" where
  "probe_order primary urls = primary # filter (\<lambda>u. u \<noteq> primary) urls"

fun era_walk :: "'s Config \<Rightarrow> router_env \<Rightarrow> bytes \<Rightarrow> 's Router \<Rightarrow> string list \<Rightarrow> string option" where
  "era_walk cfg ev mailboxID h [] = None"
| "era_walk cfg ev mailboxID h (u # us) =
     (case findShard u h of
        Some ref \<Rightarrow>
          if st_MailboxExists (cfg_store cfg) (re_probe ev ref) mailboxID (store_at ref h) then Some u
          else era_walk cfg ev mailboxID h us
      | None \<Rightarrow> era_walk cfg ev mailboxID h us)"

definition router_handleResolve ::
  "'s Config \<Rightarrow> router_env \<Rightarrow> http_request \<Rightarrow> ('s Router, http_response) handler" where
  "router_handleResolve cfg ev r =
     (let np = cfg_np cfg; now = re_now ev in
     hbind (post_only r) (\<lambda>_.
     hbind (hon ro_resRL (\<lambda>b h. h\<lparr>ro_resRL := b\<rparr>)
              (allowRL (''res-ip:'' @ clientIP r) now (maxRes cfg))) (\<lambda>ok.
     hbind (hrequire ok rate_limited) (\<lambda>_.
     hbind (hproto (readBody r 128)) (\<lambda>raw.
     hbind (hgo (UnmarshalResolve np raw)) (\<lambda>pub h.
     let mailboxID = MailboxIDFromPub (cfg_Secret cfg) pub; urls = shardURLs h;
         primary = Owner mailboxID urls;
         url = (case era_walk cfg ev mailboxID h (probe_order primary urls) of
                  Some u \<Rightarrow> u | None \<Rightarrow> primary) in
     hbind (hrequire (length (cfg_Secret cfg) \<noteq> 0 \<and> length (ro_shards h) \<noteq> 0)
              (unavailable ''router not configured'')) (\<lambda>_.
     hbind (hgo (MarshalResolveResponse np
                   \<lparr>rv_MailboxID = mailboxID, rv_ShardURL = url, rv_Era = 0,
                    rv_TableVersion = cfg_Version cfg\<rparr>)) (\<lambda>resp.
     hreturn (writeProto SchemaResolveResponse resp))) h))))))"

definition router_handleTable ::
  "'s Config \<Rightarrow> router_env \<Rightarrow> http_request \<Rightarrow> ('s Router, http_response) handler" where
  "router_handleTable cfg ev r h =
     (let now = re_now ev; urls = shardURLs h; gen = u64_of_int64 now;
          exp = u64_of_int64 (i64 (now + RoutingTableTTLSeconds * 1000));
          sig = cfg_sign cfg (CanonicalRoutingTable (cfg_Version cfg) gen exp RoutingAlgoSHA256ModN urls
                                (cfg_RouterPub cfg)) in
     hbind (hrequire (hr_Method r = MethodGet \<or> hr_Method r = MethodPost) method_not_allowed) (\<lambda>_.
     hbind (hrequire (length urls \<noteq> 0) (unavailable ''no shards'')) (\<lambda>_.
     hbind (hgo (MarshalRoutingTable (cfg_np cfg)
                   \<lparr>rt_Version = cfg_Version cfg, rt_GeneratedAt = gen, rt_ExpiresAt = exp,
                    rt_Algorithm = RoutingAlgoSHA256ModN, rt_Shards = urls, rt_ReplicationFactor = 1,
                    rt_RouterPub = cfg_RouterPub cfg, rt_Signature = sig\<rparr>)) (\<lambda>body.
     hreturn ((writeProto SchemaRoutingTable body)\<lparr>rs_CacheControl := ''public, max-age=60''\<rparr>)))) h)"

definition router_handleHello ::
  "'s Config \<Rightarrow> router_env \<Rightarrow> http_request \<Rightarrow> ('s Router, http_response) handler" where
  "router_handleHello cfg ev r =
     hbind (hrequire (hr_Method r = MethodPost \<or> hr_Method r = MethodGet) method_not_allowed) (\<lambda>_.
     if hr_Method r = MethodGet then hreturn (writeProto SchemaHello (hello_body (cfg_np cfg) (re_now ev)))
     else
       hbind (hproto (readBody r 64)) (\<lambda>raw.
       hbind (hgo (UnmarshalHello (cfg_np cfg) raw)) (\<lambda>_.
       hreturn (writeProto SchemaHello (hello_body (cfg_np cfg) (re_now ev))))))"

definition router_dispatch ::
  "'s Config \<Rightarrow> router_env \<Rightarrow> http_request \<Rightarrow> ('s Router, http_response) handler" where
  "router_dispatch cfg ev r =
     (if hr_Path r = RouteRegister then router_handleRegister cfg ev r
      else if hr_Path r = RouteResolve then router_handleResolve cfg ev r
      else if hr_Path r = RouteTable then router_handleTable cfg ev r
      else if hr_Path r = RouteHello then router_handleHello cfg ev r
      else hfail (mk_error ErrInvalidRequest ''unknown route''))"

definition router_ServeHTTP ::
  "'s Config \<Rightarrow> router_env \<Rightarrow> http_request \<Rightarrow> 's Router \<Rightarrow> http_response \<times> 's Router" where
  "router_ServeHTTP cfg ev r h =
     (case router_dispatch cfg ev r h of
        (Inl pe, h') \<Rightarrow> (router_writeError (cfg_np cfg) pe, h')
      | (Inr resp, h') \<Rightarrow> (resp, h'))"

section \<open>Placement finds a shard\<close>

lemma Owner_in: "urls \<noteq> [] \<Longrightarrow> Owner mid urls \<in> set urls"
  by (simp add: Owner_def Let_def)

lemma find_from_Some:
  "find_from url i shards = Some j \<longleftrightarrow>
     i \<le> j \<and> j - i < length shards \<and> fst (shards ! (j - i)) = url
     \<and> (\<forall>k < j - i. fst (shards ! k) \<noteq> url)"
proof (induction url i shards rule: find_from.induct)
  case (2 url i u s shards)
  show ?case
  proof (cases "u = url")
    case True
    then show ?thesis by (cases "j = i") (auto simp: neq0_conv [symmetric] simp del: neq0_conv intro!: exI [of _ 0])
  next
    case False
    have "i \<le> j \<and> j - i < length ((u, s) # shards) \<and> fst (((u, s) # shards) ! (j - i)) = url
        \<and> (\<forall>k < j - i. fst (((u, s) # shards) ! k) \<noteq> url)
      \<longleftrightarrow> Suc i \<le> j \<and> j - Suc i < length shards \<and> fst (shards ! (j - Suc i)) = url
        \<and> (\<forall>k < j - Suc i. fst (shards ! k) \<noteq> url)"
    proof (cases "Suc i \<le> j")
      case True
      then obtain d where "j = Suc i + d" using le_Suc_ex by blast
      then show ?thesis using False by (auto simp: Suc_diff_le less_Suc_eq_0_disj)
    next
      case False': False
      then show ?thesis using False by (cases "i = j") auto
    qed
    with 2 False show ?thesis by simp
  qed
qed simp

lemma findShard_Some:
  "findShard url h = Some j \<longleftrightarrow>
     j < length (ro_shards h) \<and> shardURLs h ! j = url \<and> (\<forall>k < j. shardURLs h ! k \<noteq> url)"
  by (auto simp: findShard_def find_from_Some shardURLs_def)

lemma findShard_total: "url \<in> set (shardURLs h) \<Longrightarrow> \<exists>j. findShard url h = Some j"
proof -
  have "url \<in> set (map fst shards) \<Longrightarrow> \<exists>j. find_from url i shards = Some j" for i and shards :: "(string \<times> 'a) list"
    by (induction url i shards rule: find_from.induct) auto
  then show "url \<in> set (shardURLs h) \<Longrightarrow> \<exists>j. findShard url h = Some j"
    by (simp add: findShard_def shardURLs_def)
qed

lemma findShard_cong: "shardURLs h = shardURLs h' \<Longrightarrow> findShard url h = findShard url h'"
proof -
  have "map fst a = map fst b \<Longrightarrow> find_from url i a = find_from url i b" for i and a :: "(string \<times> 'a) list" and b :: "(string \<times> 'b) list"
  proof (induction a arbitrary: b i)
    case (Cons x a)
    then show ?case by (cases b; cases x; cases "hd b") auto
  qed simp
  then show "shardURLs h = shardURLs h' \<Longrightarrow> findShard url h = findShard url h'"
    by (simp add: findShard_def shardURLs_def)
qed

lemma put_store_sel [simp]:
  "shardURLs (put_store i s h) = shardURLs h"
  "i < length (ro_shards h) \<Longrightarrow> store_at i (put_store i s h) = s"
proof -
  show "shardURLs (put_store i s h) = shardURLs h"
    by (cases "i < length (ro_shards h)")
       (auto intro!: nth_equalityI simp: put_store_def shardURLs_def nth_list_update)
  show "i < length (ro_shards h) \<Longrightarrow> store_at i (put_store i s h) = s"
    by (simp add: put_store_def store_at_def)
qed

section \<open>The replay cache and the limiters\<close>

interpretation router_replay: replay_cache mark_key "\<lambda>m. map_of m" "\<lambda>now. i64 (now + ReplayWindowSeconds * 1000)"
  "\<lambda>m. distinct (map fst m)"
proof
  fix m :: "(bytes \<times> int) list" and now :: int and k k' :: bytes
  assume d: "distinct (map fst m)"
  show "fst (mark_key now k m) \<longleftrightarrow> seen (\<lambda>m. map_of m) now k m"
    by (auto simp: mark_key_def seen_def)
  show "map_of (snd (mark_key now k m)) k = Some (i64 (now + ReplayWindowSeconds * 1000))"
    if "\<not> seen (\<lambda>m. map_of m) now k m"
    using that by (auto simp: mark_key_def seen_def update_conv' split: option.splits)
  show "map_of (snd (mark_key now k m)) k' = map_of m k'" if "seen (\<lambda>m. map_of m) now k' m"
    using that d by (auto simp: mark_key_def seen_def update_conv' map_of_filter_keys split: option.splits)
  show "distinct (map fst (snd (mark_key now k m)))"
    using d by (auto simp: mark_key_def distinct_update distinct_map_filter)
qed

section \<open>What an accepted request did\<close>

lemma router_handleRegister_Inr:
  assumes "router_handleRegister cfg ev r h = (Inr resp, h')"
  obtains raw req ref secret s' body c where
    "readBody r 256 = Inr raw" "UnmarshalRegister (cfg_np cfg) raw = Inr req"
    "VerifyRegister (cfg_verify cfg) (rg_ClientPub req) (rg_Timestamp req) (copy_array 16 (rg_Nonce req))
       (rg_Signature req) (re_now ev) = None"
    "\<not> fst (checkReplay (rg_ClientPub req) (rg_Nonce req) (re_now ev) (ro_replay h))"
    "ro_replay h' = snd (checkReplay (rg_ClientPub req) (rg_Nonce req) (re_now ev) (ro_replay h))"
    "findShard (Owner (MailboxIDFromPub (cfg_Secret cfg) (rg_ClientPub req)) (shardURLs h)) h = Some ref"
    "re_secret ev = Some secret"
    "st_CreateMailbox (cfg_store cfg) (re_store ev) (MailboxIDFromPub (cfg_Secret cfg) (rg_ClientPub req))
       (sha256 secret) (store_at ref h) = (Inr c, s')"
    "ro_shards h' = ro_shards (put_store ref s' h)"
    "MarshalRegisterResponse (cfg_np cfg)
       \<lparr>rr_MailboxID = MailboxIDFromPub (cfg_Secret cfg) (rg_ClientPub req), rr_ReadSecret = secret,
        rr_ShardURL = Owner (MailboxIDFromPub (cfg_Secret cfg) (rg_ClientPub req)) (shardURLs h),
        rr_TableVersion = cfg_Version cfg,
        rr_ExpiresAt = u64_of_int64 (i64 (re_now ev + CapabilityTTLSeconds * 1000))\<rparr> = Inr body"
    "resp = writeProto SchemaRegisterResponse body"
proof -
  have frame: "shardURLs (h\<lparr>ro_regRL := b, ro_replay := m\<rparr>) = shardURLs h"
    "findShard u (h\<lparr>ro_regRL := b, ro_replay := m\<rparr>) = findShard u h"
    "store_at i (h\<lparr>ro_regRL := b, ro_replay := m\<rparr>) = store_at i h" for b m u i
    by (simp_all add: shardURLs_def findShard_def store_at_def)
  show thesis
    using assms that
    by (auto simp: router_handleRegister_def Let_def hbind_Inr hon_Inr hcall_Inr post_only_def
          frame put_store_def)
qed

end
