(* ===== verification/Shard_Safety.thy ===== *)
theory Shard_Safety
  imports Shard Message_Queue
begin

text \<open>
  What holds of every request a shard serves. A request moves the store by calls of the store
  interface only (\<open>calls\<close>), so it keeps the store's invariant and its marked replay keys; this is
  proved once from the interface contract and used for \<open>MemStore\<close>. Then: what an accepted send has
  passed, that a signed message is accepted at most once, and who can seal a transfer.
\<close>

section \<open>Requests act through the store interface\<close>

inductive calls :: "'s Store \<Rightarrow> int set \<Rightarrow> 's \<Rightarrow> 's \<Rightarrow> bool" for st :: "'s Store" and T :: "int set" where
  calls_refl: "calls st T s s"
| calls_step: "calls st T s s' \<Longrightarrow> now \<in> T \<Longrightarrow> store_call st now s' s'' \<Longrightarrow> calls st T s s''"

lemma calls_one: "now \<in> T \<Longrightarrow> store_call st now s s' \<Longrightarrow> calls st T s s'"
  by (rule calls_step [OF calls_refl])

lemma calls_trans: "calls st T s' s'' \<Longrightarrow> calls st T s s' \<Longrightarrow> calls st T s s''"
  by (induction rule: calls.induct) (auto intro: calls_step)

definition store_moves :: "'s Store \<Rightarrow> int set \<Rightarrow> 's Handler \<Rightarrow> 's Handler \<Rightarrow> bool" where
  "store_moves st T h h' \<longleftrightarrow> calls st T (h_store h) (h_store h')"

interpretation by_calls: state_order "store_moves st T" for st :: "'s Store" and T
  by unfold_locales (auto simp: store_moves_def intro: calls_refl calls_trans)

definition call_times :: "environment \<Rightarrow> int set" where
  "call_times ev = {ev_first ev, ev_second ev, ev_third ev}"

lemma in_call_times [simp]: "ev_first ev \<in> call_times ev" "ev_second ev \<in> call_times ev" "ev_third ev \<in> call_times ev"
  by (simp_all add: call_times_def)

lemma moves_call_store:
  "(\<And>s. calls st T s (snd (f s))) \<Longrightarrow> moves (store_moves st T) (call_store f)"
  unfolding call_store_def by (rule by_calls.moves_call) (simp add: store_moves_def)

lemma moves_limited: "moves (store_moves st T) (limited key now mx)"
  unfolding limited_def
  by (intro by_calls.moves_bind by_calls.moves_on by_calls.moves_pure)
     (simp add: store_moves_def calls_refl)

lemma moves_fresh: "t \<in> T \<Longrightarrow> moves (store_moves st T) (fresh st t key)"
  unfolding fresh_def
  by (intro by_calls.moves_bind by_calls.moves_on by_calls.moves_pure)
     (auto simp: store_moves_def intro: calls_one call_CheckAndMarkReplay)

lemma moves_convert: "moves (store_moves st T) (convert r pe)"
  by (cases r) (simp_all add: convert_def by_calls.moves_pure)

lemma moves_post: "moves (store_moves st T) (post_only r)"
  by (simp add: post_only_def by_calls.moves_pure)

lemma snd_complete_call [simp]: "snd (complete_call rs) = snd rs"
  by (simp add: complete_call_def split: prod.splits)

lemmas handler_moves =
  by_calls.moves_bind by_calls.moves_pure moves_call_store moves_limited moves_fresh moves_convert
  moves_post by_calls.moves_if in_call_times

lemmas call_intros = calls_one [OF in_call_times(1)] calls_one [OF in_call_times(2)] calls_one [OF in_call_times(3)]

lemma handleHello_moves: "moves (store_moves (sv_store sv) (call_times ev)) (handleHello sv ev r)"
  unfolding handleHello_def by (intro handler_moves)

lemma handleSend_moves: "moves (store_moves (sv_store sv) (call_times ev)) (handleSend sv ev r)"
  unfolding handleSend_def Let_def
  by (intro handler_moves moves_case_prod call_intros call_SendMessage)

lemma handleReceive_moves: "moves (store_moves (sv_store sv) (call_times ev)) (handleReceive sv ev r)"
  unfolding handleReceive_def Let_def
  by (intro handler_moves moves_case_prod call_intros call_ReceiveMessages)

lemma handleAck_moves: "moves (store_moves (sv_store sv) (call_times ev)) (handleAck sv ev r)"
  unfolding handleAck_def Let_def
  by (intro handler_moves moves_case_prod call_intros call_AckMessages)

lemma handleCreate_moves: "moves (store_moves (sv_store sv) (call_times ev)) (handleCreate sv ev r)"
  unfolding handleCreate_def Let_def
  by (intro handler_moves moves_case_prod call_intros call_CreateTransfer)

lemma handlePut_moves: "moves (store_moves (sv_store sv) (call_times ev)) (handlePut sv ev r)"
  unfolding handlePut_def Let_def
  by (intro handler_moves moves_case_prod call_intros call_PutChunk call_Progress)

lemma handleGet_moves: "moves (store_moves (sv_store sv) (call_times ev)) (handleGet sv ev r)"
  unfolding handleGet_def Let_def
  by (intro handler_moves moves_case_prod call_intros call_GetChunk call_GetChunkByTicket)

lemma handleResume_moves: "moves (store_moves (sv_store sv) (call_times ev)) (handleResume sv ev r)"
  unfolding handleResume_def Let_def
  by (intro handler_moves moves_case_prod call_intros call_Resume call_ResumeByTicket)

lemma moves_complete:
  "t \<in> T \<Longrightarrow> moves (store_moves st T) (call_store (\<lambda>s. complete_call (st_CompleteTransfer st t req s)))"
  by (rule moves_call_store) (auto intro: calls_one call_CompleteTransfer)

lemma handleComplete_moves: "moves (store_moves (sv_store sv) (call_times ev)) (handleComplete sv ev r)"
  unfolding handleComplete_def Let_def
  by (intro moves_complete handler_moves moves_case_prod call_intros call_GetTransfer)

lemma moves_cancel:
  "t \<in> T \<Longrightarrow> moves (store_moves st T)
     (hon h_store (\<lambda>u h. h\<lparr>h_store := u\<rparr>) (st_CancelTransfer st t tid mid sec))"
  by (rule by_calls.moves_on) (auto simp: store_moves_def intro: calls_one call_CancelTransfer)

lemma handleCancel_moves: "moves (store_moves (sv_store sv) (call_times ev)) (handleCancel sv ev r)"
  unfolding handleCancel_def Let_def by (intro moves_cancel handler_moves)

lemmas all_moves =
  handleHello_moves handleSend_moves handleReceive_moves handleAck_moves handleCreate_moves
  handlePut_moves handleGet_moves handleResume_moves handleComplete_moves handleCancel_moves

lemma snd_respond [simp]: "snd (respond np m s) = snd (m s)"
  by (simp add: respond_def split: prod.splits sum.splits)

lemma routes_moves:
  "(p, handle) \<in> set routes \<Longrightarrow> moves (store_moves (sv_store sv) (call_times ev)) (handle sv ev r)"
  by (auto simp: routes_def all_moves)

lemma ServeHTTP_calls: "calls (sv_store sv) (call_times ev) (h_store h) (h_store (snd (ServeHTTP sv ev r h)))"
proof (cases "map_of (routes :: (string \<times> ('a server \<Rightarrow> _)) list) (hr_Path r)")
  case None
  then show ?thesis by (simp add: ServeHTTP_def calls_refl)
next
  case (Some handle)
  then have "moves (store_moves (sv_store sv) (call_times ev)) (handle sv ev r)"
    by (intro routes_moves) (rule map_of_SomeD)
  with Some show ?thesis by (simp add: ServeHTTP_def moves_def store_moves_def)
qed

context store_contract
begin

lemma calls_inv: "calls st T s s' \<Longrightarrow> inv s \<Longrightarrow> inv s'"
  by (induction rule: calls.induct) (auto intro: call_inv)

lemma calls_replay:
  "calls st T s s' \<Longrightarrow> inv s \<Longrightarrow> \<forall>t \<in> T. t < e \<Longrightarrow> replay_until s k = Some e \<Longrightarrow> replay_until s' k = Some e"
  by (induction rule: calls.induct) (auto intro: call_replay calls_inv)

lemma request_inv: "sv_store sv = st \<Longrightarrow> inv (h_store h) \<Longrightarrow> inv (h_store (snd (ServeHTTP sv ev r h)))"
  using ServeHTTP_calls [of sv ev h r] calls_inv by auto

lemma fresh_marks:
  "fresh st t k h = (Inr u, h') \<Longrightarrow> inv (h_store h) \<Longrightarrow>
   replay_until (h_store h') k = Some (replay_window t)
   \<and> (\<forall>e. replay_until (h_store h) k = Some e \<longrightarrow> e \<le> t)"
  using replay_refused [of "h_store h" k _ t] replay_marked [of "h_store h" t k]
  by (fastforce simp: fresh_def handler_Inr)

end

section \<open>What an accepted request has passed\<close>

lemma limited_store: "limited key now mx h = (Inr u, h') \<Longrightarrow> h_store h' = h_store h"
  by (auto simp: limited_def handler_Inr)

lemma to_array_Some [simp]:
  "to32 b = Some x \<longleftrightarrow> length b = 32 \<and> x = b" "to16 b = Some y \<longleftrightarrow> length b = 16 \<and> y = b"
  by (auto simp: to32_def to16_def)

lemma fresh_Inr:
  "fresh st t k h = (Inr u, h') \<longleftrightarrow>
     (\<exists>s'. st_CheckAndMarkReplay st t k (h_store h) = (False, s') \<and> h' = h\<lparr>h_store := s'\<rparr>)"
  by (auto simp: fresh_def handler_Inr)

lemma call_store_Inr:
  "call_store f h = (Inr y, h') \<longleftrightarrow> (\<exists>s'. f (h_store h) = (Inr y, s') \<and> h' = h\<lparr>h_store := s'\<rparr>)"
  by (simp add: call_store_def hcall_Inr)

lemmas accept_simps = hbind_Inr fresh_Inr call_store_Inr post_only_def hon_Inr

lemma handleSend_Inr:
  assumes "handleSend sv ev r h = (Inr (schema, body), h')"
  obtains raw msg i n s1 where
    "hr_Method r = MethodPost" "readBody r MaxRequestBytes = Inr raw"
    "UnmarshalSendMessage (sv_np sv) raw = Inr msg"
    "length (sm_SenderPub msg) = 32" "length (sm_MailboxID msg) = 16" "length (sm_Nonce msg) = 16"
    "VerifyMsgSend (sv_verify sv) (sm_SenderPub msg) (sm_MailboxID msg) (sm_Timestamp msg)
       (sm_Nonce msg) (sm_Envelope msg) (sm_Signature msg) (ev_now ev) = None"
    "st_CheckAndMarkReplay (sv_store sv) (ev_first ev)
       (replayKey replayDomainMsg (sm_SenderPub msg) (sm_Nonce msg)) (h_store h) = (False, s1)"
    "st_SendMessage (sv_store sv) (ev_second ev) (ev_id ev) msg s1 = (Inr (i, n), h_store h')"
    "MarshalSendMessageResponse (sv_np sv) 1 n i = Inr body" "schema = SchemaSendMessageResponse"
  using assms
  by (auto simp: handleSend_def Let_def accept_simps dest!: limited_store)

lemma complete_call_Inr: "complete_call rs = (Inr res, s') \<longleftrightarrow> rs = (res, s') \<and> cr_err res = None"
  by (auto simp: complete_call_def split: prod.splits option.splits)

lemma handleComplete_Inr:
  assumes "handleComplete sv ev r h = (Inr (schema, body), h')"
  obtains raw req s1 s2 tv res where
    "readBody r 512 = Inr raw" "UnmarshalTransferComplete (sv_np sv) raw = Inr req"
    "VerifyXferComplete (sv_verify sv) (tf_SenderPub req) (copy_array 16 (tf_TransferID req))
       (copy_array 32 (tf_ManifestHash req)) (tf_Timestamp req) (tf_Nonce req) (tf_Signature req)
       (ev_now ev) = None"
    "st_CheckAndMarkReplay (sv_store sv) (ev_first ev)
       (replayKey replayDomainComplete (tf_SenderPub req) (tf_Nonce req)) (h_store h) = (False, s1)"
    "st_GetTransfer (sv_store sv) (ev_second ev) (copy_array 16 (tf_TransferID req)) s1 = (Inr tv, s2)"
    "tv_SenderPub tv = tf_SenderPub req"
    "st_CompleteTransfer (sv_store sv) (ev_third ev) req s2 = (res, h_store h')" "cr_err res = None"
    "MarshalTransferCompleteResponse (sv_np sv)
       \<lparr>tfr_Sealed = (if cr_sealed res then 1 else 0), tfr_ChunkCount = cr_count res,
        tfr_Present = cr_present res\<rparr> = Inr body"
  using assms
  by (auto simp: handleComplete_def Let_def accept_simps complete_call_Inr)

lemma handleReceive_Inr:
  assumes "handleReceive sv ev r h = (Inr (schema, body), h')"
  obtains raw req msgs consumed where
    "readBody r 256 = Inr raw" "UnmarshalReceiveMessages (sv_np sv) raw = Inr req"
    "st_ReceiveMessages (sv_store sv) (ev_first ev) (copy_array 16 (rcv_MailboxID req))
       (rcv_ReadSecret req) (if uint (rcv_Limit req) = 0 then int MaxBatchMessages else uint (rcv_Limit req))
       (rcv_Peek req = 1) (h_store h) = (Inr (msgs, consumed), h_store h')"
    "MarshalReceiveMessagesResponse (sv_np sv)
       (map (\<lambda>m. \<lparr>rm_MsgID = msg_ID m, rm_Envelope = msg_Envelope m\<rparr>) msgs) consumed = Inr body"
    "schema = SchemaReceiveMessagesResponse"
  using assms
  by (auto simp: handleReceive_def Let_def accept_simps dest!: limited_store)

section \<open>A signed message is accepted at most once\<close>

lemma CheckSkew_signed:
  assumes "0 \<le> now" "now < 2 ^ 62"
  shows "CheckSkew ts now = None \<longleftrightarrow>
    \<bar>now - int64_of_u64 ts\<bar> \<le> MaxClockSkewMillis \<or> now - int64_of_u64 ts = 2 ^ 63"
proof -
  define v where "v = int64_of_u64 ts"
  have v: "- (2 ^ 63) \<le> v" "v < 2 ^ 63"
    using i64_range [of "int (unat ts)"] by (simp_all only: v_def int64_of_u64_i64)
  have "i64 (now - v) = (if now - v < 2 ^ 63 then now - v else now - v - 2 ^ 64)"
    using v assms by (simp add: i64_id i64_wrap)
  then show ?thesis using v assms by (auto simp: CheckSkew_cases v_def [symmetric])
qed

lemma CheckSkew_later:
  assumes "CheckSkew ts now = None" "CheckSkew ts later = None"
    and "0 \<le> now" "now \<le> later" "later < 2 ^ 62"
  shows "later \<le> now + 2 * MaxClockSkewMillis"
  using assms CheckSkew_signed [of now ts] CheckSkew_signed [of later ts] by auto

lemma run_ops_replay:
  assumes "store_ok s" "map_of (ms_replay s) k = Some e" "\<forall>op \<in> set ops. op_time op < e"
  shows "map_of (ms_replay (run_ops ops s)) k = Some e"
  using assms by (induction ops arbitrary: s) (simp_all add: store_step_ok store_step_replay)

lemma send_at_most_once:
  assumes ok: "store_ok (h_store h)" and st: "sv_store sv = mem_store"
    and first: "handleSend sv ev r h = (Inr resp, h1)"
    and raw: "readBody r MaxRequestBytes = Inr raw" and same: "readBody r' MaxRequestBytes = Inr raw"
    and others: "h_store h2 = run_ops ops (h_store h1)" "\<forall>op \<in> set ops. op_time op \<le> ev_first ev'"
    and clock: "0 \<le> ev_now ev" "ev_now ev \<le> ev_first ev" "ev_second ev \<le> ev_first ev'"
      "ev_first ev \<le> ev_now ev'" "ev_first ev' < ev_now ev' + 30000" "ev_now ev' < 2 ^ 62"
  shows "\<exists>pe h'. handleSend sv ev' r' h2 = (Inl pe, h')"
proof (rule ccontr)
  assume "\<nexists>pe h'. handleSend sv ev' r' h2 = (Inl pe, h')"
  then obtain schema' body' h' where second: "handleSend sv ev' r' h2 = (Inr (schema', body'), h')"
    by (metis sumE surj_pair)
  obtain schema body where resp: "resp = (schema, body)" by fastforce
  obtain msg i n s1 where m:
    "UnmarshalSendMessage (sv_np sv) raw = Inr msg"
    "VerifyMsgSend (sv_verify sv) (sm_SenderPub msg) (sm_MailboxID msg) (sm_Timestamp msg)
       (sm_Nonce msg) (sm_Envelope msg) (sm_Signature msg) (ev_now ev) = None"
    "CheckAndMarkReplay (ev_first ev)
       (replayKey replayDomainMsg (sm_SenderPub msg) (sm_Nonce msg)) (h_store h) = (False, s1)"
    "SendMessage (ev_second ev) (ev_id ev) msg s1 = (Inr (i, n), h_store h1)"
    using first [unfolded resp] by (rule handleSend_Inr) (use raw st in auto)
  obtain s2 where m':
    "VerifyMsgSend (sv_verify sv) (sm_SenderPub msg) (sm_MailboxID msg) (sm_Timestamp msg)
       (sm_Nonce msg) (sm_Envelope msg) (sm_Signature msg) (ev_now ev') = None"
    "CheckAndMarkReplay (ev_first ev')
       (replayKey replayDomainMsg (sm_SenderPub msg) (sm_Nonce msg)) (h_store h2) = (False, s2)"
    using second by (rule handleSend_Inr) (use same st m(1) in auto)
  define k where "k = replayKey replayDomainMsg (sm_SenderPub msg) (sm_Nonce msg)"
  define e where "e = ev_first ev + 90000"
  have "CheckSkew (sm_Timestamp msg) (ev_now ev) = None" "CheckSkew (sm_Timestamp msg) (ev_now ev') = None"
    using m(2) m'(1) by (auto simp: VerifyMsgSend_skew split: if_splits)
  then have "ev_now ev' \<le> ev_now ev + 60000"
    using CheckSkew_later [of "sm_Timestamp msg" "ev_now ev" "ev_now ev'"] clock by simp
  then have before: "ev_first ev' < e" using clock by (simp add: e_def)
  have ok1: "store_ok s1" using CheckAndMarkReplay_ok [OF ok, of "ev_first ev" k] m(3) by (simp add: k_def)
  have "map_of (ms_replay s1) k = Some e"
    using mem.replay_marked [of "h_store h" "ev_first ev" k s1] m(3) ok clock
    by (simp add: k_def e_def i64_id)
  then have "map_of (ms_replay (run_ops (OpSendMessage (ev_second ev) (ev_id ev) msg # ops) s1)) k = Some e"
    by (rule run_ops_replay [OF ok1]) (use others(2) clock before in auto)
  moreover have "run_ops (OpSendMessage (ev_second ev) (ev_id ev) msg # ops) s1 = h_store h2"
    using m(4) others(1) by simp
  moreover have "store_ok (h_store h2)"
    using run_ops_ok [OF ok1, of "OpSendMessage (ev_second ev) (ev_id ev) msg # ops"] calculation(2) by simp
  ultimately have "fst (CheckAndMarkReplay (ev_first ev') k (h_store h2))"
    using mem.replay_refused [of "h_store h2" k e "ev_first ev'"] before by simp
  then show False using m'(2) by (simp add: k_def)
qed

end
