(* ===== verification/Relay.thy ===== *)
theory Relay
  imports Router Shard_Safety
begin

text \<open>
  The router and the shards together, over \<open>MemStore\<close> and any serialisation library with the laws of
  \<open>nanopack_codec\<close>: what a client learns from a registration, that resolving a key finds the mailbox
  registration made, that the published table carries the router's signature, and what a client reads
  from a response of the shard.
\<close>

section \<open>Registration\<close>

lemma CreateMailbox_opens:
  "length secret = 32 \<Longrightarrow> CheckReadSecret mid secret (snd (CreateMailbox now mid (sha256 secret) s))"
  "t < mailbox_deadline now \<Longrightarrow> MailboxExists t mid (snd (CreateMailbox now mid h s))"
  "queue (snd (CreateMailbox now mid h s)) mid' = queue s mid'"
  by (auto simp: CreateMailbox_def CheckReadSecret_def MailboxExists_def hashSecret_def queue_def
        split: option.splits)

lemma same_shards:
  "ro_shards h' = ro_shards h \<Longrightarrow> shardURLs h' = shardURLs h" 
  "ro_shards h' = ro_shards h \<Longrightarrow> store_at i h' = store_at i h"
  by (simp_all add: shardURLs_def store_at_def)

lemma register_issues:
  assumes np: "nanopack_codec (cfg_np cfg)" and st: "cfg_store cfg = mem_store"
    and urls: "\<forall>u \<in> set (shardURLs h). length u \<le> 900"
    and acc: "router_handleRegister cfg ev r h = (Inr resp, h')"
  shows "\<exists>raw req rr ref. readBody r 256 = Inr raw \<and> UnmarshalRegister (cfg_np cfg) raw = Inr req
    \<and> VerifyRegister (cfg_verify cfg) (rg_ClientPub req) (rg_Timestamp req) (copy_array 16 (rg_Nonce req))
        (rg_Signature req) (re_now ev) = None
    \<and> UnmarshalRegisterResponse (cfg_np cfg) (rs_Body resp) = Inr rr
    \<and> rr_MailboxID rr = MailboxIDFromPub (cfg_Secret cfg) (rg_ClientPub req)
    \<and> rr_ShardURL rr = Owner (rr_MailboxID rr) (shardURLs h)
    \<and> shardURLs h' = shardURLs h \<and> findShard (rr_ShardURL rr) h' = Some ref
    \<and> CheckReadSecret (rr_MailboxID rr) (rr_ReadSecret rr) (store_at ref h')
    \<and> (\<forall>t < mailbox_deadline (re_store ev). MailboxExists t (rr_MailboxID rr) (store_at ref h'))
    \<and> queue (store_at ref h') = queue (store_at ref h)"
proof -
  obtain raw req ref secret s' body c where m:
    "readBody r 256 = Inr raw" "UnmarshalRegister (cfg_np cfg) raw = Inr req"
    "VerifyRegister (cfg_verify cfg) (rg_ClientPub req) (rg_Timestamp req) (copy_array 16 (rg_Nonce req))
       (rg_Signature req) (re_now ev) = None"
    "findShard (Owner (MailboxIDFromPub (cfg_Secret cfg) (rg_ClientPub req)) (shardURLs h)) h = Some ref"
    "st_CreateMailbox (cfg_store cfg) (re_store ev) (MailboxIDFromPub (cfg_Secret cfg) (rg_ClientPub req))
       (sha256 secret) (store_at ref h) = (Inr c, s')"
    "ro_shards h' = ro_shards (put_store ref s' h)"
    "MarshalRegisterResponse (cfg_np cfg)
       \<lparr>rr_MailboxID = MailboxIDFromPub (cfg_Secret cfg) (rg_ClientPub req), rr_ReadSecret = secret,
        rr_ShardURL = Owner (MailboxIDFromPub (cfg_Secret cfg) (rg_ClientPub req)) (shardURLs h),
        rr_TableVersion = cfg_Version cfg,
        rr_ExpiresAt = u64_of_int64 (i64 (re_now ev + CapabilityTTLSeconds * 1000))\<rparr> = Inr body"
    "resp = writeProto SchemaRegisterResponse body"
    using acc by (rule router_handleRegister_Inr)
  let ?mid = "MailboxIDFromPub (cfg_Secret cfg) (rg_ClientPub req)"
  have ref: "ref < length (ro_shards h)" using m(4) by (simp add: findShard_Some)
  then have url: "Owner ?mid (shardURLs h) \<in> set (shardURLs h)"
    by (intro Owner_in) (auto simp: shardURLs_def)
  have s': "s' = snd (CreateMailbox (re_store ev) ?mid (sha256 secret) (store_at ref h))"
    using m(5) st by (cases "CreateMailbox (re_store ev) ?mid (sha256 secret) (store_at ref h)") simp
  have h': "shardURLs h' = shardURLs h" "store_at ref h' = s'"
    using same_shards [OF m(6)] ref by simp_all
  have "length secret = 32"
    using m(7) by (simp add: MarshalRegisterResponse_def marshal_Inr check_RegisterResponse_None)
  moreover have "findShard (Owner ?mid (shardURLs h)) h' = Some ref"
    using findShard_cong [OF h'(1)] m(4) by simp
  ultimately show ?thesis
    using nanopack_codec.register_response_rt [OF np m(7)] urls url m(1-3,8) h' s'
      CreateMailbox_opens(1) [of secret ?mid "re_store ev" "store_at ref h"]
      CreateMailbox_opens(2,3) [where mid = ?mid and now = "re_store ev" and s = "store_at ref h"]
    by (auto simp: fun_eq_iff)
qed

section \<open>Resolution\<close>

lemma router_handleResolve_Inr:
  assumes "router_handleResolve cfg ev r h = (Inr resp, h')"
  obtains raw pub body where
    "readBody r 128 = Inr raw" "UnmarshalResolve (cfg_np cfg) raw = Inr pub"
    "ro_shards h \<noteq> []" "ro_shards h' = ro_shards h"
    "MarshalResolveResponse (cfg_np cfg)
       \<lparr>rv_MailboxID = MailboxIDFromPub (cfg_Secret cfg) pub,
        rv_ShardURL = (case era_walk cfg ev (MailboxIDFromPub (cfg_Secret cfg) pub) h
            (probe_order (Owner (MailboxIDFromPub (cfg_Secret cfg) pub) (shardURLs h)) (shardURLs h)) of
              Some u \<Rightarrow> u | None \<Rightarrow> Owner (MailboxIDFromPub (cfg_Secret cfg) pub) (shardURLs h)),
        rv_Era = 0, rv_TableVersion = cfg_Version cfg\<rparr> = Inr body"
    "resp = writeProto SchemaResolveResponse body"
proof -
  have frame: "shardURLs (h\<lparr>ro_resRL := b\<rparr>) = shardURLs h" for b
    by (simp add: shardURLs_def)
  have walk: "era_walk cfg ev mid (h\<lparr>ro_resRL := b\<rparr>) us = era_walk cfg ev mid h us" for mid b us
  proof (induction us)
    case (Cons u us)
    have "store_at i (h\<lparr>ro_resRL := b\<rparr>) = store_at i h" for i by (simp add: store_at_def)
    with Cons show ?case by (simp add: findShard_def split: option.split)
  qed simp
  show thesis
    using assms that
    by (auto simp: router_handleResolve_def Let_def hbind_Inr hon_Inr post_only_def frame walk
          cong: option.case_cong)
qed

text \<open>The walk answers with a URL it was given, and with the primary when that shard has the mailbox.\<close>

lemma era_walk_Some:
  "era_walk cfg ev mid h us = Some u \<Longrightarrow>
   u \<in> set us \<and> (\<exists>ref. findShard u h = Some ref
     \<and> st_MailboxExists (cfg_store cfg) (re_probe ev ref) mid (store_at ref h))"
  by (induction us) (auto split: option.splits if_splits)

lemma resolve_finds:
  assumes np: "nanopack_codec (cfg_np cfg)"
    and urls: "\<forall>u \<in> set (shardURLs h). length u \<le> 900"
    and acc: "router_handleResolve cfg ev r h = (Inr resp, h')"
    and raw: "readBody r 128 = Inr raw" "UnmarshalResolve (cfg_np cfg) raw = Inr pub"
    and home: "findShard (Owner (MailboxIDFromPub (cfg_Secret cfg) pub) (shardURLs h)) h = Some ref"
      "st_MailboxExists (cfg_store cfg) (re_probe ev ref) (MailboxIDFromPub (cfg_Secret cfg) pub)
         (store_at ref h)"
  shows "\<exists>rv. UnmarshalResolveResponse (cfg_np cfg) (rs_Body resp) = Inr rv
    \<and> rv_MailboxID rv = MailboxIDFromPub (cfg_Secret cfg) pub
    \<and> rv_ShardURL rv = Owner (rv_MailboxID rv) (shardURLs h)"
proof -
  obtain body where m: "ro_shards h \<noteq> []"
    "MarshalResolveResponse (cfg_np cfg)
       \<lparr>rv_MailboxID = MailboxIDFromPub (cfg_Secret cfg) pub,
        rv_ShardURL = Owner (MailboxIDFromPub (cfg_Secret cfg) pub) (shardURLs h),
        rv_Era = 0, rv_TableVersion = cfg_Version cfg\<rparr> = Inr body"
    "resp = writeProto SchemaResolveResponse body"
    using acc by (rule router_handleResolve_Inr) (use raw home in \<open>auto simp: probe_order_def\<close>)
  have "Owner (MailboxIDFromPub (cfg_Secret cfg) pub) (shardURLs h) \<in> set (shardURLs h)"
    using m(1) by (intro Owner_in) (simp add: shardURLs_def)
  then show ?thesis
    using nanopack_codec.resolve_response_rt [OF np m(2)] urls m(3) by auto
qed

section \<open>The routing table\<close>

lemma table_signed:
  assumes np: "nanopack_codec (cfg_np cfg)" and urls: "shard_list_ok (shardURLs h)"
      "length (encodeShardList (shardURLs h)) \<le> 8000"
    and acc: "router_handleTable cfg ev r h = (Inr resp, h')"
  shows "\<exists>t. UnmarshalRoutingTable (cfg_np cfg) (rs_Body resp) = Inr t \<and> rt_Shards t = shardURLs h
    \<and> rt_Version t = cfg_Version cfg \<and> rt_RouterPub t = cfg_RouterPub cfg
    \<and> rt_Signature t = cfg_sign cfg (CanonicalRoutingTable (rt_Version t) (rt_GeneratedAt t)
        (rt_ExpiresAt t) (rt_Algorithm t) (rt_Shards t) (rt_RouterPub t))
    \<and> h' = h"
proof -
  define gen where "gen = u64_of_int64 (re_now ev)"
  define exp' where "exp' = u64_of_int64 (i64 (re_now ev + RoutingTableTTLSeconds * 1000))"
  define t where "t = \<lparr>rt_Version = cfg_Version cfg, rt_GeneratedAt = gen, rt_ExpiresAt = exp',
      rt_Algorithm = RoutingAlgoSHA256ModN, rt_Shards = shardURLs h, rt_ReplicationFactor = 1,
      rt_RouterPub = cfg_RouterPub cfg,
      rt_Signature = cfg_sign cfg (CanonicalRoutingTable (cfg_Version cfg) gen exp' RoutingAlgoSHA256ModN
        (shardURLs h) (cfg_RouterPub cfg))\<rparr>"
  have "MarshalRoutingTable (cfg_np cfg) t = Inr (rs_Body resp)" "h' = h"
    using acc by (auto simp: router_handleTable_def Let_def hbind_Inr t_def gen_def exp'_def)
  then show ?thesis
    using nanopack_codec.routing_table_rt [OF np, of t] urls by (auto simp: t_def)
qed

section \<open>Reading a mailbox through the shard\<close>

lemma batch_limit_bounds: "0 < batch_limit l" "batch_limit l \<le> MaxBatchMessages"
  by (auto simp: batch_limit_def)

lemma receive_over_http:
  assumes np: "nanopack_codec (sv_np sv)" and st: "sv_store sv = mem_store"
    and acc: "handleReceive sv ev r h = (Inr (schema, body), h')"
  shows "\<exists>raw req n. readBody r 256 = Inr raw \<and> UnmarshalReceiveMessages (sv_np sv) raw = Inr req
    \<and> CheckReadSecret (rcv_MailboxID req) (rcv_ReadSecret req) (h_store h)
    \<and> MailboxExists (ev_first ev) (rcv_MailboxID req) (h_store h)
    \<and> 0 < n \<and> n \<le> MaxBatchMessages
    \<and> UnmarshalReceiveMessagesResponse (sv_np sv) body = Inr
        \<lparr>rmr_Messages = map (\<lambda>m. \<lparr>rm_MsgID = msg_ID m, rm_Envelope = msg_Envelope m\<rparr>)
           (take n (unexpired (ev_first ev) (h_store h) (rcv_MailboxID req))),
         rmr_Consumed = (rcv_Peek req \<noteq> 1)\<rparr>
    \<and> queue (h_store h') (rcv_MailboxID req) =
        drop (if rcv_Peek req = 1 then 0 else n) (unexpired (ev_first ev) (h_store h) (rcv_MailboxID req))"
proof -
  obtain raw req msgs consumed where m:
    "readBody r 256 = Inr raw" "UnmarshalReceiveMessages (sv_np sv) raw = Inr req"
    "ReceiveMessages (ev_first ev) (copy_array 16 (rcv_MailboxID req)) (rcv_ReadSecret req)
       (if uint (rcv_Limit req) = 0 then int MaxBatchMessages else uint (rcv_Limit req))
       (rcv_Peek req = 1) (h_store h) = (Inr (msgs, consumed), h_store h')"
    "MarshalReceiveMessagesResponse (sv_np sv)
       (map (\<lambda>m. \<lparr>rm_MsgID = msg_ID m, rm_Envelope = msg_Envelope m\<rparr>) msgs) consumed = Inr body"
    using acc by (rule handleReceive_Inr) (use st in auto)
  define n where "n = batch_limit (if uint (rcv_Limit req) = 0 then int MaxBatchMessages else uint (rcv_Limit req))"
  have "ValidateReceiveMessages req = None"
    using m(2) by (auto simp: UnmarshalReceiveMessages_def unmarshal_def check_def
        split: option.splits sum.splits if_splits)
  then have mid: "copy_array 16 (rcv_MailboxID req) = rcv_MailboxID req"
    by (simp add: ValidateReceiveMessages_None)
  have n: "0 < n" "n \<le> MaxBatchMessages"
    unfolding n_def by (rule batch_limit_bounds)+
  note res = ReceiveMessages_Inr [OF m(3), folded n_def, unfolded mid]
  have "MailboxExists (ev_first ev) (rcv_MailboxID req) (h_store h)
      \<and> CheckReadSecret (rcv_MailboxID req) (rcv_ReadSecret req) (h_store h)"
    using m(3) [unfolded mid] ReceiveMessages_auth by blast
  then show ?thesis
    using m(1,2) n nanopack_codec.receive_messages_response_rt [OF np m(4)] res
    by (auto intro!: exI [of _ n])
qed

end
