(* ===== verification/Accepted.thy ===== *)
theory Accepted
  imports Relay Upload_Download
begin

text \<open>
  Requests that succeed: the converse of the lemmas on accepted requests. A body that was marshalled from
  a valid message and posted to its route, with a signature that verifies, a fresh nonce, no exhausted
  rate limit and a store that takes the operation, is answered with status 200, and the client can decode
  the answer. Client, bridge and daemon use these lemmas.
\<close>

section \<open>Posting a body\<close>

definition post_request :: "string \<Rightarrow> bytes \<Rightarrow> http_request" where
  "post_request path body =
     \<lparr>hr_Method = MethodPost, hr_Path = path, hr_ContentLength = int (length body), hr_Body = Some body,
      hr_ForwardedFor = [], hr_RemoteAddr = [], hr_RemoteHost = None\<rparr>"

lemma post_request_sel [simp]:
  "hr_Method (post_request path body) = MethodPost" "hr_Path (post_request path body) = path"
  "clientIP (post_request path body) = []"
  by (simp_all add: post_request_def clientIP_def)

context total_codec
begin

lemma read_posted:
  "np_bytes np fs = Inr body \<Longrightarrow> unmarshal np limit step zero finish body = Inr x \<Longrightarrow> limit \<le> n \<Longrightarrow>
   readBody (post_request path body) n = Inr body"
  using bytes_nonempty [of fs body]
  by (auto simp: readBody_Inr post_request_def unmarshal_def CheckBodyLen_def split: if_splits)

end

lemma route_handlers [simp]:
  "map_of routes RouteSend = Some handleSend" "map_of routes RouteReceive = Some handleReceive"
  "map_of routes RouteTransferCreate = Some handleCreate" "map_of routes RouteChunkPut = Some handlePut"
  "map_of routes RouteChunkGet = Some handleGet" "map_of routes RouteComplete = Some handleComplete"
  by (simp_all add: routes_def route_defs)

lemma served:
  "map_of routes (hr_Path r) = Some handle \<Longrightarrow> handle sv ev r h = (Inr (schema, resp), h') \<Longrightarrow>
   ServeHTTP sv ev r h = (Some (writeProto schema resp), h')"
  by (simp add: ServeHTTP_def respond_def)

section \<open>Limits that are not exhausted\<close>

lemma allow_fresh: "window_of b key = None \<Longrightarrow> fst (allow key now mx b)"
  by (auto simp: allow_def allow_window_def window_of_def Let_def split: option.splits)

lemma allow_other: "k \<noteq> key \<Longrightarrow> window_of (snd (allow key now mx b)) k = window_of b k"
  by (simp add: allow_def allow_window_other)

lemma limited_passes:
  "window_of (h_buckets h) key = None \<Longrightarrow>
   limited key now mx h = (Inr (), h\<lparr>h_buckets := snd (allow key now mx (h_buckets h))\<rparr>)"
  using allow_fresh [of "h_buckets h" key now mx]
  by (auto simp: limited_def hbind_def hon_def hrequire_def hreturn_def split: prod.splits)

lemma window_of_Nil [simp]: "window_of [] key = None"
  by (simp add: window_of_def)

lemma allowRL_fresh: "window_of b key = None \<Longrightarrow> \<exists>b'. allowRL key now mx b = (True, b')"
  by (auto simp: allowRL_def allow_window_def window_of_def Let_def split: option.splits)

lemma Owner_single [simp]: "Owner mid [url] = url"
  by (simp add: Owner_def Let_def)

section \<open>Nonces that are new\<close>

text \<open>The replay cache is no concern of the mailbox and transfer operations.\<close>

lemma SendMessage_replay:
  "SendMessage now i m s = (Inr x, s') \<Longrightarrow> SendMessage now i m (s\<lparr>ms_replay := k\<rparr>) = (Inr x, s'\<lparr>ms_replay := k\<rparr>)"
  by (auto simp: SendMessage_def Let_def getMailboxLocked_def put_mailbox_def split: option.splits if_splits)

lemma CheckAndMarkReplay_frame:
  "CheckAndMarkReplay now k s = (b, s') \<Longrightarrow> \<exists>m. s' = s\<lparr>ms_replay := m\<rparr>"
  by (cases s) (auto simp: CheckAndMarkReplay_def Let_def split: if_splits option.splits)

lemma mark_fresh:
  assumes "store_ok s" "map_of (ms_replay s) k = None"
  obtains m where "CheckAndMarkReplay now k s = (False, s\<lparr>ms_replay := m\<rparr>)"
proof -
  have "\<not> fst (CheckAndMarkReplay now k s)"
    using store_replay.mark_seen [OF assms(1)] assms(2) by (simp add: seen_def)
  then show thesis
    using that CheckAndMarkReplay_frame [of now k s] by (cases "CheckAndMarkReplay now k s") auto
qed

section \<open>The router\<close>

context total_codec
begin

lemma register_served:
  assumes cfg: "cfg_np cfg = np" "cfg_store cfg = mem_store" "cfg_Secret cfg \<noteq> []"
    and body: "MarshalRegister np req = Inr body"
    and sig: "VerifyRegister (cfg_verify cfg) (rg_ClientPub req) (rg_Timestamp req) (rg_Nonce req)
       (rg_Signature req) (re_now renv) = None"
    and new: "window_of (ro_regRL h) ''reg-ip:'' = None"
      "map_of (ro_replay h) (replay_key (rg_ClientPub req) (rg_Nonce req)) = None"
    and secret: "re_secret renv = Some secret" "length secret = 32"
    and shard: "ro_shards h = [(base, s)]" "base \<noteq> []" "length base \<le> 900"
  shows "\<exists>resp h' e. router_ServeHTTP cfg renv (post_request RouteRegister body) h
      = (writeProto SchemaRegisterResponse resp, h')
    \<and> UnmarshalRegisterResponse np resp = Inr
        \<lparr>rr_MailboxID = MailboxIDFromPub (cfg_Secret cfg) (rg_ClientPub req), rr_ReadSecret = secret,
         rr_ShardURL = base, rr_TableVersion = cfg_Version cfg, rr_ExpiresAt = e\<rparr>
    \<and> ro_shards h' = [(base, snd (CreateMailbox (re_store renv)
         (MailboxIDFromPub (cfg_Secret cfg) (rg_ClientPub req)) (sha256 secret) s))]
    \<and> ro_resRL h' = ro_resRL h"
proof -
  have dec: "UnmarshalRegister np body = Inr req" using body by (rule register_rt)
  have read: "readBody (post_request RouteRegister body) 256 = Inr body"
    using body dec read_posted by (fastforce simp: MarshalRegister_def marshal_Inr UnmarshalRegister_def)
  have valid: "length (rg_Nonce req) = 16"
    using body by (simp add: MarshalRegister_def marshal_Inr ValidateRegister_def split: if_splits)
  let ?mid = "MailboxIDFromPub (cfg_Secret cfg) (rg_ClientPub req)"
  let ?rr = "\<lparr>rr_MailboxID = ?mid, rr_ReadSecret = secret, rr_ShardURL = base,
      rr_TableVersion = cfg_Version cfg,
      rr_ExpiresAt = u64_of_int64 (i64 (re_now renv + CapabilityTTLSeconds * 1000))\<rparr>"
  have "check_RegisterResponse ?rr = None"
    using secret(2) shard(2) by (simp add: check_RegisterResponse_def)
  then obtain resp where resp: "MarshalRegisterResponse np ?rr = Inr resp"
    using np_total by (fastforce simp: MarshalRegisterResponse_def marshal_def)
  have rt: "UnmarshalRegisterResponse np resp = Inr ?rr"
    using resp shard(3) by (intro register_response_rt) simp_all
  obtain b where rl: "allowRL ''reg-ip:'' (re_now renv) (maxReg cfg) (ro_regRL h) = (True, b)"
    using allowRL_fresh [OF new(1)] by blast
  obtain m where rp: "checkReplay (rg_ClientPub req) (rg_Nonce req) (re_now renv) (ro_replay h) = (False, m)"
    using new(2) by (simp add: checkReplay_def mark_key_def)
  have "\<exists>h'. router_handleRegister cfg renv (post_request RouteRegister body) h
        = (Inr (writeProto SchemaRegisterResponse resp), h')
      \<and> ro_shards h' = [(base, snd (CreateMailbox (re_store renv) ?mid (sha256 secret) s))]
      \<and> ro_resRL h' = ro_resRL h"
    using rl rp read dec sig resp cfg secret shard valid
    by (cases "CreateMailbox (re_store renv) ?mid (sha256 secret) s")
       (simp add: router_handleRegister_def Let_def hbind_def handler_defs post_only_def convert_def shardURLs_def
        findShard_def store_at_def put_store_def)
  then show ?thesis
    using rt by (fastforce simp: router_ServeHTTP_def router_dispatch_def)
qed

lemma resolve_served:
  assumes cfg: "cfg_np cfg = np" "cfg_store cfg = mem_store" "cfg_Secret cfg \<noteq> []"
    and body: "MarshalResolve np pub = Inr body"
    and new: "window_of (ro_resRL h) ''res-ip:'' = None"
    and shard: "ro_shards h = [(base, s)]" "base \<noteq> []" "length base \<le> 900"
  shows "\<exists>resp h' rv. router_ServeHTTP cfg renv (post_request RouteResolve body) h
      = (writeProto SchemaResolveResponse resp, h')
    \<and> UnmarshalResolveResponse np resp = Inr rv
    \<and> rv_MailboxID rv = MailboxIDFromPub (cfg_Secret cfg) pub \<and> rv_ShardURL rv = base
    \<and> ro_shards h' = ro_shards h"
proof -
  have dec: "UnmarshalResolve np body = Inr pub" using body by (rule resolve_rt)
  have read: "readBody (post_request RouteResolve body) 128 = Inr body"
    using body dec read_posted by (fastforce simp: MarshalResolve_def marshal_Inr UnmarshalResolve_def)
  let ?mid = "MailboxIDFromPub (cfg_Secret cfg) pub"
  let ?rv = "\<lparr>rv_MailboxID = ?mid, rv_ShardURL = base, rv_Era = 0, rv_TableVersion = cfg_Version cfg\<rparr>"
  have "check_ResolveResponse ?rv = None" using shard(2) by (simp add: check_ResolveResponse_def)
  then obtain resp where resp: "MarshalResolveResponse np ?rv = Inr resp"
    using np_total by (fastforce simp: MarshalResolveResponse_def marshal_def)
  have rt: "UnmarshalResolveResponse np resp = Inr ?rv"
    using resp shard(3) by (intro resolve_response_rt) simp_all
  obtain b where rl: "allowRL ''res-ip:'' (re_now renv) (maxRes cfg) (ro_resRL h) = (True, b)"
    using allowRL_fresh [OF new] by blast
  have "\<exists>h'. router_handleResolve cfg renv (post_request RouteResolve body) h
        = (Inr (writeProto SchemaResolveResponse resp), h') \<and> ro_shards h' = ro_shards h"
    using rl read dec resp cfg shard
    by (simp add: router_handleResolve_def Let_def hbind_def handler_defs post_only_def shardURLs_def
        findShard_def store_at_def probe_order_def)
  then show ?thesis
    using rt by (fastforce simp: router_ServeHTTP_def router_dispatch_def route_defs)
qed

section \<open>Messages\<close>

lemma handleSend_posted:
  assumes sv: "sv_np sv = np" "sv_store sv = mem_store"
    and body: "MarshalSendMessage np msg = Inr body"
    and sig: "VerifyMsgSend (sv_verify sv) (sm_SenderPub msg) (sm_MailboxID msg) (sm_Timestamp msg)
       (sm_Nonce msg) (sm_Envelope msg) (sm_Signature msg) (ev_now ev) = None"
    and new: "CheckAndMarkReplay (ev_first ev)
       (replayKey replayDomainMsg (sm_SenderPub msg) (sm_Nonce msg)) (h_store h) = (False, s1)"
      "window_of (h_buckets h) (''send-sender:'' @ hex_encode (sm_SenderPub msg)) = None"
      "window_of (h_buckets h) (''send-target:'' @ hex_encode (sm_MailboxID msg)) = None"
      "window_of (h_buckets h) ''send-ip:'' = None"
    and room: "SendMessage (ev_second ev) (ev_id ev) msg s1 = (Inr (i, n), s2)" "length (ev_id ev) = 16"
  shows "\<exists>resp h'. handleSend sv ev (post_request RouteSend body) h = (Inr (SchemaSendMessageResponse, resp), h')
    \<and> h_store h' = s2 \<and> window_of (h_buckets h') ''recv-ip:'' = window_of (h_buckets h) ''recv-ip:''"
proof -
  have dec: "UnmarshalSendMessage np body = Inr msg" using body by (rule send_message_rt)
  have read: "readBody (post_request RouteSend body) MaxRequestBytes = Inr body"
    using body dec read_posted by (fastforce simp: MarshalSendMessage_def marshal_Inr UnmarshalSendMessage_def)
  have valid: "ValidateSendMessage msg = None" using room(1) by (rule SendMessage_Inr(1))
  have "i = ev_id ev" using room(1) by (rule SendMessage_Inr(2))
  then obtain resp where resp: "MarshalSendMessageResponse np 1 n i = Inr resp"
    using np_total room(2) by (fastforce simp: MarshalSendMessageResponse_def)
  then show ?thesis
    using valid read dec sig new room sv
    by (simp add: handleSend_def Let_def accept_simps limited_passes allow_other ValidateSendMessage_None)
qed

lemma send_served:
  assumes sv: "sv_np sv = np" "sv_store sv = mem_store"
    and body: "MarshalSendMessage np msg = Inr body"
    and sig: "VerifyMsgSend (sv_verify sv) (sm_SenderPub msg) (sm_MailboxID msg) (sm_Timestamp msg)
       (sm_Nonce msg) (sm_Envelope msg) (sm_Signature msg) (ev_now ev) = None"
    and new: "CheckAndMarkReplay (ev_first ev)
       (replayKey replayDomainMsg (sm_SenderPub msg) (sm_Nonce msg)) (h_store h) = (False, s1)"
      "window_of (h_buckets h) (''send-sender:'' @ hex_encode (sm_SenderPub msg)) = None"
      "window_of (h_buckets h) (''send-target:'' @ hex_encode (sm_MailboxID msg)) = None"
      "window_of (h_buckets h) ''send-ip:'' = None"
    and room: "SendMessage (ev_second ev) (ev_id ev) msg s1 = (Inr (i, n), s2)" "length (ev_id ev) = 16"
  shows "\<exists>resp h'. ServeHTTP sv ev (post_request RouteSend body) h
      = (Some (writeProto SchemaSendMessageResponse resp), h')
    \<and> h_store h' = s2 \<and> window_of (h_buckets h') ''recv-ip:'' = window_of (h_buckets h) ''recv-ip:''"
  using handleSend_posted [OF assms] served [of "post_request RouteSend body" handleSend] by fastforce

lemma ReceiveMessages_other:
  "ReceiveMessages now mid secret limit peek s = (r, s') \<Longrightarrow> other \<noteq> mid \<Longrightarrow> mailbox_of s' other = mailbox_of s other"
  by (auto simp: ReceiveMessages_def Let_def receive_loop_split split: option.splits if_splits)

lemma batch_marshals:
  assumes "length msgs \<le> MaxBatchMessages" "list_all batch_ok msgs"
  shows "\<exists>body. MarshalReceiveMessagesResponse np msgs consumed = Inr body"
proof -
  have "\<exists>ids ps. encode_batch msgs [] [] = Inr (ids, ps)" using assms(2) by (simp add: encode_batch_Inr)
  then show ?thesis using assms(1) np_total by (fastforce simp: MarshalReceiveMessagesResponse_def)
qed

lemma receive_served:
  assumes sv: "sv_np sv = np" "sv_store sv = mem_store"
    and body: "MarshalReceiveMessages np req = Inr body" "rcv_Peek req = 0"
    and new: "window_of (h_buckets h) ''recv-ip:'' = None"
    and may: "MailboxExists (ev_first ev) (rcv_MailboxID req) (h_store h)"
      "CheckReadSecret (rcv_MailboxID req) (rcv_ReadSecret req) (h_store h)"
    and ok: "\<forall>m \<in> set (queue (h_store h) (rcv_MailboxID req)).
       length (msg_ID m) = 16 \<and> 0 < length (msg_Envelope m) \<and> length (msg_Envelope m) \<le> MaxMessageBytes"
    and msgs: "msgs = take (batch_limit (int (unat (rcv_Limit req))))
       (unexpired (ev_first ev) (h_store h) (rcv_MailboxID req))"
  shows "\<exists>resp h'. ServeHTTP sv ev (post_request RouteReceive body) h
      = (Some (writeProto SchemaReceiveMessagesResponse resp), h')
    \<and> UnmarshalReceiveMessagesResponse np resp = Inr \<lparr>rmr_Messages =
         map (\<lambda>m. \<lparr>rm_MsgID = msg_ID m, rm_Envelope = msg_Envelope m\<rparr>) msgs, rmr_Consumed = True\<rparr>
    \<and> queue (h_store h') (rcv_MailboxID req)
        = drop (length msgs) (unexpired (ev_first ev) (h_store h) (rcv_MailboxID req))
    \<and> (\<forall>other. other \<noteq> rcv_MailboxID req \<longrightarrow> mailbox_of (h_store h') other = mailbox_of (h_store h) other)"
proof -
  have dec: "UnmarshalReceiveMessages np body = Inr req" using body(1) by (rule receive_messages_rt)
  have read: "readBody (post_request RouteReceive body) 256 = Inr body"
    using body dec read_posted
    by (fastforce simp: MarshalReceiveMessages_def marshal_Inr UnmarshalReceiveMessages_def)
  have mid: "copy_array 16 (rcv_MailboxID req) = rcv_MailboxID req"
    using body by (simp add: MarshalReceiveMessages_def marshal_Inr ValidateReceiveMessages_None)
  have lim: "batch_limit (if int (unat (rcv_Limit req)) \<le> 0 then int MaxBatchMessages else int (unat (rcv_Limit req)))
      = batch_limit (int (unat (rcv_Limit req)))"
    by (simp add: batch_limit_def)
  obtain out c s' where rcv: "ReceiveMessages (ev_first ev) (rcv_MailboxID req) (rcv_ReadSecret req)
      (if int (unat (rcv_Limit req)) \<le> 0 then int MaxBatchMessages else int (unat (rcv_Limit req))) False (h_store h)
      = (Inr (out, c), s')"
    using may ReceiveMessages_auth by (metis prod.collapse)
  note res = ReceiveMessages_Inr [OF rcv, unfolded lim, folded msgs]
  have "length msgs \<le> MaxBatchMessages"
    using batch_limit_bounds(2) [of "int (unat (rcv_Limit req))"] by (simp add: msgs)
  moreover have "set msgs \<subseteq> set (queue (h_store h) (rcv_MailboxID req))"
    using set_take_subset by (fastforce simp: msgs unexpired_def)
  then have "list_all batch_ok (map (\<lambda>m. \<lparr>rm_MsgID = msg_ID m, rm_Envelope = msg_Envelope m\<rparr>) msgs)"
    using ok by (auto simp: list_all_iff batch_ok_def)
  ultimately obtain resp where resp: "MarshalReceiveMessagesResponse np
      (map (\<lambda>m. \<lparr>rm_MsgID = msg_ID m, rm_Envelope = msg_Envelope m\<rparr>) msgs) True = Inr resp"
    using batch_marshals by force
  have "handleReceive sv ev (post_request RouteReceive body) h = (Inr (SchemaReceiveMessagesResponse, resp),
      h\<lparr>h_buckets := snd (allow ''recv-ip:'' (ev_now ev) (ReceivesPerIP (sv_limits sv)) (h_buckets h)), h_store := s'\<rparr>)"
    using read dec mid rcv res resp sv body(2) new
    by (cases "uint (rcv_Limit req) = 0")
       (simp_all add: handleReceive_def Let_def hbind_def handler_defs post_only_def call_store_def limited_passes)
  then have "ServeHTTP sv ev (post_request RouteReceive body) h
      = (Some (writeProto SchemaReceiveMessagesResponse resp),
         h\<lparr>h_buckets := snd (allow ''recv-ip:'' (ev_now ev) (ReceivesPerIP (sv_limits sv)) (h_buckets h)), h_store := s'\<rparr>)"
    by (intro served [where handle = handleReceive]) simp_all
  then show ?thesis
    using receive_messages_response_rt [OF resp] res(3) ReceiveMessages_other [OF rcv] by (auto simp: msgs min_def)
qed

text \<open>A request to read a mailbox that is gone, or with a wrong secret: an error, and nothing is removed.\<close>

lemma receive_refused:
  assumes sv: "sv_np sv = np" "sv_store sv = mem_store"
    and body: "MarshalReceiveMessages np req = Inr body"
    and may: "\<not> (MailboxExists (ev_first ev) (rcv_MailboxID req) (h_store h)
       \<and> CheckReadSecret (rcv_MailboxID req) (rcv_ReadSecret req) (h_store h))"
  shows "\<exists>resp h'. ServeHTTP sv ev (post_request RouteReceive body) h = (Some resp, h')
    \<and> rs_Status resp \<noteq> 200 \<and> h_store h' = h_store h"
proof -
  have dec: "UnmarshalReceiveMessages np body = Inr req" using body by (rule receive_messages_rt)
  have read: "readBody (post_request RouteReceive body) 256 = Inr body"
    using body dec read_posted
    by (fastforce simp: MarshalReceiveMessages_def marshal_Inr UnmarshalReceiveMessages_def)
  have mid: "copy_array 16 (rcv_MailboxID req) = rcv_MailboxID req"
    using body by (simp add: MarshalReceiveMessages_def marshal_Inr ValidateReceiveMessages_None)
  have refused: "\<exists>e. ReceiveMessages (ev_first ev) (rcv_MailboxID req) (rcv_ReadSecret req) limit peek (h_store h)
      = (Inl e, h_store h)" for limit peek
  proof -
    obtain r s' where r: "ReceiveMessages (ev_first ev) (rcv_MailboxID req) (rcv_ReadSecret req) limit peek (h_store h) = (r, s')"
      by fastforce
    then show ?thesis using may ReceiveMessages_auth ReceiveMessages_Inl by (cases r) blast+
  qed
  obtain ok b where allow: "allow ''recv-ip:'' (ev_now ev) (ReceivesPerIP (sv_limits sv)) (h_buckets h) = (ok, b)"
    by fastforce
  obtain e where e: "ReceiveMessages (ev_first ev) (rcv_MailboxID req) (rcv_ReadSecret req)
      (if int (unat (rcv_Limit req)) \<le> 0 then int MaxBatchMessages else int (unat (rcv_Limit req)))
      (rcv_Peek req = 1) (h_store h) = (Inl e, h_store h)"
    using refused by blast
  have "\<exists>pe h'. handleReceive sv ev (post_request RouteReceive body) h = (Inl pe, h') \<and> h_store h' = h_store h"
    using read dec mid allow e sv
    by (cases ok; cases "uint (rcv_Limit req) = 0")
       (simp_all add: handleReceive_def Let_def hbind_def handler_defs post_only_def call_store_def limited_def)
  then show ?thesis by (auto simp: ServeHTTP_def respond_def)
qed

end

end
