(* ===== verification/Delivery.thy ===== *)
theory Delivery
  imports Accepted Client
begin

text \<open>
  The client's adapter against the shard: the request \<open>Adapter.SendMessage\<close> builds is served by
  \<open>handleSend\<close>, and when the mailbox takes the message the adapter reports success.
\<close>

text \<open>The network between them: a body posted to the shard's send route, answered with a status.\<close>

definition shard_http ::
  "MemStore server \<Rightarrow> environment \<Rightarrow> MemStore Handler \<Rightarrow> string \<Rightarrow> bytes \<Rightarrow> go_error + int" where
  "shard_http sv ev h url body =
     (case fst (ServeHTTP sv ev (post_request RouteSend body) h) of
        None \<Rightarrow> Inl (ForeignErr ''no route'') | Some resp \<Rightarrow> Inr (rs_Status resp))"

lemma ServeHTTP_send:
  "hr_Path r = RouteSend \<Longrightarrow>
   ServeHTTP sv ev r h = map_prod Some id (respond (sv_np sv) (handleSend sv ev r) h)"
  by (simp add: ServeHTTP_def routes_def route_defs)

lemma client_delivers:
  assumes np: "total_codec (sv_np sv)"
    and key: "length pub = 32" "\<And>m. length (sign m) = 64" "\<And>m. sv_verify sv pub m (sign m)"
    and msg: "msg = client_message pub sign nonce ts mailboxID payload"
    and shape: "length nonce = 16" "length mailboxID = 16" "0 < length payload" "length payload \<le> MaxMessageBytes"
    and clock: "CheckSkew (u64_of_int64 ts) (ev_now ev) = None"
    and sv: "sv_store sv = mem_store" "h = NewHandler s" "store_ok s" "length (ev_id ev) = 16"
    and new: "map_of (ms_replay s) (replayKey replayDomainMsg pub nonce) = None"
    and room: "SendMessage (ev_second ev) (ev_id ev) msg s = (Inr (i, n), s')"
  shows "Adapter_SendMessage (sv_np sv) (shard_http sv ev h) url pub sign (Some nonce) ts (Some mid) mailboxID payload
           = Inr mid
    \<and> (\<exists>body. MarshalSendMessage (sv_np sv) msg = Inr body
         \<and> queue (h_store (snd (ServeHTTP sv ev (post_request RouteSend body) h))) mailboxID
             = unexpired (ev_second ev) s mailboxID @ [stored (ev_second ev) (ev_id ev) msg])"
proof -
  have sel: "sm_SenderPub msg = pub" "sm_MailboxID msg = mailboxID" "sm_Nonce msg = nonce"
    "sm_Envelope msg = payload" "length (sm_Signature msg) = 64"
    using key(2) by (simp_all add: msg client_message_def)
  have valid: "ValidateSendMessage msg = None" using room by (rule SendMessage_Inr(1))
  obtain body where body: "MarshalSendMessage (sv_np sv) msg = Inr body"
    using total_codec.np_total [OF np] by (fastforce simp: MarshalSendMessage_def valid marshal_def)
  obtain m where mark: "CheckAndMarkReplay (ev_first ev) (replayKey replayDomainMsg pub nonce) s
      = (False, s\<lparr>ms_replay := m\<rparr>)"
    using sv(3) new by (rule mark_fresh)
  have store: "h_store h = s" "h_buckets h = []" by (simp_all add: sv(2) NewHandler_def)
  have "VerifyMsgSend (sv_verify sv) (sm_SenderPub msg) (sm_MailboxID msg) (sm_Timestamp msg) (sm_Nonce msg)
      (sm_Envelope msg) (sm_Signature msg) (ev_now ev) = None"
    using client_message_verifies [where pub = pub and sign = sign and verify = "sv_verify sv"] key clock msg sel
    by simp
  then obtain resp h' where serve: "ServeHTTP sv ev (post_request RouteSend body) h
        = (Some (writeProto SchemaSendMessageResponse resp), h')"
      "h_store h' = s'\<lparr>ms_replay := m\<rparr>"
    using total_codec.send_served [OF np refl sv(1) body, of ev h] mark SendMessage_replay [OF room, of m]
      sel store sv(4)
    by fastforce
  have "queue (h_store h') mailboxID = queue s' mailboxID" by (simp add: serve(2) queue_def)
  then show ?thesis
    using SendMessage_Inr(4) [OF room] serve body sel shape msg
    by (simp add: Adapter_SendMessage_def shard_http_def)
qed

section \<open>Refused messages\<close>

lemmas send_steps = handleSend_def Let_def post_only_def hbind_def hrequire_def hreturn_def hfail_def hproto_def
  hgo_def hcheck_def convert_def to16_def to32_def

lemma send_unverified:
  assumes "hr_Path r = RouteSend"
    and "\<And>raw msg. readBody r MaxRequestBytes = Inr raw \<Longrightarrow> UnmarshalSendMessage (sv_np sv) raw = Inr msg \<Longrightarrow>
       VerifyMsgSend (sv_verify sv) (sm_SenderPub msg) (sm_MailboxID msg) (sm_Timestamp msg) (sm_Nonce msg)
         (sm_Envelope msg) (sm_Signature msg) (ev_now ev) \<noteq> None"
  shows "\<exists>resp. ServeHTTP sv ev r h = (Some resp, h) \<and> rs_Status resp \<noteq> 200"
proof -
  have "\<exists>pe. handleSend sv ev r h = (Inl pe, h)"
  proof (cases "readBody r MaxRequestBytes")
    case (Inl e)
    then show ?thesis by (simp add: send_steps)
  next
    case (Inr raw)
    show ?thesis
    proof (cases "UnmarshalSendMessage (sv_np sv) raw")
      case (Inl e)
      with Inr show ?thesis by (simp add: send_steps)
    next
      case msg: (Inr msg)
      then show ?thesis using assms(2) [OF Inr msg] Inr by (auto simp: send_steps)
    qed
  qed
  then show ?thesis using assms(1) by (auto simp: ServeHTTP_send respond_def)
qed

text \<open>The client's clock stands still, so a shard whose clock has moved on refuses every message of it.\<close>

lemma client_clock_refused:
  assumes np: "nanopack_codec (sv_np sv)"
    and clock: "MaxClockSkewMillis \<le> ev_now ev" "ev_now ev < 2 ^ 62" "MaxClockSkewMillis < \<bar>ev_now ev - testNow\<bar>"
    and msg: "MarshalSendMessage (sv_np sv) (client_message pub sign n (nowMillis nowMillisFunc) mailboxID payload) = Inr body"
  shows "\<exists>resp. ServeHTTP sv ev (post_request RouteSend body) h = (Some resp, h) \<and> rs_Status resp \<noteq> 200"
proof (rule send_unverified)
  fix raw m
  assume raw: "readBody (post_request RouteSend body) MaxRequestBytes = Inr raw" "UnmarshalSendMessage (sv_np sv) raw = Inr m"
  have "raw = body" using raw(1) by (simp add: readBody_Inr post_request_def)
  then have m: "m = client_message pub sign n (nowMillis nowMillisFunc) mailboxID payload"
    using nanopack_codec.send_message_rt [OF np msg] raw(2) by simp
  have "CheckSkew (u64_of_int64 testNow) (ev_now ev) \<noteq> None"
    using clock CheckSkew_window [of "ev_now ev" "u64_of_int64 testNow"] by (simp add: u64_of_int64_def)
  then show "VerifyMsgSend (sv_verify sv) (sm_SenderPub m) (sm_MailboxID m) (sm_Timestamp m) (sm_Nonce m)
      (sm_Envelope m) (sm_Signature m) (ev_now ev) \<noteq> None"
    by (simp add: m VerifyMsgSend_skew client_message_def nowMillis_def)
qed simp

lemma client_never_delivers:
  assumes "nanopack_codec (sv_np sv)"
    and "MaxClockSkewMillis \<le> ev_now ev" "ev_now ev < 2 ^ 62" "MaxClockSkewMillis < \<bar>ev_now ev - testNow\<bar>"
  shows "\<exists>e. Adapter_SendMessage (sv_np sv) (shard_http sv ev h) url pub sign nonce (nowMillis nowMillisFunc) mid mailboxID
     payload = Inl e"
proof (cases nonce)
  case (Some n)
  show ?thesis
  proof (cases "MarshalSendMessage (sv_np sv) (client_message pub sign n (nowMillis nowMillisFunc) mailboxID payload)")
    case (Inr body)
    with client_clock_refused [OF assms Inr, of h] Some show ?thesis by (auto simp: Adapter_SendMessage_def shard_http_def)
  qed (simp add: Adapter_SendMessage_def Some)
qed (simp add: Adapter_SendMessage_def)

end
