(* ===== verification/Seal_Safety.thy ===== *)
theory Seal_Safety
  imports Shard_Safety
begin

text \<open>
  Who can seal a transfer. No store operation but \<open>CompleteTransfer\<close> turns a transfer into a complete
  one (\<open>no_seal\<close>), so a request that does is served by \<open>handleComplete\<close>, and then it carries a fresh
  signature of the transfer's own sender.
\<close>

section \<open>Store operations that do not seal\<close>

definition no_seal :: "MemStore \<Rightarrow> MemStore \<Rightarrow> bool" where
  "no_seal s s' \<longleftrightarrow>
     (\<forall>tid t'. transfer_of s' tid = Some t' \<and> td_state t' = TransferComplete \<longrightarrow> transfer_of s tid = Some t')"

lemma no_seal_frame: "ms_transfers s' = ms_transfers s \<Longrightarrow> no_seal s s'"
  by (simp add: no_seal_def)

lemma no_seal_put:
  "td_state t \<noteq> TransferComplete \<Longrightarrow> ms_transfers s' = ms_transfers (put_transfer tid t s) \<Longrightarrow> no_seal s s'"
  by (auto simp: no_seal_def split: if_splits)

lemma no_seal_get: "getTransferLocked k now s = (r, s') \<Longrightarrow> no_seal s s'"
  by (auto simp: getTransferLocked_def no_seal_def split: option.splits if_splits)

lemma put_new_open: "put_check c t = None \<Longrightarrow> td_state (put_new now c t) \<noteq> TransferComplete"
  by (auto simp: put_check_def put_new_def Let_def split: if_splits)

lemma no_seal_PutChunk: "no_seal s (snd (PutChunk now c s))"
proof -
  let ?k = "copy_array 16 (cu_TransferID c)"
  have new: "no_seal s (put_transfer ?k (put_new now c t) s)"
    "no_seal s (slide_mailbox m now (put_transfer ?k (put_new now c t) s))"
    if "put_check c t = None" for m t
    using put_new_open [OF that] by (intro no_seal_put [of "put_new now c t"]; simp)+
  obtain r s1 where g: "getTransferLocked ?k now s = (r, s1)" by fastforce
  then have "no_seal s s1" "\<forall>t. r = Some t \<longrightarrow> s1 = s"
    by (auto simp: no_seal_get getTransferLocked_Some)
  with g new show ?thesis
    by (cases r) (simp_all add: PutChunk_def Let_def no_seal_frame split: option.split)
qed

lemma no_seal_CreateTransfer: "no_seal s (snd (CreateTransfer now i tk t s))"
proof -
  have "no_seal s s'"
    if "ms_transfers s' = ms_transfers (put_transfer i td s)" "td_state td = TransferCreated" for s' td
    using that by (intro no_seal_put [of td]) auto
  then show ?thesis
    by (auto simp: CreateTransfer_def Let_def no_seal_frame split: option.splits)
qed

lemma no_seal_read:
  "no_seal s (snd (GetChunk now k mid sec i s))" "no_seal s (snd (Resume now k mid sec s))"
  "no_seal s (snd (GetChunkByTicket now k tk i s))" "no_seal s (snd (ResumeByTicket now k tk s))"
  "no_seal s (snd (Progress now k s))" "no_seal s (snd (GetTransfer now k s))"
  by (auto simp: GetChunk_def Resume_def GetChunkByTicket_def ResumeByTicket_def Progress_def
        GetTransfer_def getTransferLocked_Some no_seal_frame split: option.splits prod.splits
        dest: no_seal_get dest!: owner_check_frame)

lemma no_seal_CancelTransfer: "no_seal s (snd (CancelTransfer now k mid sec s))"
proof -
  have "no_seal s (delete_transfer k s')" if "ms_transfers s' = ms_transfers s" for s'
    using that by (auto simp: no_seal_def split: if_splits)
  then show ?thesis
    by (auto simp: CancelTransfer_def no_seal_frame split: option.splits prod.splits
          dest!: owner_check_frame)
qed

lemma no_seal_mailbox:
  "no_seal s (snd (SendMessage now i m s))" "no_seal s (snd (ReceiveMessages now mid sec lim peek s))"
  "no_seal s (snd (AckMessages now mid sec ids d s))" "no_seal s (snd (CheckAndMarkReplay now k s))"
  by (simp_all add: no_seal_frame) (auto simp: CheckAndMarkReplay_def Let_def no_seal_frame)

section \<open>Handlers that do not seal\<close>

definition unsealing :: "MemStore Handler \<Rightarrow> MemStore Handler \<Rightarrow> bool" where
  "unsealing h h' \<longleftrightarrow> no_seal (h_store h) (h_store h')"

interpretation unseal: state_order unsealing
  by unfold_locales (auto simp: unsealing_def no_seal_def)

lemma unsealing_call: "(\<And>s. no_seal s (snd (f s))) \<Longrightarrow> moves unsealing (call_store f)"
  unfolding call_store_def by (rule unseal.moves_call) (simp add: unsealing_def)

lemma unsealing_cancel:
  "moves unsealing (hon h_store (\<lambda>u h. h\<lparr>h_store := u\<rparr>) (CancelTransfer t tid mid sec))"
  by (rule unseal.moves_on) (simp add: unsealing_def no_seal_CancelTransfer)

lemma unsealing_limited: "moves unsealing (limited key now mx)"
  unfolding limited_def
  by (intro unseal.moves_bind unseal.moves_on unseal.moves_pure)
     (simp add: unsealing_def no_seal_frame)

lemma unsealing_fresh: "moves unsealing (fresh mem_store t key)"
  unfolding fresh_def
  by (intro unseal.moves_bind unseal.moves_on unseal.moves_pure)
     (simp add: unsealing_def no_seal_mailbox)

lemma unsealing_pure: "moves unsealing (convert r pe)" "moves unsealing (post_only q)"
  by (cases r) (simp_all add: convert_def post_only_def unseal.moves_pure)

lemmas unsealing_moves =
  unseal.moves_bind unseal.moves_pure unsealing_call unsealing_limited unsealing_fresh unsealing_pure
  unsealing_cancel unseal.moves_if moves_case_prod no_seal_mailbox no_seal_read no_seal_PutChunk
  no_seal_CreateTransfer

lemma other_routes_unsealing:
  assumes "sv_store sv = mem_store" "(p, handle) \<in> set routes" "p \<noteq> RouteComplete"
  shows "moves unsealing (handle sv ev r)"
proof -
  have "moves unsealing (handleHello sv ev r)" "moves unsealing (handleSend sv ev r)"
    "moves unsealing (handleReceive sv ev r)" "moves unsealing (handleAck sv ev r)"
    "moves unsealing (handleCreate sv ev r)" "moves unsealing (handlePut sv ev r)"
    "moves unsealing (handleGet sv ev r)" "moves unsealing (handleResume sv ev r)"
    "moves unsealing (handleCancel sv ev r)"
    unfolding handleHello_def handleSend_def handleReceive_def handleAck_def handleCreate_def
      handlePut_def handleGet_def handleResume_def handleCancel_def Let_def assms(1) mem_store_sel
    by (intro unsealing_moves)+
  with assms(2,3) show ?thesis by (auto simp: routes_def)
qed

section \<open>The one that does\<close>

text \<open>The state after a sequence, from its first step.\<close>

lemma snd_hbind:
  "snd (hbind (hproto p) f h) = (case p of Inl pe \<Rightarrow> h | Inr x \<Rightarrow> snd (f x h))"
  "snd (hbind (hgo r) f h) = (case r of Inl e \<Rightarrow> h | Inr x \<Rightarrow> snd (f x h))"
  "snd (hbind (hcheck c) g h) = (case c of Some e \<Rightarrow> h | None \<Rightarrow> snd (g () h))"
  "snd (hbind (hrequire b pe) g h) = (if b then snd (g () h) else h)"
  "snd (hbind (convert q pe) f h) = (case q of None \<Rightarrow> h | Some x \<Rightarrow> snd (f x h))"
  by (auto simp: hbind_def handler_defs convert_def split: sum.splits option.splits)

lemma snd_hbind_store:
  "snd (hbind (fresh st t k) g h) =
     (case st_CheckAndMarkReplay st t k (h_store h) of
        (dup, s') \<Rightarrow> if dup then h\<lparr>h_store := s'\<rparr> else snd (g () (h\<lparr>h_store := s'\<rparr>)))"
  "snd (hbind (call_store c) f h) =
     (case c (h_store h) of
        (Inl e, s') \<Rightarrow> h\<lparr>h_store := s'\<rparr> | (Inr x, s') \<Rightarrow> snd (f x (h\<lparr>h_store := s'\<rparr>)))"
  by (auto simp: hbind_def fresh_def call_store_def handler_defs split: prod.splits sum.splits)

lemma CompleteTransfer_only:
  "tid \<noteq> copy_array 16 (tf_TransferID req) \<Longrightarrow>
   transfer_of (snd (CompleteTransfer now req s)) tid = transfer_of s tid"
  by (auto simp: CompleteTransfer_def Let_def getTransferLocked_def split: option.splits prod.splits)

lemma GetTransfer_Inr:
  "GetTransfer now tid s = (Inr tv, s') \<longleftrightarrow>
     (\<exists>t. getTransferLocked tid now s = (Some t, s') \<and> tv = transfer_view tid t)"
  by (auto simp: GetTransfer_def split: option.splits prod.splits)

text \<open>The state after \<open>handleComplete\<close>, once the request has passed the checks before the store.\<close>

lemma handleComplete_store:
  assumes "sv_store sv = mem_store" "hr_Method r = MethodPost" "readBody r 512 = Inr raw"
    and "UnmarshalTransferComplete (sv_np sv) raw = Inr req"
    and "length (tf_SenderPub req) = 32" "length (tf_Nonce req) = 16"
    and "VerifyXferComplete (sv_verify sv) (tf_SenderPub req) (copy_array 16 (tf_TransferID req))
       (copy_array 32 (tf_ManifestHash req)) (tf_Timestamp req) (tf_Nonce req) (tf_Signature req)
       (ev_now ev) = None"
  shows "h_store (snd (handleComplete sv ev r h)) =
    (case CheckAndMarkReplay (ev_first ev)
            (replayKey replayDomainComplete (tf_SenderPub req) (tf_Nonce req)) (h_store h) of
       (True, s1) \<Rightarrow> s1
     | (False, s1) \<Rightarrow>
         (case GetTransfer (ev_second ev) (copy_array 16 (tf_TransferID req)) s1 of
            (Inl e, s2) \<Rightarrow> s2
          | (Inr tv, s2) \<Rightarrow>
              if tv_SenderPub tv = tf_SenderPub req then snd (CompleteTransfer (ev_third ev) req s2)
              else s2))"
  using assms
  by (simp add: handleComplete_def Let_def post_only_def snd_hbind snd_hbind_store to16_def to32_def
        complete_call_def hreturn_def split: prod.splits sum.splits option.splits bool.splits)

lemma handleComplete_seals:
  assumes st: "sv_store sv = mem_store" and seal: "\<not> unsealing h (snd (handleComplete sv ev r h))"
  obtains raw req s1 t where
    "readBody r 512 = Inr raw" "UnmarshalTransferComplete (sv_np sv) raw = Inr req"
    "VerifyXferComplete (sv_verify sv) (tf_SenderPub req) (copy_array 16 (tf_TransferID req))
       (copy_array 32 (tf_ManifestHash req)) (tf_Timestamp req) (tf_Nonce req) (tf_Signature req)
       (ev_now ev) = None"
    "CheckAndMarkReplay (ev_first ev)
       (replayKey replayDomainComplete (tf_SenderPub req) (tf_Nonce req)) (h_store h) = (False, s1)"
    "transfer_of (h_store h) (copy_array 16 (tf_TransferID req)) = Some t"
    "td_senderPub t = tf_SenderPub req"
    "h_store (snd (handleComplete sv ev r h)) = snd (CompleteTransfer (ev_third ev) req s1)"
proof -
  have refl: "unsealing h h" by (rule unseal.R_refl)
  obtain raw req where m: "hr_Method r = MethodPost" "readBody r 512 = Inr raw"
    "UnmarshalTransferComplete (sv_np sv) raw = Inr req"
    "length (tf_SenderPub req) = 32" "length (tf_Nonce req) = 16"
    "VerifyXferComplete (sv_verify sv) (tf_SenderPub req) (copy_array 16 (tf_TransferID req))
       (copy_array 32 (tf_ManifestHash req)) (tf_Timestamp req) (tf_Nonce req) (tf_Signature req)
       (ev_now ev) = None"
    using seal refl
    by (auto simp: handleComplete_def Let_def post_only_def snd_hbind split: sum.splits if_splits option.splits)
  obtain b s1 where c: "CheckAndMarkReplay (ev_first ev)
       (replayKey replayDomainComplete (tf_SenderPub req) (tf_Nonce req)) (h_store h) = (b, s1)"
    by fastforce
  obtain g s2 where g: "GetTransfer (ev_second ev) (copy_array 16 (tf_TransferID req)) s1 = (g, s2)"
    by fastforce
  have s1: "ms_transfers s1 = ms_transfers (h_store h)"
    using c by (auto simp: CheckAndMarkReplay_def Let_def split: if_splits option.splits)
  have no: "no_seal (h_store h) s1" "no_seal (h_store h) s2"
    using s1 no_seal_read(6) [of s1 "ev_second ev" "copy_array 16 (tf_TransferID req)"] g
    by (simp_all add: no_seal_def)
  note after = handleComplete_store [OF st m, of h]
  have "\<not> b" using seal after c no by (cases b) (auto simp: unsealing_def)
  moreover obtain tv where tv: "g = Inr tv" "tv_SenderPub tv = tf_SenderPub req"
    using seal after c g no calculation by (cases g) (auto simp: unsealing_def split: if_splits)
  moreover obtain t where "s2 = s1" "transfer_of s1 (copy_array 16 (tf_TransferID req)) = Some t"
    "tv = transfer_view (copy_array 16 (tf_TransferID req)) t"
    using g tv by (auto simp: GetTransfer_Inr getTransferLocked_Some)
  ultimately show thesis
    using that [OF m(2,3,6), of s1 t] after c g s1 by (simp add: transfer_view_def)
qed

lemma sealed_by_sender:
  assumes st: "sv_store sv = mem_store"
    and open': "transfer_of (h_store h) tid = Some t" "td_state t \<noteq> TransferComplete"
    and seal: "transfer_of (h_store (snd (ServeHTTP sv ev r h))) tid = Some t'"
      "td_state t' = TransferComplete"
  shows "hr_Path r = RouteComplete \<and> (\<exists>raw req.
    readBody r 512 = Inr raw \<and> UnmarshalTransferComplete (sv_np sv) raw = Inr req
    \<and> copy_array 16 (tf_TransferID req) = tid \<and> tf_SenderPub req = td_senderPub t
    \<and> VerifyXferComplete (sv_verify sv) (td_senderPub t) tid (copy_array 32 (tf_ManifestHash req))
        (tf_Timestamp req) (tf_Nonce req) (tf_Signature req) (ev_now ev) = None)"
proof -
  have ns: "\<not> unsealing h (snd (ServeHTTP sv ev r h))"
  proof
    assume "unsealing h (snd (ServeHTTP sv ev r h))"
    then have "transfer_of (h_store h) tid = Some t'"
      using seal unfolding unsealing_def no_seal_def by blast
    then show False using open' seal(2) by simp
  qed
  obtain handle :: "MemStore server \<Rightarrow> environment \<Rightarrow> http_request \<Rightarrow> (MemStore Handler, u8 \<times> bytes) handler"
    where handle: "map_of routes (hr_Path r) = Some handle"
    using ns unseal.R_refl by (auto simp: ServeHTTP_def split: option.splits)
  then have state: "snd (ServeHTTP sv ev r h) = snd (handle sv ev r h)" by (simp add: ServeHTTP_def)
  have path: "hr_Path r = RouteComplete"
  proof (rule ccontr)
    assume "hr_Path r \<noteq> RouteComplete"
    then have "moves unsealing (handle sv ev r)"
      using map_of_SomeD [OF handle] by (intro other_routes_unsealing [OF st])
    then show False using ns state by (simp add: moves_def)
  qed
  then have "handle = handleComplete" using handle by (simp add: routes_def route_defs)
  then have ns': "\<not> unsealing h (snd (handleComplete sv ev r h))" using ns state by simp
  obtain raw req s1 t0 where c:
    "readBody r 512 = Inr raw" "UnmarshalTransferComplete (sv_np sv) raw = Inr req"
    "VerifyXferComplete (sv_verify sv) (tf_SenderPub req) (copy_array 16 (tf_TransferID req))
       (copy_array 32 (tf_ManifestHash req)) (tf_Timestamp req) (tf_Nonce req) (tf_Signature req)
       (ev_now ev) = None"
    "CheckAndMarkReplay (ev_first ev)
       (replayKey replayDomainComplete (tf_SenderPub req) (tf_Nonce req)) (h_store h) = (False, s1)"
    "transfer_of (h_store h) (copy_array 16 (tf_TransferID req)) = Some t0"
    "td_senderPub t0 = tf_SenderPub req"
    "h_store (snd (handleComplete sv ev r h)) = snd (CompleteTransfer (ev_third ev) req s1)"
    using handleComplete_seals [OF st ns'] by blast
  have s1: "ms_transfers s1 = ms_transfers (h_store h)"
    using c(4) by (auto simp: CheckAndMarkReplay_def Let_def split: if_splits option.splits)
  have "copy_array 16 (tf_TransferID req) = tid"
  proof (rule ccontr)
    assume "copy_array 16 (tf_TransferID req) \<noteq> tid"
    then have "transfer_of (h_store (snd (ServeHTTP sv ev r h))) tid = transfer_of (h_store h) tid"
      using CompleteTransfer_only [of tid req "ev_third ev" s1] c(7) s1 state \<open>handle = handleComplete\<close>
      by simp
    then show False using open' seal by simp
  qed
  then show ?thesis using c path open'(1) by auto
qed

end
