(* ===== verification/Server_Examples.thy ===== *)
theory Server_Examples
  imports Examples Delivery Seal_Safety
begin

text \<open>A concrete shard and router, with the documented layout as the serialisation library and a
  verifier that accepts, and requests they accept.\<close>

definition ex_verify :: ed25519_verify where "ex_verify pub m sig = True"

definition ex_server :: "MemStore server" where
  "ex_server = \<lparr>sv_store = mem_store, sv_limits = DefaultRateLimits, sv_np = framing, sv_verify = ex_verify\<rparr>"

definition ex_env :: "int \<Rightarrow> environment" where
  "ex_env t = \<lparr>ev_now = t, ev_first = t, ev_second = t, ev_third = t, ev_id = ex_nonce, ev_ticket = None\<rparr>"

lemma ex_server_sel [simp]:
  "sv_store ex_server = mem_store" "sv_limits ex_server = DefaultRateLimits" "sv_np ex_server = framing"
  "sv_verify ex_server = ex_verify"
  "ev_now (ex_env t) = t" "ev_first (ex_env t) = t" "ev_second (ex_env t) = t" "ev_third (ex_env t) = t"
  "ev_id (ex_env t) = ex_nonce"
  by (simp_all add: ex_server_def ex_env_def)

lemmas framing_codec = framing_laws.nanopack_codec_axioms

lemmas marshal_framing = framing_laws.marshal_total

section \<open>A message that is sent\<close>

definition ex_send_body :: bytes where
  "ex_send_body = projr (MarshalSendMessage framing ex_message)"

lemma ex_send_marshal: "MarshalSendMessage framing ex_message = Inr ex_send_body"
proof -
  obtain body where "MarshalSendMessage framing ex_message = Inr body"
    unfolding MarshalSendMessage_def ex_message_valid using marshal_framing by fastforce
  then show ?thesis by (simp add: ex_send_body_def)
qed

lemma ex_send_decodes: "UnmarshalSendMessage framing ex_send_body = Inr ex_message"
  using ex_send_marshal by (rule framing_laws.send_message_rt)

definition ex_send :: http_request where "ex_send = post_request RouteSend ex_send_body"

lemma ex_send_read: "readBody ex_send MaxRequestBytes = Inr ex_send_body"
  using ex_send_marshal ex_send_decodes framing_laws.read_posted
  by (fastforce simp: MarshalSendMessage_def marshal_Inr UnmarshalSendMessage_def ex_send_def)

lemma ex_send_verifies:
  "VerifyMsgSend ex_verify ex_pub ex_id 100000 ex_nonce [7, 8] ex_sig 100000 = None"
  by (simp add: VerifyMsgSend_skew ex_verify_def CheckSkew_def int64_of_u64_def i64_def)

lemma ex_send_accepted:
  "\<exists>schema body h. handleSend ex_server (ex_env 100000) ex_send (NewHandler ex_mailbox) = (Inr (schema, body), h)"
proof -
  let ?k = "replayKey replayDomainMsg ex_pub ex_nonce"
  have "map_of (ms_replay ex_mailbox) ?k = None"
    by (simp add: ex_mailbox_def CreateMailbox_def put_mailbox_def)
  with ex_mailbox_ok obtain m
    where mark: "CheckAndMarkReplay 100000 ?k ex_mailbox = (False, ex_mailbox\<lparr>ms_replay := m\<rparr>)"
    by (rule mark_fresh)
  have "\<exists>n s'. SendMessage 100000 ex_nonce ex_message ex_mailbox = (Inr (ex_nonce, n), s')"
    by (simp add: SendMessage_def Let_def getMailboxLocked_def prune_filter ex_mailbox_state)
       (simp add: ex_message_def getMailboxLocked_def ex_mailbox_state prune_filter Let_def)
  then obtain n s' where send: "SendMessage 100000 ex_nonce ex_message ex_mailbox = (Inr (ex_nonce, n), s')"
    by blast
  show ?thesis
    using framing_laws.handleSend_posted [OF _ _ ex_send_marshal, of ex_server "ex_env 100000" "NewHandler ex_mailbox"]
      ex_send_verifies mark SendMessage_replay [OF send, of m]
    by (fastforce simp: ex_message_def ex_send_def NewHandler_def)
qed

section \<open>A mailbox that is read\<close>

definition ex_receive_req :: ReceiveMessages where
  "ex_receive_req = \<lparr>rcv_MailboxID = ex_id, rcv_ReadSecret = ex_secret, rcv_Limit = 0, rcv_Peek = 0\<rparr>"

definition ex_receive_body :: bytes where
  "ex_receive_body = projr (MarshalReceiveMessages framing ex_receive_req)"

definition ex_receive :: http_request where "ex_receive = post_request RouteReceive ex_receive_body"

lemma ex_receive_marshal: "MarshalReceiveMessages framing ex_receive_req = Inr ex_receive_body"
proof -
  have "ValidateReceiveMessages ex_receive_req = None"
    by (simp add: ValidateReceiveMessages_def ex_receive_req_def)
  then obtain body where "MarshalReceiveMessages framing ex_receive_req = Inr body"
    unfolding MarshalReceiveMessages_def using marshal_framing by fastforce
  then show ?thesis by (simp add: ex_receive_body_def)
qed

lemma ex_receive_decodes: "UnmarshalReceiveMessages framing ex_receive_body = Inr ex_receive_req"
  using ex_receive_marshal by (rule framing_laws.receive_messages_rt)

lemma ex_receive_read: "readBody ex_receive 256 = Inr ex_receive_body"
  using ex_receive_marshal ex_receive_decodes framing_laws.read_posted
  by (fastforce simp: MarshalReceiveMessages_def marshal_Inr UnmarshalReceiveMessages_def ex_receive_def)

lemma ex_receive_accepted:
  "\<exists>schema body h. handleReceive ex_server (ex_env 100000) ex_receive (NewHandler ex_mailbox) = (Inr (schema, body), h)"
proof -
  have "MailboxExists 100000 ex_id ex_mailbox \<and> CheckReadSecret ex_id ex_secret ex_mailbox"
    by (simp add: MailboxExists_def CheckReadSecret_def ex_mailbox_state hashSecret_def)
  then obtain msgs c s' where rcv: "ReceiveMessages 100000 ex_id ex_secret 32 False ex_mailbox = (Inr (msgs, c), s')"
    using ReceiveMessages_auth [of 100000 ex_id ex_secret 32 False ex_mailbox] by auto
  have "msgs = []"
    using ReceiveMessages_Inr(1) [OF rcv] by (simp add: unexpired_def queue_def ex_mailbox_state)
  then obtain resp where "MarshalReceiveMessagesResponse framing
      (map (\<lambda>m. \<lparr>rm_MsgID = msg_ID m, rm_Envelope = msg_Envelope m\<rparr>) msgs) c = Inr resp"
    using framing_laws.np_total by (fastforce simp: MarshalReceiveMessagesResponse_def)
  moreover have "window_of [] k = None" for k by (simp add: window_of_def)
  ultimately show ?thesis
    using rcv ex_receive_read ex_receive_decodes
    by (simp add: handleReceive_def Let_def accept_simps limited_passes NewHandler_def ex_receive_def
          post_request_def ex_receive_req_def)
qed

section \<open>A transfer that is completed\<close>

definition ex_complete_body :: bytes where
  "ex_complete_body = projr (MarshalTransferComplete framing ex_finish)"

definition ex_complete :: http_request where
  "ex_complete = post_request RouteComplete ex_complete_body"

lemma ex_complete_marshal: "MarshalTransferComplete framing ex_finish = Inr ex_complete_body"
proof -
  obtain body where "MarshalTransferComplete framing ex_finish = Inr body"
    unfolding MarshalTransferComplete_def ex_finish_valid using marshal_framing by fastforce
  then show ?thesis by (simp add: ex_complete_body_def)
qed

lemma ex_complete_decodes: "UnmarshalTransferComplete framing ex_complete_body = Inr ex_finish"
  using ex_complete_marshal by (rule framing_laws.transfer_complete_rt)

lemma ex_complete_read: "readBody ex_complete 512 = Inr ex_complete_body"
  using ex_complete_marshal ex_complete_decodes framing_laws.read_posted
  by (fastforce simp: MarshalTransferComplete_def marshal_Inr UnmarshalTransferComplete_def ex_complete_def)

lemma ex_complete_seals:
  "\<exists>t'. transfer_of (h_store (snd (ServeHTTP ex_server (ex_env 100000) ex_complete (NewHandler ex_full)))) ex_id
          = Some t' \<and> td_state t' = TransferComplete"
proof -
  let ?k = "replayKey replayDomainComplete ex_pub ex_nonce"
  have serve: "snd (ServeHTTP ex_server (ex_env 100000) ex_complete (NewHandler ex_full))
      = snd (handleComplete ex_server (ex_env 100000) ex_complete (NewHandler ex_full))"
    by (simp add: ServeHTTP_def routes_def route_defs ex_complete_def post_request_def)
  have sel: "tf_SenderPub ex_finish = ex_pub" "tf_Nonce ex_finish = ex_nonce" "tf_TransferID ex_finish = ex_id"
    by (simp_all add: ex_finish_def)
  have "map_of (ms_replay ex_full) ?k = None" by (simp add: ex_full_def)
  with ex_full_ok obtain m where mark: "CheckAndMarkReplay 100000 ?k ex_full = (False, ex_full\<lparr>ms_replay := m\<rparr>)"
    by (rule mark_fresh)
  have tr: "transfer_of (ex_full\<lparr>ms_replay := m\<rparr>) ex_id = Some ex_one" by (simp add: ex_full_def)
  then have get: "GetTransfer 100000 ex_id (ex_full\<lparr>ms_replay := m\<rparr>)
      = (Inr (transfer_view ex_id ex_one), ex_full\<lparr>ms_replay := m\<rparr>)"
    by (simp add: GetTransfer_def getTransferLocked_def) (simp add: ex_one_def ex_transfer_def)
  have verify: "VerifyXferComplete ex_verify (tf_SenderPub ex_finish) (copy_array 16 (tf_TransferID ex_finish))
      (copy_array 32 (tf_ManifestHash ex_finish)) (tf_Timestamp ex_finish) (tf_Nonce ex_finish)
      (tf_Signature ex_finish) 100000 = None"
    by (simp add: VerifyXferComplete_def ex_verify_def ex_finish_def CheckSkew_def int64_of_u64_def i64_def)
  have "h_store (snd (handleComplete ex_server (ex_env 100000) ex_complete (NewHandler ex_full)))
      = snd (CompleteTransfer 100000 ex_finish (ex_full\<lparr>ms_replay := m\<rparr>))"
    by (subst handleComplete_store [of ex_server ex_complete ex_complete_body ex_finish])
       (use verify ex_complete_read ex_complete_decodes mark get sel in
         \<open>simp_all add: ex_complete_def post_request_def NewHandler_def transfer_view_def ex_one_def ex_transfer_def\<close>)
  moreover have "CompleteTransfer 100000 ex_finish (ex_full\<lparr>ms_replay := m\<rparr>)
      = (sealed_result ex_one, put_transfer ex_id (ex_one\<lparr>td_state := TransferComplete,
           td_expiresAt := i64 (100000 + CompleteTTLSeconds * 1000)\<rparr>) (ex_full\<lparr>ms_replay := m\<rparr>))"
    using CompleteTransfer_seals [OF ex_finish_valid, of "ex_full\<lparr>ms_replay := m\<rparr>" ex_one 100000] tr sel
    by (simp add: ex_one_def ex_transfer_def)
  ultimately show ?thesis using serve by simp
qed

section \<open>A router with one shard\<close>

definition ex_config :: "MemStore Config" where
  "ex_config = \<lparr>cfg_Secret = [1], cfg_Version = 1, cfg_RouterPub = ex_pub, cfg_sign = (\<lambda>m. ex_sig),
     cfg_MaxRegistersPerIP = 0, cfg_MaxResolvesPerIP = 0, cfg_store = mem_store, cfg_np = framing,
     cfg_verify = ex_verify\<rparr>"

definition ex_router :: "MemStore Router" where "ex_router = NewRouter [(''https://a'', NewMemStore)]"

definition ex_router_env :: router_env where
  "ex_router_env = \<lparr>re_now = 100000, re_store = 100000, re_probe = (\<lambda>i. 100000), re_secret = Some ex_secret\<rparr>"

definition ex_registration :: Register where
  "ex_registration = \<lparr>rg_ClientPub = ex_pub, rg_Timestamp = 100000, rg_Nonce = ex_nonce, rg_Signature = ex_sig\<rparr>"

definition ex_register_body :: bytes where
  "ex_register_body = projr (MarshalRegister framing ex_registration)"

definition ex_register :: http_request where "ex_register = post_request RouteRegister ex_register_body"

definition ex_table :: http_request where
  "ex_table = (post_request RouteTable [])\<lparr>hr_Method := MethodGet\<rparr>"

lemma ex_config_secret: "cfg_Secret ex_config = [1]" by (simp add: ex_config_def)

lemma ex_register_marshal: "MarshalRegister framing ex_registration = Inr ex_register_body"
proof -
  have "ValidateRegister ex_registration = None" by (simp add: ValidateRegister_def ex_registration_def)
  then obtain body where "MarshalRegister framing ex_registration = Inr body"
    unfolding MarshalRegister_def using marshal_framing by fastforce
  then show ?thesis by (simp add: ex_register_body_def)
qed

lemma ex_register_decodes: "UnmarshalRegister framing ex_register_body = Inr ex_registration"
  using ex_register_marshal by (rule framing_laws.register_rt)

lemma ex_register_read: "readBody ex_register 256 = Inr ex_register_body"
  using ex_register_marshal ex_register_decodes framing_laws.read_posted
  by (fastforce simp: MarshalRegister_def marshal_Inr UnmarshalRegister_def ex_register_def)

lemma ex_register_accepted:
  "\<exists>resp h'. router_handleRegister ex_config ex_router_env ex_register ex_router = (Inr resp, h')"
proof -
  let ?mid = "MailboxIDFromPub [1] ex_pub"
  have verify: "VerifyRegister ex_verify ex_pub 100000 ex_nonce ex_sig 100000 = None"
    by (simp add: VerifyRegister_def ex_verify_def CheckSkew_def int64_of_u64_def i64_def)
  have owner: "Owner ?mid [''https://a''] = ''https://a''" by (simp add: Owner_def Let_def)
  have "\<exists>body. MarshalRegisterResponse framing \<lparr>rr_MailboxID = ?mid, rr_ReadSecret = ex_secret,
      rr_ShardURL = ''https://a'', rr_TableVersion = 1, rr_ExpiresAt = e\<rparr> = Inr body" for e
    by (simp add: MarshalRegisterResponse_def check_RegisterResponse_def marshal_framing)
  then show ?thesis
    using verify owner ex_register_read ex_register_decodes
    by (cases "CreateMailbox 100000 ?mid (sha256 ex_secret) NewMemStore")
       (fastforce simp: router_handleRegister_def Let_def hbind_Inr hon_Inr hcall_Inr post_only_def allowRL_def
          allow_window_def checkReplay_def mark_key_def ex_config_def ex_router_def NewRouter_def
          ex_router_env_def ex_register_def post_request_def ex_registration_def shardURLs_def findShard_def
          store_at_def maxReg_def)
qed

lemma ex_table_accepted:
  "\<exists>resp h'. router_handleTable ex_config ex_router_env ex_table ex_router = (Inr resp, h')"
  by (simp add: router_handleTable_def Let_def hbind_Inr ex_config_def ex_router_def NewRouter_def
        ex_table_def post_request_def shardURLs_def MarshalRoutingTable_def check_RoutingTable_def marshal_framing)

text \<open>The same router once the mailbox is there, and a request to resolve its key.\<close>

definition ex_registered :: "MemStore Router" where
  "ex_registered =
     NewRouter [(''https://a'', snd (CreateMailbox 0 (MailboxIDFromPub [1] ex_pub) ex_secret NewMemStore))]"

definition ex_resolve_body :: bytes where "ex_resolve_body = projr (MarshalResolve framing ex_pub)"

definition ex_resolve :: http_request where "ex_resolve = post_request RouteResolve ex_resolve_body"

lemma ex_resolve_marshal: "MarshalResolve framing ex_pub = Inr ex_resolve_body"
proof -
  obtain body where "MarshalResolve framing ex_pub = Inr body"
    using marshal_framing by (fastforce simp: MarshalResolve_def check_Resolve_def)
  then show ?thesis by (simp add: ex_resolve_body_def)
qed

lemma ex_resolve_decodes: "UnmarshalResolve framing ex_resolve_body = Inr ex_pub"
  using ex_resolve_marshal by (rule framing_laws.resolve_rt)

lemma ex_resolve_read: "readBody ex_resolve 128 = Inr ex_resolve_body"
  using ex_resolve_marshal ex_resolve_decodes framing_laws.read_posted
  by (fastforce simp: MarshalResolve_def marshal_Inr UnmarshalResolve_def ex_resolve_def)

lemma ex_registered_home:
  "findShard (Owner (MailboxIDFromPub [1] ex_pub) (shardURLs ex_registered)) ex_registered = Some 0"
  "MailboxExists 100000 (MailboxIDFromPub [1] ex_pub) (store_at 0 ex_registered)"
  by (simp_all add: ex_registered_def NewRouter_def shardURLs_def findShard_def Owner_def Let_def store_at_def
        CreateMailbox_opens(2) i64_def)

lemma ex_resolve_accepted:
  "\<exists>resp h'. router_handleResolve ex_config ex_router_env ex_resolve ex_registered = (Inr resp, h')"
proof -
  have urls: "Owner (MailboxIDFromPub [1] ex_pub) [''https://a''] = ''https://a''"
    by (simp add: Owner_def Let_def)
  have "\<exists>body. MarshalResolveResponse framing \<lparr>rv_MailboxID = MailboxIDFromPub [1] ex_pub,
      rv_ShardURL = ''https://a'', rv_Era = 0, rv_TableVersion = 1\<rparr> = Inr body"
    by (simp add: MarshalResolveResponse_def check_ResolveResponse_def marshal_framing)
  then show ?thesis
    using urls ex_resolve_read ex_resolve_decodes ex_registered_home(2)
    by (fastforce simp: router_handleResolve_def Let_def hbind_Inr hon_Inr post_only_def allowRL_def allow_window_def
          ex_config_def ex_registered_def NewRouter_def ex_router_env_def ex_resolve_def post_request_def
          shardURLs_def findShard_def store_at_def maxRes_def probe_order_def)
qed

section \<open>A message the client builds\<close>

definition ex_client_message :: SendMessage where
  "ex_client_message = client_message ex_pub (\<lambda>m. ex_sig) ex_nonce 100000 ex_id [7, 8]"

lemma ex_client_sent: "\<exists>n s'. SendMessage 100000 ex_nonce ex_client_message ex_mailbox = (Inr (ex_nonce, n), s')"
proof -
  have "ValidateSendMessage ex_client_message = None"
    by (simp add: ValidateSendMessage_def ex_client_message_def client_message_def)
  then show ?thesis
    by (simp add: SendMessage_def Let_def getMailboxLocked_def prune_filter ex_mailbox_state)
       (simp add: ex_client_message_def client_message_def getMailboxLocked_def ex_mailbox_state prune_filter Let_def)
qed

end
