(* ===== verification/Wire_Properties.thy ===== *)
theory Wire_Properties
  imports Server_Examples
begin







text \<open>C32. Message schemas round-trip: whatever a message marshaller accepts, the matching
  unmarshaller gives back unchanged (schemas 57 to 62, batches of received messages included).\<close>

theorem message_roundtrips:
  assumes "nanopack_codec np"
  shows "(MarshalSendMessage np m = Inr b1 \<longrightarrow> UnmarshalSendMessage np b1 = Inr m)
    \<and> (MarshalSendMessageResponse np a q i = Inr b2 \<longrightarrow>
         UnmarshalSendMessageResponse np b2 = Inr \<lparr>smr_Accepted = a, smr_Queued = q, smr_MsgID = i\<rparr>)
    \<and> (MarshalReceiveMessages np r = Inr b3 \<longrightarrow> UnmarshalReceiveMessages np b3 = Inr r)
    \<and> (MarshalReceiveMessagesResponse np msgs consumed = Inr b4 \<longrightarrow>
         UnmarshalReceiveMessagesResponse np b4 = Inr \<lparr>rmr_Messages = msgs, rmr_Consumed = consumed\<rparr>)
    \<and> (MarshalMessageAck np k = Inr b5 \<longrightarrow> UnmarshalMessageAck np b5 = Inr k)
    \<and> (MarshalMessageAckResponse np x y = Inr b6 \<longrightarrow>
         UnmarshalMessageAckResponse np b6 = Inr \<lparr>ar_Acked = x, ar_Remaining = y\<rparr>)"
  using nanopack_codec.send_message_rt [OF assms] nanopack_codec.send_message_response_rt [OF assms]
    nanopack_codec.receive_messages_rt [OF assms] nanopack_codec.receive_messages_response_rt [OF assms]
    nanopack_codec.message_ack_rt [OF assms] nanopack_codec.message_ack_response_rt [OF assms]
  by simp

theorem message_roundtrips_witness:
  "\<exists>body. MarshalSendMessage framing ex_message = Inr body \<and> UnmarshalSendMessage framing body = Inr ex_message"
proof -
  obtain body where "MarshalSendMessage framing ex_message = Inr body"
    unfolding MarshalSendMessage_def ex_message_valid using marshal_framing by fastforce
  with message_roundtrips [OF framing_codec, THEN conjunct1] show ?thesis by blast
qed

text \<open>C33. Transfer schemas round-trip (63 to 73). The two that carry a resume state do so when
  bitmap and ranges leave room for the other fields below the decoder's limit; the two that may carry a
  ticket when it is absent or 32 bytes long.\<close>

theorem transfer_roundtrips:
  assumes "nanopack_codec np"
  shows "(MarshalTransferCreate np c = Inr b1 \<longrightarrow> UnmarshalTransferCreate np b1 = Inr c)
    \<and> (MarshalTransferCreateResponse np cr = Inr b2 \<longrightarrow> UnmarshalTransferCreateResponse np b2 = Inr cr)
    \<and> (MarshalChunkUpload np u = Inr b3 \<longrightarrow> UnmarshalChunkUpload np b3 = Inr u)
    \<and> (MarshalChunkAck np a = Inr b4 \<and> length (ca_MissingRanges a) + length (ca_Bitmap a) \<le> 8000 \<longrightarrow>
         UnmarshalChunkAck np b4 = Inr a)
    \<and> (MarshalChunkDownload np d = Inr b5 \<and> length (cd_Ticket d) \<in> {0, 32} \<longrightarrow>
         UnmarshalChunkDownload np b5 = Inr d)
    \<and> (MarshalChunkDownloadResponse np dr = Inr b6 \<longrightarrow> UnmarshalChunkDownloadResponse np b6 = Inr dr)
    \<and> (MarshalResumeRequest np q = Inr b7 \<and> length (rq_Ticket q) \<in> {0, 32} \<longrightarrow>
         UnmarshalResumeRequest np b7 = Inr q)
    \<and> (MarshalResumeResponse np p = Inr b8 \<and> length (rp_MissingRanges p) + length (rp_Bitmap p) \<le> 8000 \<longrightarrow>
         UnmarshalResumeResponse np b8 = Inr p)
    \<and> (MarshalTransferComplete np f = Inr b9 \<longrightarrow> UnmarshalTransferComplete np b9 = Inr f)
    \<and> (MarshalTransferCompleteResponse np fr = Inr b10 \<longrightarrow> UnmarshalTransferCompleteResponse np b10 = Inr fr)
    \<and> (MarshalTransferCancel np x = Inr b11 \<longrightarrow> UnmarshalTransferCancel np b11 = Inr x)"
  using assms
  by (intro conjI impI)
     (auto intro: nanopack_codec.transfer_create_rt nanopack_codec.transfer_create_response_rt
       nanopack_codec.chunk_upload_rt nanopack_codec.chunk_ack_rt nanopack_codec.chunk_download_rt
       nanopack_codec.chunk_download_response_rt nanopack_codec.resume_request_rt
       nanopack_codec.resume_response_rt nanopack_codec.transfer_complete_rt
       nanopack_codec.transfer_complete_response_rt nanopack_codec.transfer_cancel_rt)

theorem transfer_roundtrips_witness:
  "\<exists>body. MarshalTransferCreate framing ex_create = Inr body \<and> UnmarshalTransferCreate framing body = Inr ex_create"
proof -
  obtain body where "MarshalTransferCreate framing ex_create = Inr body"
    unfolding MarshalTransferCreate_def ex_create_valid using marshal_framing by fastforce
  with transfer_roundtrips [OF framing_codec, THEN conjunct1] show ?thesis by blast
qed

text \<open>C34. Control and error schemas round-trip (50 to 56), for shard URLs and error details that
  fit the decoders' limits.\<close>

theorem control_roundtrips:
  assumes "nanopack_codec np"
  shows "(MarshalHello np h = Inr b1 \<longrightarrow> UnmarshalHello np b1 = Inr h)
    \<and> (MarshalError np e = Inr b2 \<and> Code e \<noteq> 0 \<and> length (Detail e) \<le> 4000 \<longrightarrow> UnmarshalError np b2 = Inr e)
    \<and> (MarshalRegister np g = Inr b3 \<longrightarrow> UnmarshalRegister np b3 = Inr g)
    \<and> (MarshalRegisterResponse np gr = Inr b4 \<and> length (rr_ShardURL gr) \<le> 900 \<longrightarrow>
         UnmarshalRegisterResponse np b4 = Inr gr)
    \<and> (MarshalResolve np pub = Inr b5 \<longrightarrow> UnmarshalResolve np b5 = Inr pub)
    \<and> (MarshalResolveResponse np v = Inr b6 \<and> length (rv_ShardURL v) \<le> 900 \<longrightarrow>
         UnmarshalResolveResponse np b6 = Inr v)
    \<and> (MarshalRoutingTable np t = Inr b7 \<and> shard_list_ok (rt_Shards t)
         \<and> length (encodeShardList (rt_Shards t)) \<le> 8000 \<longrightarrow> UnmarshalRoutingTable np b7 = Inr t)"
  using assms
  by (intro conjI impI)
     (auto intro: nanopack_codec.hello_rt nanopack_codec.error_rt nanopack_codec.register_rt
       nanopack_codec.register_response_rt nanopack_codec.resolve_rt nanopack_codec.resolve_response_rt
       nanopack_codec.routing_table_rt)

theorem control_roundtrips_witness:
  "\<exists>body. MarshalHello framing \<lparr>he_Major = 1, he_Minor = 1, he_NowMS = 5\<rparr> = Inr body
     \<and> UnmarshalHello framing body = Inr \<lparr>he_Major = 1, he_Minor = 1, he_NowMS = 5\<rparr>"
proof -
  obtain body where "MarshalHello framing \<lparr>he_Major = 1, he_Minor = 1, he_NowMS = 5\<rparr> = Inr body"
    unfolding MarshalHello_def using framing_laws.np_total by fastforce
  with control_roundtrips [OF framing_codec, THEN conjunct1] show ?thesis by blast
qed

text \<open>C37. A chunk acknowledgement with as many missing ranges as the encoder and the store allow
  cannot be read: it marshals, and every unmarshalling of the result is refused as too large.\<close>

theorem full_ack_unreadable:
  assumes "nanopack_codec np" "MarshalChunkAck np a = Inr body"
    and "length (ca_MissingRanges a) = 8 * MaxMissingRanges"
  shows "\<exists>e. UnmarshalChunkAck np body = Inl (ProtoErr e) \<and> Code e = ErrPayloadTooLarge"
  using nanopack_codec.chunk_ack_full_rejected [OF assms] .

definition ex_full_ack :: ChunkAck where
  "ex_full_ack = \<lparr>ca_TransferID = ex_id, ca_HighestContiguous = 0, ca_MissingRanges = replicate 8192 0,
     ca_Bitmap = [], ca_Encoding = 1\<rparr>"

theorem full_ack_unreadable_witness:
  "\<exists>body e. MarshalChunkAck framing ex_full_ack = Inr body
     \<and> UnmarshalChunkAck framing body = Inl (ProtoErr e) \<and> Code e = ErrPayloadTooLarge"
proof -
  have "\<exists>body. MarshalChunkAck framing ex_full_ack = Inr body"
    by (simp add: MarshalChunkAck_def ex_full_ack_def marshal_framing)
  then show ?thesis
    using full_ack_unreadable [OF framing_codec, of ex_full_ack] by (auto simp: ex_full_ack_def)
qed

text \<open>C30. The texts that are signed are unambiguous: for requests of the shapes the Go signatures
  fix, two canonical texts are equal only for the same kind of request with the same fields, up to the
  SHA-256 hash where the text holds one. A signature never carries over to another kind of request.\<close>

theorem canonical_unambiguous:
  assumes "signed_shape r" "signed_shape r'"
  shows "canonical r = canonical r' \<longleftrightarrow> same_signed r r'"
  using assms by (rule canonical_inject)

theorem canonical_unambiguous_witness:
  "canonical (Signed_register ex_pub 1 ex_nonce) \<noteq> canonical (Signed_register ex_pub 2 ex_nonce)"
  using canonical_unambiguous [of "Signed_register ex_pub 1 ex_nonce" "Signed_register ex_pub 2 ex_nonce"]
  by simp

text \<open>C31. Which timestamps the clock check accepts, for a clock at least the skew away from the ends
  of \<open>int64\<close>: those within 30 seconds, and one more, exactly \<open>2^63\<close> milliseconds ahead, whose distance
  stays negative when it is negated.\<close>

theorem skew_window:
  assumes "MaxClockSkewMillis \<le> now" "now < 2 ^ 63 - MaxClockSkewMillis"
  shows "CheckSkew ts now = None \<longleftrightarrow>
           \<bar>now - int (unat ts)\<bar> \<le> MaxClockSkewMillis \<or> int (unat ts) = now + 2 ^ 63"
  using assms by (rule CheckSkew_window)

theorem skew_window_witness:
  "CheckSkew 100000 110000 = None \<and> CheckSkew 9223372036854885808 110000 = None"
  using skew_window [of 110000 100000] skew_window [of 110000 9223372036854885808] by simp

lemma chunks_sizes:
  assumes "0 < n" "i < length (chunks n xs)"
  shows "0 < length (chunks n xs ! i)" "length (chunks n xs ! i) \<le> n"
    "Suc i < length (chunks n xs) \<Longrightarrow> length (chunks n xs ! i) = n"
proof -
  have below: "k * n < length xs" if "k < length (chunks n xs)" for k
  proof -
    have "Suc k \<le> (length xs + n - 1) div n" using that assms(1) by (simp add: length_chunks)
    then have "Suc k * n \<le> length xs + n - 1" using assms(1) by (simp add: less_eq_div_iff_mult_less_eq)
    then show ?thesis using assms(1) by simp
  qed
  have len: "length (chunks n xs ! i) = min (length xs - i * n) n"
    using assms by (simp add: nth_chunks)
  show "0 < length (chunks n xs ! i)" "length (chunks n xs ! i) \<le> n"
    using len below [OF assms(2)] assms(1) by simp_all
  show "length (chunks n xs ! i) = n" if "Suc i < length (chunks n xs)"
    using len below [OF that] by simp
qed

text \<open>A file of legal size splits into pieces that are all of the chunk size but the last, which
  is not empty, and that join to the file; sizes out of range are refused.\<close>

theorem split_opaque:
  "case SplitOpaque data chunkSize of
     Inl e \<Rightarrow> chunkSize \<le> 0 \<or> chunkSize > int MaxChunkBytes \<or> length data > MaxFileBytes
   | Inr pieces \<Rightarrow> concat pieces = data
       \<and> (\<forall>i < length pieces. 0 < length (pieces ! i) \<and> length (pieces ! i) \<le> nat chunkSize
            \<and> (Suc i < length pieces \<longrightarrow> length (pieces ! i) = nat chunkSize))"
proof (cases "SplitOpaque data chunkSize")
  case (Inl e)
  then show ?thesis by (auto simp: SplitOpaque_def split: if_splits)
next
  case (Inr pieces)
  then show ?thesis
    using SplitOpaque_Inr [OF Inr] chunks_sizes [of "nat chunkSize" _ data] by simp
qed

theorem split_opaque_witness: "SplitOpaque [1, 2, 3] 2 = Inr [[1, 2], [3]] \<and> concat [[1, 2], [3]] = [1, 2, 3 :: byte]"
proof -
  have "SplitOpaque [1, 2, 3] 2 = Inr [[1, 2], [3]]" by (simp add: SplitOpaque_def split_loop.simps)
  then show ?thesis using split_opaque [where data = "[1, 2, 3]" and chunkSize = 2] by simp
qed

end
