(* ===== verification/Server_Properties.thy ===== *)
theory Server_Properties
  imports Server_Examples
begin

text \<open>The properties of the shard, the router and the client against them.\<close>

section \<open>The shard\<close>



text \<open>C7. Only its sender seals a transfer. If serving a request turns an open transfer into a
  complete one, the request was for the completion route and carries, within the clock window, a
  signature that verifies under the public key the transfer was created with, over this transfer's id.\<close>

theorem seal_needs_sender:
  assumes "sv_store sv = mem_store"
    and "transfer_of (h_store h) tid = Some t" "td_state t \<noteq> TransferComplete"
    and "transfer_of (h_store (snd (ServeHTTP sv ev r h))) tid = Some t'" "td_state t' = TransferComplete"
  shows "hr_Path r = RouteComplete \<and> (\<exists>raw req.
    readBody r 512 = Inr raw \<and> UnmarshalTransferComplete (sv_np sv) raw = Inr req
    \<and> copy_array 16 (tf_TransferID req) = tid \<and> tf_SenderPub req = td_senderPub t
    \<and> VerifyXferComplete (sv_verify sv) (td_senderPub t) tid (copy_array 32 (tf_ManifestHash req))
        (tf_Timestamp req) (tf_Nonce req) (tf_Signature req) (ev_now ev) = None)"
  using assms by (rule sealed_by_sender)

theorem seal_needs_sender_witness:
  "hr_Path ex_complete = RouteComplete
   \<and> (\<exists>raw req. readBody ex_complete 512 = Inr raw \<and> UnmarshalTransferComplete framing raw = Inr req
        \<and> tf_SenderPub req = ex_pub)"
proof -
  obtain t' where
    "transfer_of (h_store (snd (ServeHTTP ex_server (ex_env 100000) ex_complete (NewHandler ex_full)))) ex_id = Some t'"
    "td_state t' = TransferComplete"
    using ex_complete_seals by blast
  moreover have "transfer_of (h_store (NewHandler ex_full)) ex_id = Some ex_one"
    by (simp add: NewHandler_def ex_full_def)
  ultimately show ?thesis
    using seal_needs_sender [of ex_server "NewHandler ex_full" ex_id ex_one "ex_env 100000" ex_complete t']
    by (auto simp: ex_one_def ex_transfer_def)
qed

interpretation shard: invariant_machine "NewHandler NewMemStore"
  "\<lambda>(ev, r) h. snd (ServeHTTP \<lparr>sv_store = mem_store, sv_limits = lim, sv_np = np, sv_verify = verify\<rparr> ev r h)"
  "\<lambda>h. store_ok (h_store h)" for lim np verify
  by unfold_locales (auto simp: NewHandler_def NewMemStore_ok intro: mem.request_inv)

text \<open>Every sequence of requests, well-formed or not, leaves the shard's store consistent.\<close>

theorem shard_requests_keep_store:
  assumes "reachable (\<lambda>(ev, r) h. snd (ServeHTTP \<lparr>sv_store = mem_store, sv_limits = lim, sv_np = np,
      sv_verify = verify\<rparr> ev r h)) (NewHandler NewMemStore) h"
  shows "store_ok (h_store h)"
  using assms by (rule shard.reachable_inv)

theorem shard_requests_keep_store_witness:
  "store_ok (h_store (snd (ServeHTTP \<lparr>sv_store = mem_store, sv_limits = DefaultRateLimits, sv_np = framing,
      sv_verify = ex_verify\<rparr> (ex_env 100000) ex_send (NewHandler NewMemStore))))"
  using shard_requests_keep_store [OF reach_step [OF reach_init, of _ _ "(ex_env 100000, ex_send)"]] by simp

text \<open>C20. What an accepted send has passed and done: the body decoded to a message whose signature
  verifies over its canonical text, within the clock window, with a nonce not seen in the replay
  window; the message is now the last of its mailbox's queue; and the response decodes to the id the
  store gave it and the length of the queue.\<close>

theorem send_authentic:
  assumes "nanopack_codec (sv_np sv)" "sv_store sv = mem_store"
    and "handleSend sv ev r h = (Inr (schema, body), h')"
  shows "\<exists>raw msg. readBody r MaxRequestBytes = Inr raw \<and> UnmarshalSendMessage (sv_np sv) raw = Inr msg
    \<and> sv_verify sv (sm_SenderPub msg) (CanonicalMsgSend (sm_SenderPub msg) (sm_MailboxID msg)
        (sm_Timestamp msg) (sm_Nonce msg) (sm_Envelope msg)) (sm_Signature msg)
    \<and> CheckSkew (sm_Timestamp msg) (ev_now ev) = None
    \<and> \<not> fst (CheckAndMarkReplay (ev_first ev)
              (replayKey replayDomainMsg (sm_SenderPub msg) (sm_Nonce msg)) (h_store h))
    \<and> last (queue (h_store h') (sm_MailboxID msg)) = stored (ev_second ev) (ev_id ev) msg
    \<and> UnmarshalSendMessageResponse (sv_np sv) body = Inr \<lparr>smr_Accepted = 1,
         smr_Queued = word_of_nat (length (queue (h_store h') (sm_MailboxID msg))), smr_MsgID = ev_id ev\<rparr>"
proof -
  obtain raw msg i n s1 where m: "readBody r MaxRequestBytes = Inr raw"
    "UnmarshalSendMessage (sv_np sv) raw = Inr msg"
    "VerifyMsgSend (sv_verify sv) (sm_SenderPub msg) (sm_MailboxID msg) (sm_Timestamp msg)
       (sm_Nonce msg) (sm_Envelope msg) (sm_Signature msg) (ev_now ev) = None"
    "CheckAndMarkReplay (ev_first ev)
       (replayKey replayDomainMsg (sm_SenderPub msg) (sm_Nonce msg)) (h_store h) = (False, s1)"
    "SendMessage (ev_second ev) (ev_id ev) msg s1 = (Inr (i, n), h_store h')"
    "MarshalSendMessageResponse (sv_np sv) 1 n i = Inr body"
    using assms(3) by (rule handleSend_Inr) (use assms(2) in auto)
  have "sv_verify sv (sm_SenderPub msg) (CanonicalMsgSend (sm_SenderPub msg) (sm_MailboxID msg)
      (sm_Timestamp msg) (sm_Nonce msg) (sm_Envelope msg)) (sm_Signature msg)"
    "CheckSkew (sm_Timestamp msg) (ev_now ev) = None"
    using m(3) by (auto simp: VerifyMsgSend_skew split: if_splits)
  then show ?thesis
    using m SendMessage_Inr(2,4,5) [OF m(5)] nanopack_codec.send_message_response_rt [OF assms(1) m(6)]
    by auto
qed

theorem send_authentic_witness:
  "\<exists>schema body h'. handleSend ex_server (ex_env 100000) ex_send (NewHandler ex_mailbox) = (Inr (schema, body), h')
     \<and> last (queue (h_store h') ex_id) = stored 100000 ex_nonce ex_message"
proof -
  obtain schema body h'
    where acc: "handleSend ex_server (ex_env 100000) ex_send (NewHandler ex_mailbox) = (Inr (schema, body), h')"
    using ex_send_accepted by blast
  then show ?thesis
    using send_authentic [OF _ _ acc] framing_codec ex_send_read ex_send_decodes
    by (auto simp: ex_message_def)
qed

text \<open>C21. A send that does not authenticate has no effect: when the body decodes to a message whose
  signature or timestamp is refused, the state of the shard, replay cache and rate limiter included, is
  unchanged, and the response is not a success.\<close>

theorem unauthenticated_send_inert:
  assumes "hr_Path r = RouteSend" "readBody r MaxRequestBytes = Inr raw"
    and "UnmarshalSendMessage (sv_np sv) raw = Inr msg"
    and "VerifyMsgSend (sv_verify sv) (sm_SenderPub msg) (sm_MailboxID msg) (sm_Timestamp msg)
       (sm_Nonce msg) (sm_Envelope msg) (sm_Signature msg) (ev_now ev) \<noteq> None"
  shows "\<exists>resp. ServeHTTP sv ev r h = (Some resp, h) \<and> rs_Status resp \<noteq> 200"
  using assms by (intro send_unverified) simp_all

theorem unauthenticated_send_inert_witness:
  "\<exists>resp. ServeHTTP (ex_server\<lparr>sv_verify := \<lambda>pub m sig. False\<rparr>) (ex_env 100000) ex_send (NewHandler ex_mailbox)
     = (Some resp, NewHandler ex_mailbox) \<and> rs_Status resp \<noteq> 200"
  by (rule unauthenticated_send_inert [of ex_send ex_send_body _ ex_message])
     (use ex_send_read ex_send_decodes in
       \<open>simp_all add: ex_send_def post_request_def VerifyMsgSend_skew ex_message_def\<close>)

text \<open>C19. What a client reads from an accepted receive request: the mailbox was alive and the secret
  right, and the response decodes to the oldest unexpired messages of the mailbox, ids and envelopes in
  order, with the consumed flag telling whether they were removed from the queue.\<close>

theorem receive_response:
  assumes "nanopack_codec (sv_np sv)" "sv_store sv = mem_store"
    and "handleReceive sv ev r h = (Inr (schema, body), h')"
  shows "\<exists>raw req n. readBody r 256 = Inr raw \<and> UnmarshalReceiveMessages (sv_np sv) raw = Inr req
    \<and> CheckReadSecret (rcv_MailboxID req) (rcv_ReadSecret req) (h_store h)
    \<and> MailboxExists (ev_first ev) (rcv_MailboxID req) (h_store h)
    \<and> 0 < n \<and> n \<le> MaxBatchMessages
    \<and> UnmarshalReceiveMessagesResponse (sv_np sv) body = Inr
        \<lparr>rmr_Messages = map (\<lambda>m. \<lparr>rm_MsgID = msg_ID m, rm_Envelope = msg_Envelope m\<rparr>)
           (take n (unexpired (ev_first ev) (h_store h) (rcv_MailboxID req))),
         rmr_Consumed = (rcv_Peek req \<noteq> 1)\<rparr>
    \<and> queue (h_store h') (rcv_MailboxID req) =
        drop (if rcv_Peek req = 1 then 0 else n) (unexpired (ev_first ev) (h_store h) (rcv_MailboxID req))"
  using assms by (rule receive_over_http)

theorem receive_response_witness:
  "\<exists>schema body h'. handleReceive ex_server (ex_env 100000) ex_receive (NewHandler ex_mailbox) = (Inr (schema, body), h')
     \<and> UnmarshalReceiveMessagesResponse framing body = Inr \<lparr>rmr_Messages = [], rmr_Consumed = True\<rparr>"
proof -
  obtain schema body h'
    where acc: "handleReceive ex_server (ex_env 100000) ex_receive (NewHandler ex_mailbox) = (Inr (schema, body), h')"
    using ex_receive_accepted by blast
  have "unexpired 100000 ex_mailbox ex_id = []" by (simp add: unexpired_def queue_def ex_mailbox_state)
  then show ?thesis
    using receive_response [OF _ _ acc] framing_codec ex_receive_read ex_receive_decodes acc
    by (auto simp: NewHandler_def ex_receive_req_def)
qed

text \<open>C36. The rate limiter lets through exactly its maximum per window: of the calls for one key from
  the one that opens a window to its reset a minute later, the first \<open>max\<close> pass and no other.\<close>

theorem limiter_window:
  assumes "0 < mx" "case window_of b key of None \<Rightarrow> True | Some (c, r) \<Rightarrow> t0 \<ge> r"
    and "\<forall>now \<in> set nows. now < i64 (t0 + 60000)"
  shows "count_allowed (\<lambda>k now. allow k now mx) key (t0 # nows) b = min (Suc (length nows)) (nat mx)"
proof -
  have "(\<lambda>k now. allow k now mx) = (\<lambda>k now. allow_window k now mx)"
    using assms(1) by (auto simp: allow_def fun_eq_iff)
  then show ?thesis using allow_window_per_window [OF assms] by simp
qed

theorem limiter_window_witness:
  "count_allowed (\<lambda>k now. allow k now 2) ''put-ip:x'' [0, 1, 2, 3] [] = 2"
  using limiter_window [where mx = 2 and b = "[]" and key = "''put-ip:x''" and ?t0.0 = 0 and nows = "[1, 2, 3]"] by (simp add: window_of_def i64_def)

text \<open>An error response is never a success and tells the client the error: it has a status other
  than 200, and for an error with a code and a detail of moderate length its body decodes to that error,
  with the retry delay of a rate limit filled in.\<close>

theorem error_response_decodes:
  assumes "total_codec np" "Code pe \<noteq> 0" "length (Detail pe) \<le> 4000"
  shows "rs_Status (shard_writeError np pe) \<noteq> 200
    \<and> UnmarshalError np (rs_Body (shard_writeError np pe)) = Inr
        (if Code pe = ErrRateLimited \<and> RetryAfter pe = 0 then pe\<lparr>RetryAfter := 60\<rparr> else pe)"
proof -
  define pe' where "pe' = (if Code pe = ErrRateLimited \<and> RetryAfter pe = 0 then pe\<lparr>RetryAfter := 60\<rparr> else pe)"
  obtain body where body: "MarshalError np pe' = Inr body"
    using total_codec.np_total [OF assms(1)] by (fastforce simp: MarshalError_def)
  have "UnmarshalError np body = Inr pe'"
    using nanopack_codec.error_rt [OF total_codec.axioms(1) [OF assms(1)] body] assms(2,3) by (simp add: pe'_def)
  then show ?thesis
    using body by (simp add: shard_writeError_def Let_def error_response_def error_body_def pe'_def)
qed

theorem error_response_decodes_witness:
  "UnmarshalError framing (rs_Body (shard_writeError framing (mk_error ErrMailboxNotFound ''mailbox not found'')))
     = Inr (mk_error ErrMailboxNotFound ''mailbox not found'')"
  using error_response_decodes [OF framing_laws.total_codec_axioms, of "mk_error ErrMailboxNotFound ''mailbox not found''"]
  by simp

text \<open>C39. The legacy wrapper inverts its flag: a successful \<open>Server.Receive\<close> asked to peek removes the
  messages it returns, and one asked to drain keeps them.\<close>

theorem legacy_receive_inverted:
  assumes "length mid = 16" "Server_Receive now mid secret limit peek s = (Inr out, s')"
  shows "out = map msg_Envelope (take (batch_limit limit) (unexpired now s mid))
    \<and> queue s' mid = (if peek then drop (batch_limit limit) (unexpired now s mid) else unexpired now s mid)"
proof -
  obtain msgs c where "ReceiveMessages now mid secret limit (\<not> peek) s = (Inr (msgs, c), s')"
    "out = map msg_Envelope msgs"
    using assms by (cases "ReceiveMessages now mid secret limit (\<not> peek) s")
      (auto simp: Server_Receive_def map_sum_def split: sum.splits)
  then show ?thesis using ReceiveMessages_Inr [of now mid secret limit "\<not> peek" s msgs c s'] by simp
qed

theorem legacy_receive_inverted_witness:
  "\<exists>s'. Server_Receive 5 ex_id ex_secret 1 True (snd (SendMessage 1 ex_nonce ex_message ex_mailbox)) = (Inr [[7, 8]], s')
     \<and> queue s' ex_id = []"
proof -
  let ?s = "snd (SendMessage 1 ex_nonce ex_message ex_mailbox)"
  have live: "unexpired 5 ?s ex_id = [stored 1 ex_nonce ex_message]"
    by (simp add: unexpired_def queue_def ex_sent stored_def i64_def)
  have "MailboxExists 5 ex_id ?s \<and> CheckReadSecret ex_id ex_secret ?s"
    by (simp add: MailboxExists_def CheckReadSecret_def ex_sent hashSecret_def)
  then obtain res s' where "ReceiveMessages 5 ex_id ex_secret 1 False ?s = (Inr res, s')"
    using ReceiveMessages_auth by blast
  then obtain out where acc: "Server_Receive 5 ex_id ex_secret 1 True ?s = (Inr out, s')"
    by (simp add: Server_Receive_def)
  show ?thesis
    using legacy_receive_inverted [OF _ acc] acc live
    by (simp add: stored_def ex_message_def batch_limit_def)
qed

section \<open>The router and the client\<close>



text \<open>C18. Resolving agrees with registration: while the shard a client's mailbox id maps to holds the
  mailbox, an accepted resolve request for the client's key is answered with that mailbox id and that
  shard's URL, whatever the other shards hold.\<close>

theorem resolution:
  assumes "nanopack_codec (cfg_np cfg)" "\<forall>u \<in> set (shardURLs h). length u \<le> 900"
    and "router_handleResolve cfg ev r h = (Inr resp, h')"
    and "readBody r 128 = Inr raw" "UnmarshalResolve (cfg_np cfg) raw = Inr pub"
    and "findShard (Owner (MailboxIDFromPub (cfg_Secret cfg) pub) (shardURLs h)) h = Some ref"
      "st_MailboxExists (cfg_store cfg) (re_probe ev ref) (MailboxIDFromPub (cfg_Secret cfg) pub)
         (store_at ref h)"
  shows "\<exists>rv. UnmarshalResolveResponse (cfg_np cfg) (rs_Body resp) = Inr rv
    \<and> rv_MailboxID rv = MailboxIDFromPub (cfg_Secret cfg) pub
    \<and> rv_ShardURL rv = Owner (rv_MailboxID rv) (shardURLs h)"
  using assms by (rule resolve_finds)

theorem resolution_witness:
  "\<exists>resp h' rv. router_handleResolve ex_config ex_router_env ex_resolve ex_registered = (Inr resp, h')
     \<and> UnmarshalResolveResponse framing (rs_Body resp) = Inr rv \<and> rv_MailboxID rv = MailboxIDFromPub [1] ex_pub"
proof -
  obtain resp h' where acc: "router_handleResolve ex_config ex_router_env ex_resolve ex_registered = (Inr resp, h')"
    using ex_resolve_accepted by blast
  show ?thesis
    using resolution [OF _ _ acc ex_resolve_read _ ex_registered_home(1) [folded ex_config_secret]]
      framing_codec ex_resolve_decodes ex_registered_home(2) acc
    by (auto simp: ex_config_def ex_router_env_def ex_registered_def NewRouter_def shardURLs_def)
qed



text \<open>A registration nonce works once per window: after a key and nonce passed the router's replay
  check at \<open>t0\<close>, every check of the same pair before the window ends is a replay, whatever other pairs
  were checked in between.\<close>

theorem register_replay:
  assumes "distinct (map fst m)" "\<not> fst (checkReplay pub nonce t0 m)"
    and "\<forall>(now, k) \<in> set evs. now < i64 (t0 + ReplayWindowSeconds * 1000)"
    and "t1 < i64 (t0 + ReplayWindowSeconds * 1000)"
  shows "fst (checkReplay pub nonce t1 (mark_all mark_key evs (snd (checkReplay pub nonce t0 m))))"
  using router_replay.single_use [of m t0 "replay_key pub nonce" evs t1] assms by (simp add: checkReplay_def)

theorem register_replay_witness:
  "fst (checkReplay ex_pub ex_nonce 80000 (mark_all mark_key [(5, ex_id)] (snd (checkReplay ex_pub ex_nonce 0 []))))"
  by (rule register_replay) (simp_all add: checkReplay_def mark_key_def i64_def)



text \<open>C24. The adapter of the client never delivers. Its clock stands at a fixed test value, so a shard
  whose own clock is more than the allowed skew away from that value refuses every message it sends,
  whatever the state of the shard.\<close>

theorem client_clock_stopped:
  assumes "nanopack_codec (sv_np sv)"
    and "MaxClockSkewMillis \<le> ev_now ev" "ev_now ev < 2 ^ 62" "MaxClockSkewMillis < \<bar>ev_now ev - testNow\<bar>"
  shows "\<exists>e. Adapter_SendMessage (sv_np sv) (shard_http sv ev h) url pub sign nonce (nowMillis nowMillisFunc) mid mailboxID
     payload = Inl e"
  using assms by (rule client_never_delivers)

theorem client_clock_stopped_witness:
  "\<exists>e. Adapter_SendMessage framing (shard_http ex_server (ex_env 200000) (NewHandler ex_mailbox)) ''https://a'' ex_pub
     (\<lambda>m. ex_sig) (Some ex_nonce) (nowMillis nowMillisFunc) (Some ex_id) ex_id [7, 8] = Inl e"
  using client_clock_stopped [of ex_server "ex_env 200000"] framing_codec by simp

text \<open>The mailbox id derived from a key is the one derived from its hexadecimal form, and it is
  16 bytes.\<close>

theorem mailbox_id_forms:
  "MailboxID secret (hex_encode pub) = MailboxIDFromPub secret pub \<and> length (MailboxIDFromPub secret pub) = 16"
  by (simp add: MailboxID_hex)

text \<open>\<open>itoa\<close> prints the decimal digits of every 32-bit code, in at most the ten bytes its buffer
  has.\<close>

theorem itoa_prints: "itoa v = decimal (unat v) \<and> length (itoa v) \<le> 10"
proof -
  have "unat v < 2 ^ LENGTH(32)" by (rule unsigned_less)
  then have "unat v < 10 ^ 10" by simp
  then show ?thesis by (simp add: itoa_decimal length_decimal)
qed

text \<open>The URL the client builds has exactly one slash between base and route: trailing slashes of
  the base and a missing leading slash of the route make no difference, and what stands before the route
  does not end in a slash.\<close>

theorem join_url:
  assumes "route = [] \<or> hd route \<noteq> CHR ''/''"
  shows "joinURL (base @ replicate n (CHR ''/'')) route = joinURL base (CHR ''/'' # route)
    \<and> (\<exists>prefix. joinURL base route = prefix @ CHR ''/'' # route
         \<and> (prefix = [] \<or> last prefix \<noteq> CHR ''/''))"
proof -
  have "TrimRight_slash (base @ replicate n (CHR ''/'')) = TrimRight_slash base"
    by (simp add: TrimRight_slash_def dropWhile_append)
  then show ?thesis using assms TrimRight_last [of base] by (auto simp: joinURL_def Let_def)
qed

theorem join_url_witness:
  "joinURL ''https://a//'' ''v1/messages'' = joinURL ''https://a'' ''/v1/messages''"
  using join_url [of "''v1/messages''" "''https://a''" 2] by (simp add: numeral_2_eq_2)

end
