(* ===== verification/Threads.thy ===== *)
theory Threads
  imports Handler_Monad
begin

text \<open>
  Requests that run concurrently. A thread is finished, or it waits to perform its next atomic section on
  the shared state; \<open>atomically\<close> puts a step of a handler in front of a thread. The mutexes of the program
  make every call of the store and of the limiter one such section. A step that touches no shared state
  is a section of its own too, which only allows more interleavings. \<open>run\<close> performs the sections of one
  thread without interruption.
\<close>

datatype ('s, 'e, 'a) thread = Done "'e + 'a" | Act "'s \<Rightarrow> ('s, 'e, 'a) thread \<times> 's"

definition atomically :: "('s, 'e, 'a) step \<Rightarrow> ('a \<Rightarrow> ('s, 'e, 'b) thread) \<Rightarrow> ('s, 'e, 'b) thread" where
  "atomically m k = Act (\<lambda>s. case m s of (Inl e, s') \<Rightarrow> (Done (Inl e), s') | (Inr x, s') \<Rightarrow> (k x, s'))"

primrec run :: "('s, 'e, 'a) thread \<Rightarrow> ('s, 'e, 'a) step" where
  "run (Done r) = (\<lambda>s. (r, s))"
| "run (Act f) = (\<lambda>s. case map_prod run id (f s) of (g, s') \<Rightarrow> g s')"

lemma run_atomically [simp]: "run (atomically m k) = hbind m (\<lambda>x. run (k x))"
  by (rule ext) (simp add: atomically_def hbind_def split: prod.split sum.split)

lemma run_Done [simp]: "run (Done (Inr x)) = hreturn x"
  by (rule ext) (simp add: hreturn_def)

declare run.simps [simp del]

section \<open>What the sections of a thread may do\<close>

primrec acts :: "('s \<Rightarrow> 's \<Rightarrow> bool) \<Rightarrow> ('s, 'e, 'a) thread \<Rightarrow> bool" where
  "acts R (Done r) = True"
| "acts R (Act f) = (\<forall>s. case map_prod (acts R) id (f s) of (rest, s') \<Rightarrow> rest \<and> R s s')"

lemma acts_section: "acts R (Act f) \<Longrightarrow> f s = (t, s') \<Longrightarrow> R s s' \<and> acts R t"
  by (auto dest!: spec [of _ s])

lemma acts_atomically: "moves R m \<Longrightarrow> (\<And>x. acts R (k x)) \<Longrightarrow> acts R (atomically m k)"
  by (auto simp: atomically_def moves_def split: prod.split sum.split) (metis snd_conv)+

lemma acts_if: "acts R t \<Longrightarrow> acts R t' \<Longrightarrow> acts R (if b then t else t')"
  by simp

lemma acts_case_prod: "(\<And>a b. acts R (f a b)) \<Longrightarrow> acts R (case p of (a, b) \<Rightarrow> f a b)"
  by (cases p) simp

lemma acts_Done: "acts R (Done r)"
  by simp

lemma acts_mono: "acts R t \<Longrightarrow> (\<And>s s'. R s s' \<Longrightarrow> R' s s') \<Longrightarrow> acts R' t"
proof (induction t)
  case (Act f)
  have "case map_prod (acts R') id (f s) of (rest, s') \<Rightarrow> rest \<and> R' s s'" for s
  proof -
    obtain t s' where f: "f s = (t, s')" by fastforce
    moreover have "acts R' t"
      using f acts_section [OF Act.prems(1) f] Act.prems(2) by (intro Act.IH [of "f s"]) (simp_all, metis rangeI)
    ultimately show ?thesis using acts_section [OF Act.prems(1) f] Act.prems(2) by simp
  qed
  then show ?case by simp
qed simp

declare acts.simps(2) [simp del]

section \<open>How many sections a thread has\<close>

primrec within :: "('s, 'e, 'a) thread \<Rightarrow> nat \<Rightarrow> bool" where
  "within (Done r) = (\<lambda>n. True)"
| "within (Act f) = (\<lambda>n. 0 < n \<and> (\<forall>s. fst (map_prod within id (f s)) (n - 1)))"

lemma within_atomically: "0 < n \<Longrightarrow> (\<And>x. within (k x) (n - 1)) \<Longrightarrow> within (atomically m k) n"
  by (simp add: atomically_def split: prod.split sum.split)

lemma within_case_prod: "(\<And>a b. within (f a b) n) \<Longrightarrow> within (case p of (a, b) \<Rightarrow> f a b) n"
  by (cases p) simp

lemma within_mono: "within t m \<Longrightarrow> m \<le> n \<Longrightarrow> within t n"
proof (induction t arbitrary: m n)
  case (Act f)
  then show ?case
    by (auto simp: fst_map_prod) (metis Act.IH UNIV_I diff_le_mono fst_conv fsts.intros image_eqI prod.collapse)
qed simp

lemma within_if: "within t n \<Longrightarrow> within t' n \<Longrightarrow> within (if b then t else t') n"
  by simp

lemma within_Done: "within (Done r) n"
  by simp

text \<open>\<open>sections t n t'\<close>: after \<open>n\<close> sections, on whatever states it finds, \<open>t\<close> has become \<open>t'\<close>.\<close>

inductive sections :: "('s, 'e, 'a) thread \<Rightarrow> nat \<Rightarrow> ('s, 'e, 'a) thread \<Rightarrow> bool" for t :: "('s, 'e, 'a) thread" where
  no_section: "sections t 0 t"
| next_section: "sections t n (Act f) \<Longrightarrow> f s = (t', s') \<Longrightarrow> sections t (Suc n) t'"

lemma within_sections: "sections t n t' \<Longrightarrow> within t m \<Longrightarrow> n \<le> m \<and> within t' (m - n)"
proof (induction rule: sections.induct)
  case (next_section n f s t' s')
  then have "within (Act f) (m - n)" "n \<le> m" by simp_all
  then have "0 < m - n" "within t' (m - n - 1)" using next_section(2) by (auto simp: fst_map_prod dest!: spec [of _ s])
  then show ?case by simp
qed simp

lemma within_0: "within t 0 \<Longrightarrow> \<exists>r. t = Done r"
  by (cases t) simp_all

declare within.simps(2) [simp del]

lemma sections_front: "sections t' n t'' \<Longrightarrow> f s = (t', s') \<Longrightarrow> sections (Act f) (Suc n) t''"
  by (induction rule: sections.induct) (auto intro: no_section next_section)

lemma run_sections: "run t s = (r, s') \<Longrightarrow> \<exists>n. sections t n (Done r)"
proof (induction t arbitrary: s)
  case (Done x)
  then show ?case by (auto simp: run.simps intro: no_section)
next
  case (Act f)
  obtain t' s1 where f: "f s = (t', s1)" by fastforce
  have "\<exists>n. sections t' n (Done r)"
    using Act.prems f by (intro Act.IH [of "f s" _ s1]) (simp_all add: run.simps, metis rangeI)
  then show ?case using sections_front [where f = f, OF _ f] by blast
qed

end
