(* ===== verification/Shard_Threads.thy ===== *)
theory Shard_Threads
  imports Shard_Safety Threads
begin

text \<open>
  The shard under concurrent requests. Every handler of \<open>server/shard/handler.go\<close> again, as a thread whose
  atomic sections are its steps; run without interruption it is the handler of theory \<open>Shard\<close>. The step
  relation \<open>serving\<close> interleaves any number of requests, and the calls other parts of the process make to
  the same store.
\<close>

type_synonym 's request_thread = "('s Handler, ProtocolError, u8 \<times> bytes) thread"

section \<open>Handlers as threads\<close>

definition hello_thread ::
  "'s server \<Rightarrow> environment \<Rightarrow> http_request \<Rightarrow> 's request_thread" where
  "hello_thread sv ev r =
     atomically (hrequire (hr_Method r = MethodPost \<or> hr_Method r = MethodGet) method_not_allowed) (\<lambda>_.
     if hr_Method r = MethodGet then Done (Inr (SchemaHello, hello_body (sv_np sv) (ev_now ev)))
     else
       atomically (hproto (readBody r 64)) (\<lambda>raw.
       atomically (hgo (UnmarshalHello (sv_np sv) raw)) (\<lambda>hello.
       Done (Inr (SchemaHello, hello_body (sv_np sv) (ev_now ev))))))"

definition send_thread ::
  "'s server \<Rightarrow> environment \<Rightarrow> http_request \<Rightarrow> 's request_thread" where
  "send_thread sv ev r =
     (let np = sv_np sv; st = sv_store sv; lim = sv_limits sv; now = ev_now ev in
     atomically (post_only r) (\<lambda>_.
     atomically (hproto (readBody r MaxRequestBytes)) (\<lambda>raw.
     atomically (hgo (UnmarshalSendMessage np raw)) (\<lambda>msg.
     atomically (convert (to32 (sm_SenderPub msg)) (mk_error ErrAuthFailed ''bad sender pub'')) (\<lambda>pub.
     atomically (convert (to16 (sm_MailboxID msg)) (mk_error ErrInvalidRequest ''bad mailbox'')) (\<lambda>mid.
     atomically (convert (to16 (sm_Nonce msg)) (mk_error ErrInvalidRequest ''bad nonce'')) (\<lambda>nonce.
     atomically (hcheck (VerifyMsgSend (sv_verify sv) (sm_SenderPub msg) mid (sm_Timestamp msg) nonce
                      (sm_Envelope msg) (sm_Signature msg) now)) (\<lambda>_.
     atomically (fresh st (ev_first ev) (replayKey replayDomainMsg (sm_SenderPub msg) (sm_Nonce msg))) (\<lambda>_.
     atomically (limited (''send-sender:'' @ hex_encode (sm_SenderPub msg)) now (SendsPerSender lim)) (\<lambda>_.
     atomically (limited (''send-target:'' @ hex_encode (sm_MailboxID msg)) now (SendsPerTarget lim)) (\<lambda>_.
     atomically (limited (''send-ip:'' @ clientIP r) now (SendsPerIP lim)) (\<lambda>_.
     atomically (call_store (st_SendMessage st (ev_second ev) (ev_id ev) msg)) (\<lambda>(msgID, queued).
     atomically (hgo (MarshalSendMessageResponse np 1 queued msgID)) (\<lambda>resp.
     Done (Inr (SchemaSendMessageResponse, resp))))))))))))))))"

definition receive_thread ::
  "'s server \<Rightarrow> environment \<Rightarrow> http_request \<Rightarrow> 's request_thread" where
  "receive_thread sv ev r =
     (let np = sv_np sv; st = sv_store sv; lim = sv_limits sv; now = ev_now ev in
     atomically (post_only r) (\<lambda>_.
     atomically (hproto (readBody r 256)) (\<lambda>raw.
     atomically (hgo (UnmarshalReceiveMessages np raw)) (\<lambda>req.
     atomically (limited (''recv-ip:'' @ clientIP r) now (ReceivesPerIP lim)) (\<lambda>_.
     let mid = copy_array 16 (rcv_MailboxID req);
         limit = int (unat (rcv_Limit req));
         limit = (if limit \<le> 0 then int MaxBatchMessages else limit) in
     atomically (call_store (st_ReceiveMessages st (ev_first ev) mid (rcv_ReadSecret req) limit
                          (rcv_Peek req = 1))) (\<lambda>(msgs, consumed).
     atomically (hgo (MarshalReceiveMessagesResponse np
                   (map (\<lambda>m. \<lparr>rm_MsgID = msg_ID m, rm_Envelope = msg_Envelope m\<rparr>) msgs) consumed)) (\<lambda>resp.
     Done (Inr (SchemaReceiveMessagesResponse, resp)))))))))"

definition ack_thread ::
  "'s server \<Rightarrow> environment \<Rightarrow> http_request \<Rightarrow> 's request_thread" where
  "ack_thread sv ev r =
     (let np = sv_np sv; st = sv_store sv in
     atomically (post_only r) (\<lambda>_.
     atomically (hproto (readBody r (MaxBatchMessages * 16 + 256))) (\<lambda>raw.
     atomically (hgo (UnmarshalMessageAck np raw)) (\<lambda>req.
     let mid = copy_array 16 (ack_MailboxID req) in
     atomically (call_store (st_AckMessages st (ev_first ev) mid (ack_ReadSecret req) (ack_MsgIDs req)
                          (ack_Disposition req))) (\<lambda>(acked, remaining).
     atomically (hgo (MarshalMessageAckResponse np acked remaining)) (\<lambda>resp.
     Done (Inr (SchemaMessageAckResponse, resp))))))))"

definition create_thread ::
  "'s server \<Rightarrow> environment \<Rightarrow> http_request \<Rightarrow> 's request_thread" where
  "create_thread sv ev r =
     (let np = sv_np sv; st = sv_store sv; lim = sv_limits sv; now = ev_now ev in
     atomically (post_only r) (\<lambda>_.
     atomically (hproto (readBody r (MaxManifestBytes + 512))) (\<lambda>raw.
     atomically (hgo (UnmarshalTransferCreate np raw)) (\<lambda>req.
     atomically (convert (to32 (tc_SenderPub req)) (mk_error ErrAuthFailed ''bad sender pub'')) (\<lambda>pub.
     atomically (convert (to16 (tc_Nonce req)) (mk_error ErrInvalidRequest ''bad nonce'')) (\<lambda>nonce.
     let mid = (if length (tc_MailboxID req) = 16 then copy_array 16 (tc_MailboxID req)
                else replicate 16 0) in
     atomically (hcheck (VerifyXferCreate (sv_verify sv) (tc_SenderPub req) mid (tc_TotalSize req)
                      (tc_ChunkSize req) (tc_ChunkCount req) (tc_Timestamp req) nonce
                      (tc_Manifest req) (tc_Signature req) now)) (\<lambda>_.
     atomically (fresh st (ev_first ev) (replayKey replayDomainCreate (tc_SenderPub req) (tc_Nonce req))) (\<lambda>_.
     atomically (limited (''create-sender:'' @ hex_encode (tc_SenderPub req)) now (SendsPerSender lim)) (\<lambda>_.
     atomically (limited (''create-ip:'' @ clientIP r) now (SendsPerIP lim)) (\<lambda>_.
     atomically (call_store (st_CreateTransfer st (ev_second ev) (ev_id ev) (ev_ticket ev) req))
       (\<lambda>(tid, ticket, exp).
     atomically (hgo (MarshalTransferCreateResponse np
                   \<lparr>tcr_TransferID = tid, tcr_ExpiresAt = exp, tcr_ChunkSize = tc_ChunkSize req,
                    tcr_DownloadSecret = ticket\<rparr>)) (\<lambda>resp.
     Done (Inr (SchemaTransferCreateResponse, resp))))))))))))))"

definition put_thread ::
  "'s server \<Rightarrow> environment \<Rightarrow> http_request \<Rightarrow> 's request_thread" where
  "put_thread sv ev r =
     (let np = sv_np sv; st = sv_store sv; lim = sv_limits sv; now = ev_now ev in
     atomically (post_only r) (\<lambda>_.
     atomically (hproto (readBody r (MaxChunkBytes + 2048))) (\<lambda>raw.
     atomically (hgo (UnmarshalChunkUpload np raw)) (\<lambda>req.
     let tid = copy_array 16 (cu_TransferID req) in
     atomically (limited (''put-xfer:'' @ hex_encode (cu_TransferID req)) now (PutsPerXfer lim)) (\<lambda>_.
     atomically (limited (''put-ip:'' @ clientIP r) now (PutsPerIP lim)) (\<lambda>_.
     atomically (call_store (st_PutChunk st (ev_first ev) req)) (\<lambda>_.
     atomically (call_store (st_Progress st (ev_second ev) tid)) (\<lambda>(rv, _).
     atomically (hgo (MarshalChunkAck np
                   \<lparr>ca_TransferID = tid, ca_HighestContiguous = rw_HighestContiguous rv,
                    ca_MissingRanges = rw_MissingRanges rv, ca_Bitmap = rw_Bitmap rv,
                    ca_Encoding = rw_Encoding rv\<rparr>)) (\<lambda>resp.
     Done (Inr (SchemaChunkAck, resp)))))))))))"

definition get_thread ::
  "'s server \<Rightarrow> environment \<Rightarrow> http_request \<Rightarrow> 's request_thread" where
  "get_thread sv ev r =
     (let np = sv_np sv; st = sv_store sv in
     atomically (post_only r) (\<lambda>_.
     atomically (hproto (readBody r 256)) (\<lambda>raw.
     atomically (hgo (UnmarshalChunkDownload np raw)) (\<lambda>req.
     let tid = copy_array 16 (cd_TransferID req); mid = copy_array 16 (cd_MailboxID req) in
     atomically (hrequire (cd_Count req = 1) (mk_error ErrInvalidRequest ''count must be 1 in v1'')) (\<lambda>_.
     atomically (if TicketMode (cd_Ticket req)
            then call_store (st_GetChunkByTicket st (ev_first ev) tid (cd_Ticket req) (cd_Index req))
            else call_store (st_GetChunk st (ev_first ev) tid mid (cd_ReadSecret req) (cd_Index req)))
       (\<lambda>(payload, hash).
     atomically (hgo (MarshalChunkDownloadResponse np
                   \<lparr>cdr_TransferID = tid, cdr_Index = cd_Index req, cdr_Payload = payload,
                    cdr_ChunkHash = hash\<rparr>)) (\<lambda>resp.
     Done (Inr (SchemaChunkDownloadResponse, resp)))))))))"

definition resume_thread ::
  "'s server \<Rightarrow> environment \<Rightarrow> http_request \<Rightarrow> 's request_thread" where
  "resume_thread sv ev r =
     (let np = sv_np sv; st = sv_store sv in
     atomically (post_only r) (\<lambda>_.
     atomically (hproto (readBody r 256)) (\<lambda>raw.
     atomically (hgo (UnmarshalResumeRequest np raw)) (\<lambda>req.
     let tid = copy_array 16 (rq_TransferID req); mid = copy_array 16 (rq_MailboxID req) in
     atomically (if TicketMode (rq_Ticket req)
            then call_store (st_ResumeByTicket st (ev_first ev) tid (rq_Ticket req))
            else call_store (st_Resume st (ev_first ev) tid mid (rq_ReadSecret req)))
       (\<lambda>(rv, tv).
     atomically (hgo (MarshalResumeResponse np
                   \<lparr>rp_TransferID = tid, rp_ChunkCount = rw_ChunkCount rv,
                    rp_HighestContiguous = rw_HighestContiguous rv, rp_Encoding = rw_Encoding rv,
                    rp_Bitmap = rw_Bitmap rv, rp_MissingRanges = rw_MissingRanges rv\<rparr>)) (\<lambda>resp.
     Done (Inr (SchemaResumeResponse, resp))))))))"

definition complete_thread ::
  "'s server \<Rightarrow> environment \<Rightarrow> http_request \<Rightarrow> 's request_thread" where
  "complete_thread sv ev r =
     (let np = sv_np sv; st = sv_store sv; now = ev_now ev in
     atomically (post_only r) (\<lambda>_.
     atomically (hproto (readBody r 512)) (\<lambda>raw.
     atomically (hgo (UnmarshalTransferComplete np raw)) (\<lambda>req.
     atomically (convert (to32 (tf_SenderPub req)) (mk_error ErrAuthFailed ''bad sender pub'')) (\<lambda>pub.
     let tid = copy_array 16 (tf_TransferID req); mhash = copy_array 32 (tf_ManifestHash req) in
     atomically (convert (to16 (tf_Nonce req)) (mk_error ErrInvalidRequest ''bad nonce'')) (\<lambda>nonce.
     atomically (hcheck (VerifyXferComplete (sv_verify sv) (tf_SenderPub req) tid mhash (tf_Timestamp req)
                      nonce (tf_Signature req) now)) (\<lambda>_.
     atomically (fresh st (ev_first ev) (replayKey replayDomainComplete (tf_SenderPub req) (tf_Nonce req))) (\<lambda>_.
     atomically (call_store (st_GetTransfer st (ev_second ev) tid)) (\<lambda>tv.
     atomically (hrequire (tv_SenderPub tv = tf_SenderPub req)
              (mk_error ErrAuthFailed ''sender mismatch'')) (\<lambda>_.
     atomically (call_store (\<lambda>s. complete_call (st_CompleteTransfer st (ev_third ev) req s))) (\<lambda>res.
     atomically (hgo (MarshalTransferCompleteResponse np
                   \<lparr>tfr_Sealed = (if cr_sealed res then 1 else 0), tfr_ChunkCount = cr_count res,
                    tfr_Present = cr_present res\<rparr>)) (\<lambda>resp.
     Done (Inr (SchemaTransferCompleteResponse, resp))))))))))))))"

definition cancel_thread ::
  "'s server \<Rightarrow> environment \<Rightarrow> http_request \<Rightarrow> 's request_thread" where
  "cancel_thread sv ev r =
     (let np = sv_np sv; st = sv_store sv in
     atomically (post_only r) (\<lambda>_.
     atomically (hproto (readBody r 256)) (\<lambda>raw.
     atomically (hgo (UnmarshalTransferCancel np raw)) (\<lambda>req.
     let tid = copy_array 16 (tx_TransferID req); mid = copy_array 16 (tx_MailboxID req) in
     atomically (hon h_store (\<lambda>t h. h\<lparr>h_store := t\<rparr>)
              (st_CancelTransfer st (ev_first ev) tid mid (tx_ReadSecret req))) (\<lambda>err.
     atomically (hcheck err) (\<lambda>_.
     atomically (hgo (MarshalMessageAckResponse np 1 0)) (\<lambda>resp.
     Done (Inr (SchemaMessageAckResponse, resp)))))))))"

section \<open>Interleaving\<close>

definition thread_routes ::
  "(string \<times> ('s server \<Rightarrow> environment \<Rightarrow> http_request \<Rightarrow> 's request_thread)) list" where
  "thread_routes =
     [(RouteHello, hello_thread), (RouteSend, send_thread), (RouteReceive, receive_thread),
      (RouteAck, ack_thread), (RouteTransferCreate, create_thread), (RouteChunkPut, put_thread),
      (RouteChunkGet, get_thread), (RouteResume, resume_thread), (RouteComplete, complete_thread),
      (RouteCancel, cancel_thread)]"

text \<open>The requests that have arrived, each with what is left of its handler, and the shared state.\<close>

type_synonym 's serving = "((environment \<times> http_request) \<times> 's request_thread) list \<times> 's Handler"

text \<open>A request arrives; a request performs its next section; another part of the process, such as the
  router of the daemon, calls the store. \<open>T\<close> are the clock readings of store calls.\<close>

inductive serving :: "'s server \<Rightarrow> int set \<Rightarrow> 's serving \<Rightarrow> 's serving \<Rightarrow> bool" for sv :: "'s server" and T :: "int set" where
  arrives: "map_of thread_routes (hr_Path r) = Some th \<Longrightarrow> call_times ev \<subseteq> T \<Longrightarrow>
    serving sv T (ts, h) (ts @ [((ev, r), th sv ev r)], h)"
| proceeds: "i < length ts \<Longrightarrow> ts ! i = (q, Act f) \<Longrightarrow> f h = (t, h') \<Longrightarrow> serving sv T (ts, h) (ts[i := (q, t)], h')"
| elsewhere: "now \<in> T \<Longrightarrow> store_call (sv_store sv) now (h_store h) s' \<Longrightarrow> serving sv T (ts, h) (ts, h\<lparr>h_store := s'\<rparr>)"

section \<open>Without interruption a thread is its handler\<close>

lemmas thread_defs =
  hello_thread_def send_thread_def receive_thread_def ack_thread_def create_thread_def put_thread_def
  get_thread_def resume_thread_def complete_thread_def cancel_thread_def

lemmas handle_defs =
  handleHello_def handleSend_def handleReceive_def handleAck_def handleCreate_def handlePut_def
  handleGet_def handleResume_def handleComplete_def handleCancel_def

lemma run_branches [simp]:
  "run (if b then t else t') = (if b then run t else run t')"
  "run (case p of (x, y) \<Rightarrow> g x y) = (case p of (x, y) \<Rightarrow> run (g x y))"
  by (simp_all split: prod.split)

lemma run_threads:
  "run (hello_thread sv ev r) = handleHello sv ev r" "run (send_thread sv ev r) = handleSend sv ev r"
  "run (receive_thread sv ev r) = handleReceive sv ev r" "run (ack_thread sv ev r) = handleAck sv ev r"
  "run (create_thread sv ev r) = handleCreate sv ev r" "run (put_thread sv ev r) = handlePut sv ev r"
  "run (get_thread sv ev r) = handleGet sv ev r" "run (resume_thread sv ev r) = handleResume sv ev r"
  "run (complete_thread sv ev r) = handleComplete sv ev r" "run (cancel_thread sv ev r) = handleCancel sv ev r"
  by (simp_all add: thread_defs handle_defs Let_def)

lemma served_by_thread:
  "ServeHTTP sv ev r h =
     (case map_of thread_routes (hr_Path r) of
        None \<Rightarrow> (None, h)
      | Some th \<Rightarrow> map_prod Some id (respond (sv_np sv) (run (th sv ev r)) h))"
  by (simp add: ServeHTTP_def routes_def thread_routes_def run_threads)

section \<open>Every section is a call of the store or none\<close>

lemmas thread_acts = acts_atomically acts_if acts_case_prod acts_Done

lemma hello_acts: "acts (store_moves (sv_store sv) (call_times ev)) (hello_thread sv ev r)"
  unfolding hello_thread_def by (intro thread_acts handler_moves)

lemma send_acts: "acts (store_moves (sv_store sv) (call_times ev)) (send_thread sv ev r)"
  unfolding send_thread_def Let_def by (intro thread_acts handler_moves call_intros call_SendMessage)

lemma receive_acts: "acts (store_moves (sv_store sv) (call_times ev)) (receive_thread sv ev r)"
  unfolding receive_thread_def Let_def by (intro thread_acts handler_moves call_intros call_ReceiveMessages)

lemma ack_acts: "acts (store_moves (sv_store sv) (call_times ev)) (ack_thread sv ev r)"
  unfolding ack_thread_def Let_def by (intro thread_acts handler_moves call_intros call_AckMessages)

lemma create_acts: "acts (store_moves (sv_store sv) (call_times ev)) (create_thread sv ev r)"
  unfolding create_thread_def Let_def by (intro thread_acts handler_moves call_intros call_CreateTransfer)

lemma put_acts: "acts (store_moves (sv_store sv) (call_times ev)) (put_thread sv ev r)"
  unfolding put_thread_def Let_def by (intro thread_acts handler_moves call_intros call_PutChunk call_Progress)

lemma get_acts: "acts (store_moves (sv_store sv) (call_times ev)) (get_thread sv ev r)"
  unfolding get_thread_def Let_def
  by (intro thread_acts handler_moves call_intros call_GetChunk call_GetChunkByTicket)

lemma resume_acts: "acts (store_moves (sv_store sv) (call_times ev)) (resume_thread sv ev r)"
  unfolding resume_thread_def Let_def
  by (intro thread_acts handler_moves call_intros call_Resume call_ResumeByTicket)

lemma complete_acts: "acts (store_moves (sv_store sv) (call_times ev)) (complete_thread sv ev r)"
  unfolding complete_thread_def Let_def
  by (intro thread_acts moves_complete handler_moves call_intros call_GetTransfer)

lemma cancel_acts: "acts (store_moves (sv_store sv) (call_times ev)) (cancel_thread sv ev r)"
  unfolding cancel_thread_def Let_def by (intro thread_acts moves_cancel handler_moves)

lemma route_acts:
  assumes "map_of thread_routes p = Some th"
  shows "acts (store_moves (sv_store sv) (call_times ev)) (th sv ev r)"
  using map_of_SomeD [OF assms]
  by (auto simp: thread_routes_def hello_acts send_acts receive_acts ack_acts create_acts put_acts get_acts
      resume_acts complete_acts cancel_acts)

section \<open>Every request has a bounded number of sections\<close>

lemmas thread_within = within_atomically within_if within_case_prod within_Done

lemma threads_within:
  "within (hello_thread sv ev r) 13" "within (send_thread sv ev r) 13" "within (receive_thread sv ev r) 13"
  "within (ack_thread sv ev r) 13" "within (create_thread sv ev r) 13" "within (put_thread sv ev r) 13"
  "within (get_thread sv ev r) 13" "within (resume_thread sv ev r) 13" "within (complete_thread sv ev r) 13"
  "within (cancel_thread sv ev r) 13"
  unfolding thread_defs Let_def by ((intro thread_within)?; simp)+

lemma route_within: "map_of thread_routes p = Some th \<Longrightarrow> within (th sv ev r) 13"
  by (drule map_of_SomeD) (auto simp: thread_routes_def threads_within)

end
