(* ===== verification/Concurrent.thy ===== *)
theory Concurrent
  imports Shard_Threads
begin

text \<open>
  What holds in every interleaving of requests: the store moves by calls of its interface only, so it is
  always in a state some sequence of store operations reaches; and of the send requests that carry one
  key and nonce at most one is accepted.
\<close>

section \<open>The store under concurrent requests\<close>

definition by_threads :: "'s Store \<Rightarrow> int set \<Rightarrow> 's serving \<Rightarrow> bool" where
  "by_threads st T c \<longleftrightarrow> (\<forall>(q, t) \<in> set (fst c). acts (store_moves st T) t)"

lemma calls_mono: "calls st T s s' \<Longrightarrow> T \<subseteq> T' \<Longrightarrow> calls st T' s s'"
  by (induction rule: calls.induct) (auto intro: calls_refl calls_step)

lemma serving_calls:
  assumes "serving sv T c c'" "by_threads (sv_store sv) T c"
  shows "by_threads (sv_store sv) T c' \<and> calls (sv_store sv) T (h_store (snd c)) (h_store (snd c'))"
  using assms
proof (induction rule: serving.induct)
  case (arrives r th ev ts h)
  have "acts (store_moves (sv_store sv) T) (th sv ev r)"
    using route_acts [OF arrives(1)] by (rule acts_mono) (auto simp: store_moves_def intro: calls_mono [OF _ arrives(2)])
  then show ?case using arrives(3) by (auto simp: by_threads_def calls_refl)
next
  case (proceeds i ts q f h t h')
  have "(q, Act f) \<in> set ts" using proceeds(1,2) nth_mem by metis
  then have "acts (store_moves (sv_store sv) T) (Act f)" using proceeds(4) by (auto simp: by_threads_def)
  from acts_section [OF this proceeds(3)]
  have "store_moves (sv_store sv) T h h'" "acts (store_moves (sv_store sv) T) t" by simp_all
  with proceeds(4) show ?case
    by (auto simp: by_threads_def store_moves_def dest!: set_update_subset_insert [THEN subsetD])
next
  case (elsewhere now h s' ts)
  then show ?case by (simp add: by_threads_def calls_one)
qed

inductive executes :: "'s server \<Rightarrow> int set \<Rightarrow> 's Handler \<Rightarrow> 's serving \<Rightarrow> bool"
  for sv :: "'s server" and T :: "int set" and h0 :: "'s Handler" where
  begins: "executes sv T h0 ([], h0)"
| continues: "executes sv T h0 c \<Longrightarrow> serving sv T c c' \<Longrightarrow> executes sv T h0 c'"

lemma executes_calls:
  "executes sv T h0 c \<Longrightarrow> by_threads (sv_store sv) T c \<and> calls (sv_store sv) T (h_store h0) (h_store (snd c))"
proof (induction rule: executes.induct)
  case begins
  then show ?case by (simp add: by_threads_def calls_refl)
next
  case (continues c c')
  then show ?case using serving_calls [OF continues(2)] by (auto intro: calls_trans)
qed

text \<open>From any configuration a request can be completed without interruption.\<close>

lemma executes_run:
  "executes sv T h0 (ts, h) \<Longrightarrow> i < length ts \<Longrightarrow> ts ! i = (q, t) \<Longrightarrow> run t h = (res, h') \<Longrightarrow>
   executes sv T h0 (ts[i := (q, Done res)], h')"
proof (induction t arbitrary: ts h)
  case (Done x)
  then show ?case using list_update_id [of ts i] by (simp add: run.simps)
next
  case (Act f)
  obtain t' h1 where f: "f h = (t', h1)" by fastforce
  have next_one: "executes sv T h0 (ts[i := (q, t')], h1)"
    using Act.prems(1) proceeds [OF Act.prems(2,3) f] by (rule continues)
  have "executes sv T h0 (ts[i := (q, t'), i := (q, Done res)], h')"
    using Act.prems(2,4) f by (intro Act.IH [OF _ _ next_one, of "f h"]) (simp_all add: run.simps, metis rangeI)
  then show ?case by simp
qed

lemma run_ops_snoc: "run_ops (ops @ [op]) s = store_step op (run_ops ops s)"
  by (induction ops arbitrary: s) simp_all

lemma mem_calls_ops:
  "calls mem_store T s s' \<Longrightarrow> \<exists>ops. s' = run_ops ops s \<and> (\<forall>op \<in> set ops. op_time op \<in> T)"
proof (induction rule: calls.induct)
  case (calls_refl s)
  show ?case by (rule exI [of _ "[]"]) simp
next
  case (calls_step s s' now s'')
  then obtain ops op where "s' = run_ops ops s" "\<forall>op \<in> set ops. op_time op \<in> T" "op_time op = now" "s'' = store_step op s'"
    using mem_store_call_step by blast
  then have "s'' = run_ops (ops @ [op]) s \<and> (\<forall>op \<in> set (ops @ [op]). op_time op \<in> T)"
    using calls_step(2) by (auto simp: run_ops_snoc)
  then show ?case by blast
qed

section \<open>One key and nonce, one accepted send\<close>

text \<open>A thread that cannot finish with success before a section of it has passed the replay check of \<open>k\<close>.\<close>

primrec guarded :: "'s Store \<Rightarrow> int set \<Rightarrow> bytes \<Rightarrow> 's request_thread \<Rightarrow> bool" where
  "guarded st T k (Done r) = (\<exists>pe. r = Inl pe)"
| "guarded st T k (Act f) = (\<forall>h. case map_prod (guarded st T k) id (f h) of (rest, h') \<Rightarrow>
     rest \<or> (\<exists>t \<in> T. st_CheckAndMarkReplay st t k (h_store h) = (False, h_store h')))"

lemma guarded_section:
  "guarded st T k (Act f) \<Longrightarrow> f h = (t, h') \<Longrightarrow>
   guarded st T k t \<or> (\<exists>now \<in> T. st_CheckAndMarkReplay st now k (h_store h) = (False, h_store h'))"
  by (auto dest!: spec [of _ h])

lemma guarded_atomically:
  "(\<And>h x h'. m h = (Inr x, h') \<Longrightarrow> guarded st T k (f x)) \<Longrightarrow> guarded st T k (atomically m f)"
  by (auto simp: atomically_def split: prod.split sum.split)

lemma guarded_fresh: "t \<in> T \<Longrightarrow> k' = k \<Longrightarrow> guarded st T k (atomically (fresh st t k') f)"
  by (auto simp: atomically_def fresh_Inr split: prod.split sum.split)

declare guarded.simps(2) [simp del]

text \<open>A send request that carries the key and nonce of \<open>k\<close>, if its body decodes.\<close>

definition carries :: "'s server \<Rightarrow> bytes \<Rightarrow> environment \<times> http_request \<Rightarrow> bool" where
  "carries sv k q \<longleftrightarrow> hr_Path (snd q) = RouteSend
     \<and> (\<forall>raw msg. readBody (snd q) MaxRequestBytes = Inr raw \<longrightarrow> UnmarshalSendMessage (sv_np sv) raw = Inr msg \<longrightarrow>
          replayKey replayDomainMsg (sm_SenderPub msg) (sm_Nonce msg) = k)"

lemma send_guarded:
  assumes "carries sv k (ev, r)" "call_times ev \<subseteq> T"
  shows "guarded (sv_store sv) T k (send_thread sv ev r)"
  unfolding send_thread_def Let_def
  by (rule guarded_fresh | rule guarded_atomically)+ (use assms in \<open>auto simp: carries_def call_times_def\<close>)

text \<open>The requests with \<open>k\<close> that may have passed the check.\<close>

definition passed :: "'s server \<Rightarrow> int set \<Rightarrow> bytes \<Rightarrow> 's serving \<Rightarrow> nat set" where
  "passed sv T k c = {i. i < length (fst c) \<and> carries sv k (fst (fst c ! i)) \<and> \<not> guarded (sv_store sv) T k (snd (fst c ! i))}"

lemma passed_arrives:
  assumes "map_of thread_routes (hr_Path r) = Some th" "call_times ev \<subseteq> T"
  shows "passed sv T k (ts @ [((ev, r), th sv ev r)], h) = passed sv T k (ts, h)"
proof -
  have "guarded (sv_store sv) T k (th sv ev r)" if "carries sv k (ev, r)"
    using that assms send_guarded [OF that assms(2)] by (auto simp: carries_def thread_routes_def route_defs)
  then show ?thesis by (auto simp: passed_def nth_append less_Suc_eq)
qed

lemma passed_proceeds:
  assumes "i < length ts" "ts ! i = (q, Act f)" "f h = (t, h')"
  shows "passed sv T k (ts[i := (q, t)], h') \<subseteq> passed sv T k (ts, h)
    \<or> passed sv T k (ts[i := (q, t)], h') \<subseteq> insert i (passed sv T k (ts, h))
      \<and> (\<exists>now \<in> T. st_CheckAndMarkReplay (sv_store sv) now k (h_store h) = (False, h_store h'))"
proof (cases "guarded (sv_store sv) T k (Act f) \<and> \<not> guarded (sv_store sv) T k t")
  case True
  then have "\<exists>now \<in> T. st_CheckAndMarkReplay (sv_store sv) now k (h_store h) = (False, h_store h')"
    using guarded_section [where h = h] assms(3) by blast
  then show ?thesis using assms(1,2) by (auto simp: passed_def nth_list_update split: if_splits)
next
  case False
  then show ?thesis using assms(1,2) by (auto simp: passed_def nth_list_update split: if_splits)
qed

definition one_pass :: "('s \<Rightarrow> bytes \<Rightarrow> int option) \<Rightarrow> 's server \<Rightarrow> int set \<Rightarrow> bytes \<Rightarrow> 's serving \<Rightarrow> bool" where
  "one_pass replay_until sv T k c \<longleftrightarrow> passed sv T k c = {}
     \<or> (\<exists>j e. passed sv T k c \<subseteq> {j} \<and> replay_until (h_store (snd c)) k = Some e \<and> (\<forall>t \<in> T. t < e))"

context store_contract
begin

lemma one_pass_quiet:
  assumes "one_pass replay_until sv T k c" "passed sv T k c' \<subseteq> passed sv T k c"
    and "calls st T (h_store (snd c)) (h_store (snd c'))" "inv (h_store (snd c))"
  shows "one_pass replay_until sv T k c'"
  using assms(1,2) calls_replay [OF assms(3,4)] unfolding one_pass_def by (metis subset_empty subset_trans)

lemma one_pass_serving:
  assumes "serving sv T c c'" "sv_store sv = st" "one_pass replay_until sv T k c" "inv (h_store (snd c))"
    and calls: "calls st T (h_store (snd c)) (h_store (snd c'))"
    and window: "\<forall>t \<in> T. \<forall>t' \<in> T. t < replay_window t'"
  shows "one_pass replay_until sv T k c'"
  using assms
proof (induction rule: serving.induct)
  case (arrives r th ev ts h)
  then show ?case using passed_arrives [OF arrives(1,2)] by (intro one_pass_quiet [OF arrives(4)]) auto
next
  case (proceeds i ts q f h t h')
  consider "passed sv T k (ts[i := (q, t)], h') \<subseteq> passed sv T k (ts, h)"
    | now where "passed sv T k (ts[i := (q, t)], h') \<subseteq> insert i (passed sv T k (ts, h))" "now \<in> T"
      "st_CheckAndMarkReplay st now k (h_store h) = (False, h_store h')"
    using passed_proceeds [OF proceeds(1-3), of sv T k] proceeds(4) by auto
  then show ?case
  proof cases
    case 1
    then show ?thesis using proceeds(6,7) by (intro one_pass_quiet [OF proceeds(5)]) auto
  next
    case 2
    have "\<not> (replay_until (h_store h) k = Some e \<and> (\<forall>t \<in> T. t < e))" for e
      using replay_refused [of "h_store h" k e now] 2(2,3) proceeds(6) by auto
    then have "passed sv T k (ts, h) = {}" using proceeds(5) by (auto simp: one_pass_def)
    moreover have "replay_until (h_store h') k = Some (replay_window now)"
      using replay_marked [OF _ 2(3)] proceeds(6) by simp
    ultimately show ?thesis using 2(1,2) window by (auto simp: one_pass_def)
  qed
next
  case (elsewhere now h s' ts)
  have "passed sv T k (ts, h\<lparr>h_store := s'\<rparr>) = passed sv T k (ts, h)" by (simp add: passed_def)
  then show ?case using elsewhere by (intro one_pass_quiet [OF elsewhere(4)]) auto
qed

lemma one_pass_executes:
  assumes "executes sv T h0 c" "sv_store sv = st" "inv (h_store h0)" "\<forall>t \<in> T. \<forall>t' \<in> T. t < replay_window t'"
  shows "one_pass replay_until sv T k c"
  using assms
proof (induction rule: executes.induct)
  case begins
  then show ?case by (simp add: one_pass_def passed_def)
next
  case (continues c c')
  have c: "by_threads (sv_store sv) T c" "calls st T (h_store h0) (h_store (snd c))"
    using executes_calls [OF continues(1)] continues(4) by auto
  then show ?case
    using serving_calls [OF continues(2) c(1)] continues calls_inv [OF c(2)]
    by (intro one_pass_serving [OF continues(2)]) auto
qed

lemma accepted_once:
  assumes "executes sv T h0 c" "sv_store sv = st" "inv (h_store h0)" "\<forall>t \<in> T. \<forall>t' \<in> T. t < replay_window t'"
    and "i < length (fst c)" "fst c ! i = (q, Done (Inr x))" "carries sv k q"
    and "j < length (fst c)" "fst c ! j = (q', Done (Inr x'))" "carries sv k q'"
  shows "i = j"
proof -
  have "i \<in> passed sv T k c" "j \<in> passed sv T k c" using assms(5-10) by (simp_all add: passed_def)
  then show ?thesis using one_pass_executes [OF assms(1-4), of k] by (auto simp: one_pass_def)
qed

end

end
