(* ===== verification/Concurrent_Properties.thy ===== *)
theory Concurrent_Properties
  imports Concurrent Server_Examples
begin

text \<open>The properties of a shard that serves requests concurrently.\<close>

section \<open>Executions\<close>



section \<open>The shard\<close>







end
