(* ===== verification/Daemon.thy ===== *)
theory Daemon
  imports Accepted
begin

text \<open>
  The single-binary deployment \<open>cmd/filerelayd/main.go\<close>: a router and a shard in one process over one
  store, behind one multiplexer. The store is the one the router's only shard reference holds; the
  shard's handler is built around it for every request. Flags, the generated keys and the listener are
  outside the model: secret, keys and address are arguments.
\<close>

record daemon =
  dm_router :: "MemStore Router"
  dm_buckets :: buckets

record daemon_setup =
  ds_config :: "MemStore Config"
  ds_server :: "MemStore server"

definition setup_daemon ::
  "bytes \<Rightarrow> bytes \<Rightarrow> (bytes \<Rightarrow> bytes) \<Rightarrow> nanopack \<Rightarrow> ed25519_verify \<Rightarrow> daemon_setup" where
  "setup_daemon secret rpub rsign np verify =
     \<lparr>ds_config = \<lparr>cfg_Secret = secret, cfg_Version = 1, cfg_RouterPub = rpub, cfg_sign = rsign,
        cfg_MaxRegistersPerIP = 0, cfg_MaxResolvesPerIP = 0, cfg_store = mem_store, cfg_np = np,
        cfg_verify = verify\<rparr>,
      ds_server = \<lparr>sv_store = mem_store, sv_limits = DefaultRateLimits, sv_np = np, sv_verify = verify\<rparr>\<rparr>"

definition baseURL :: "string \<Rightarrow> string" where "baseURL addr = ''http://'' @ addr"

definition new_daemon :: "string \<Rightarrow> daemon" where
  "new_daemon addr = \<lparr>dm_router = NewRouter [(baseURL addr, NewMemStore)], dm_buckets = []\<rparr>"

definition dm_store :: "daemon \<Rightarrow> MemStore" where "dm_store d = store_at 0 (dm_router d)"

definition dm_shard :: "daemon \<Rightarrow> MemStore Handler" where
  "dm_shard d = \<lparr>h_store = dm_store d, h_buckets = dm_buckets d\<rparr>"

definition put_shard :: "MemStore Handler \<Rightarrow> daemon \<Rightarrow> daemon" where
  "put_shard h d = \<lparr>dm_router = put_store 0 (h_store h) (dm_router d), dm_buckets = h_buckets h\<rparr>"

datatype mux_target = To_router | To_shard

text \<open>Exact patterns, and the subtree \<open>/fr/v1/xfer/\<close>.\<close>

definition daemon_mux :: "string \<Rightarrow> mux_target option" where
  "daemon_mux path =
     (if path \<in> {''/fr/v1/register'', ''/fr/v1/resolve'', ''/fr/v1/table'', ''/fr/v1/hello''} then Some To_router
      else if path \<in> {''/fr/v1/send'', ''/fr/v1/receive'', ''/fr/v1/ack''} then Some To_shard
      else if take (length ''/fr/v1/xfer/'') path = ''/fr/v1/xfer/'' then Some To_shard
      else None)"

text \<open>\<open>None\<close>: the multiplexer's own answer, at either level.\<close>

definition daemon_ServeHTTP ::
  "daemon_setup \<Rightarrow> router_env \<Rightarrow> environment \<Rightarrow> http_request \<Rightarrow> daemon \<Rightarrow> http_response option \<times> daemon" where
  "daemon_ServeHTTP ds renv ev r d =
     (case daemon_mux (hr_Path r) of
        Some To_router \<Rightarrow>
          (case router_ServeHTTP (ds_config ds) renv r (dm_router d) of
             (resp, h) \<Rightarrow> (Some resp, d\<lparr>dm_router := h\<rparr>))
      | Some To_shard \<Rightarrow>
          (case ServeHTTP (ds_server ds) ev r (dm_shard d) of (resp, h) \<Rightarrow> (resp, put_shard h d))
      | None \<Rightarrow> (None, d))"

section \<open>Routes\<close>

lemma daemon_mux_routes [simp]:
  "daemon_mux RouteRegister = Some To_router" "daemon_mux RouteResolve = Some To_router"
  "daemon_mux RouteTable = Some To_router" "daemon_mux RouteHello = Some To_router"
  "daemon_mux RouteSend = Some To_shard" "daemon_mux RouteReceive = Some To_shard"
  "daemon_mux RouteAck = Some To_shard" "daemon_mux RouteTransferCreate = Some To_shard"
  "daemon_mux RouteChunkPut = Some To_shard" "daemon_mux RouteChunkGet = Some To_shard"
  "daemon_mux RouteResume = Some To_shard" "daemon_mux RouteComplete = Some To_shard"
  "daemon_mux RouteCancel = Some To_shard"
  by (simp_all add: daemon_mux_def route_defs)

section \<open>One store, kept consistent\<close>

definition shards_ok :: "('s \<Rightarrow> bool) \<Rightarrow> 's Router \<Rightarrow> 's Router \<Rightarrow> bool" where
  "shards_ok P h h' \<longleftrightarrow>
     shardURLs h' = shardURLs h
     \<and> ((\<forall>s \<in> snd ` set (ro_shards h). P s) \<longrightarrow> (\<forall>s \<in> snd ` set (ro_shards h'). P s))"

lemma shards_ok_refl: "shards_ok P h h"
  unfolding shards_ok_def by iprover

lemma shards_ok_trans: "shards_ok P h h' \<Longrightarrow> shards_ok P h' h'' \<Longrightarrow> shards_ok P h h''"
  unfolding shards_ok_def by (metis (no_types))

interpretation keeps_shards: state_order "shards_ok P" for P
  by (rule state_order.intro) (fact shards_ok_refl, erule (1) shards_ok_trans)

lemma shards_ok_frame: "ro_shards h' = ro_shards h \<Longrightarrow> shards_ok P h h'"
  by (simp add: shards_ok_def shardURLs_def)

lemma moves_at: "moves R m \<Longrightarrow> R s (snd (m s))"
  by (simp add: moves_def)

lemma put_store_shards:
  assumes "P (store_at ref h) \<Longrightarrow> P s"
  shows "shards_ok P h (put_store ref s h)"
proof (cases "ref < length (ro_shards h)")
  case True
  have "set (ro_shards (put_store ref s h)) \<subseteq> insert (fst (ro_shards h ! ref), s) (set (ro_shards h))"
    by (simp add: put_store_def set_update_subset_insert)
  moreover have "store_at ref h \<in> snd ` set (ro_shards h)"
    using True by (simp add: store_at_def)
  moreover have "shardURLs (put_store ref s h) = shardURLs h"
    using True by (auto simp: shardURLs_def put_store_def map_update list_update_same_conv)
  ultimately show ?thesis using assms by (fastforce simp: shards_ok_def)
next
  case False
  then show ?thesis by (intro shards_ok_frame) (simp add: put_store_def list_update_beyond)
qed

lemma limit_keeps:
  "moves (shards_ok P) (hon ro_regRL (\<lambda>b h. h\<lparr>ro_regRL := b\<rparr>) f)"
  "moves (shards_ok P) (hon ro_resRL (\<lambda>b h. h\<lparr>ro_resRL := b\<rparr>) f)"
  "moves (shards_ok P) (hon ro_replay (\<lambda>m h. h\<lparr>ro_replay := m\<rparr>) g)"
  "moves (shards_ok P) (post_only r)"
  "moves (shards_ok P) (convert c pe)"
  by (auto intro!: keeps_shards.moves_on shards_ok_frame keeps_shards.moves_pure
      simp: post_only_def convert_def split: option.split)

lemmas keeps_intros = keeps_shards.moves_bind keeps_shards.moves_pure limit_keeps keeps_shards.moves_if

text \<open>A step that first looks at the state.\<close>

lemma moves_look: "(\<And>x. moves R (f x)) \<Longrightarrow> moves R (\<lambda>s. f s s)"
  by (simp add: moves_def)

context store_contract
begin

lemma create_keeps:
  "cfg_store cfg = st \<Longrightarrow>
   moves (shards_ok inv) (hcall (store_at ref) (put_store ref) (st_CreateMailbox (cfg_store cfg) t mid hash))"
  by (auto intro!: keeps_shards.moves_call put_store_shards intro: call_inv call_CreateMailbox)

lemma router_keeps:
  assumes "cfg_store cfg = st"
  shows "shards_ok inv h (snd (router_ServeHTTP cfg ev r h))"
proof -
  have "moves (shards_ok inv) (router_handleRegister cfg ev r)"
    unfolding router_handleRegister_def Let_def
    by (intro keeps_intros, rule moves_look, intro keeps_intros create_keeps assms)
  moreover have "moves (shards_ok inv) (router_handleResolve cfg ev r)"
    unfolding router_handleResolve_def Let_def by (intro keeps_intros, rule moves_look, intro keeps_intros)
  moreover have "shards_ok inv g (snd (router_handleTable cfg ev r g))" for g
    unfolding router_handleTable_def Let_def by (rule moves_at, intro keeps_intros)
  then have "moves (shards_ok inv) (router_handleTable cfg ev r)" by (simp add: moves_def)
  moreover have "moves (shards_ok inv) (router_handleHello cfg ev r)"
    unfolding router_handleHello_def by (intro keeps_intros)
  ultimately have "moves (shards_ok inv) (router_dispatch cfg ev r)"
    unfolding router_dispatch_def by (auto intro!: keeps_intros)
  then have "shards_ok inv h (snd (router_dispatch cfg ev r h))" by (simp add: moves_def)
  then show ?thesis
    by (simp add: router_ServeHTTP_def split: prod.split sum.split) (metis snd_conv)
qed

end

definition daemon_ok :: "daemon \<Rightarrow> bool" where
  "daemon_ok d \<longleftrightarrow> length (ro_shards (dm_router d)) = 1 \<and> store_ok (dm_store d)"

lemma length_shards: "length (ro_shards h) = length (shardURLs h)"
  by (simp add: shardURLs_def)

lemma single_shard:
  "length (ro_shards h) = 1 \<Longrightarrow> (\<forall>x \<in> set (ro_shards h). P (snd x)) \<longleftrightarrow> P (store_at 0 h)"
  by (cases "ro_shards h") (auto simp: store_at_def)

lemma put_shard_sel [simp]:
  "dm_buckets (put_shard h d) = h_buckets h"
  "length (ro_shards (dm_router (put_shard h d))) = length (ro_shards (dm_router d))"
  "shardURLs (dm_router (put_shard h d)) = shardURLs (dm_router d)"
  "ro_regRL (dm_router (put_shard h d)) = ro_regRL (dm_router d)"
  "ro_resRL (dm_router (put_shard h d)) = ro_resRL (dm_router d)"
  "ro_replay (dm_router (put_shard h d)) = ro_replay (dm_router d)"
  by (cases "ro_shards (dm_router d)";
      auto simp: put_shard_def put_store_def shardURLs_def map_update list_update_same_conv split: nat.split)+

lemma dm_store_put [simp]:
  "length (ro_shards (dm_router d)) = 1 \<Longrightarrow> dm_store (put_shard h d) = h_store h"
  by (simp add: dm_store_def put_shard_def put_store_def store_at_def)

lemma daemon_request_ok:
  assumes "cfg_store (ds_config ds) = mem_store" "sv_store (ds_server ds) = mem_store" "daemon_ok d"
  shows "daemon_ok (snd (daemon_ServeHTTP ds renv ev r d))"
    and "shardURLs (dm_router (snd (daemon_ServeHTTP ds renv ev r d))) = shardURLs (dm_router d)"
proof -
  let ?h = "snd (router_ServeHTTP (ds_config ds) renv r (dm_router d))"
  have keep: "shards_ok store_ok (dm_router d) ?h" using assms(1) by (rule mem.router_keeps)
  then have "length (ro_shards ?h) = 1"
    using assms(3) by (simp add: daemon_ok_def shards_ok_def length_shards)
  then have "daemon_ok (d\<lparr>dm_router := ?h\<rparr>)"
    using keep assms(3) single_shard [of "dm_router d" store_ok] single_shard [of ?h store_ok]
    by (simp add: daemon_ok_def shards_ok_def dm_store_def)
  moreover have "daemon_ok (put_shard (snd (ServeHTTP (ds_server ds) ev r (dm_shard d))) d)"
    using mem.request_inv [OF assms(2), of "dm_shard d" ev r] assms(3)
    by (simp add: daemon_ok_def dm_shard_def)
  ultimately show "daemon_ok (snd (daemon_ServeHTTP ds renv ev r d))"
    using assms(3) by (auto simp: daemon_ServeHTTP_def split: option.split mux_target.split prod.split)
  show "shardURLs (dm_router (snd (daemon_ServeHTTP ds renv ev r d))) = shardURLs (dm_router d)"
    using keep by (auto simp: daemon_ServeHTTP_def shards_ok_def split: option.split mux_target.split prod.split)
qed

interpretation relayd: invariant_machine "new_daemon addr"
  "\<lambda>(renv, ev, r) d. snd (daemon_ServeHTTP (setup_daemon secret rpub rsign np verify) renv ev r d)"
  "\<lambda>d. daemon_ok d \<and> shardURLs (dm_router d) = [baseURL addr]" for addr secret rpub rsign np verify
proof (unfold_locales, goal_cases)
  case 1
  show ?case
    by (simp add: new_daemon_def NewRouter_def daemon_ok_def dm_store_def store_at_def shardURLs_def NewMemStore_ok)
next
  case (2 d req)
  then show ?case
    by (cases req) (simp add: daemon_request_ok setup_daemon_def)
qed

end
