(* ===== verification/Bridge_Rpc.thy ===== *)
theory Bridge_Rpc
  imports Nanopack
begin

text \<open>
  The RPC codecs of the courier bridge (\<open>transports/filerelay/bridge/rpc.go\<close> and \<open>rpc_file.go\<close>): the
  envelope and its length-prefixed frame on the standard streams, and the request and result of every
  operation. Requests are only decoded and results only encoded, the other direction being in NexTalk;
  \<open>rpc_decode\<close> says what a request decodes to in terms of its fields. The text of
  \<open>nanopack.ErrShortBody\<close> belongs to the serialisation library and is the argument \<open>short\<close> of
  \<open>Error_text\<close>, which is Go's method \<open>Error()\<close>.
\<close>

abbreviation (input) opError :: u8 where "opError \<equiv> 0"
abbreviation (input) opInitialize :: u8 where "opInitialize \<equiv> 1"
abbreviation (input) opStartStop :: u8 where "opStartStop \<equiv> 2"
abbreviation (input) opSend :: u8 where "opSend \<equiv> 3"
abbreviation (input) opAttach :: u8 where "opAttach \<equiv> 4"
abbreviation (input) opDetach :: u8 where "opDetach \<equiv> 5"
abbreviation (input) opPoll :: u8 where "opPoll \<equiv> 6"
abbreviation (input) opStatus :: u8 where "opStatus \<equiv> 7"
abbreviation (input) opCapabilities :: u8 where "opCapabilities \<equiv> 8"
abbreviation (input) opRegister :: u8 where "opRegister \<equiv> 9"
abbreviation (input) opResolve :: u8 where "opResolve \<equiv> 10"
abbreviation (input) opXferCreate :: u8 where "opXferCreate \<equiv> 11"
abbreviation (input) opXferPut :: u8 where "opXferPut \<equiv> 12"
abbreviation (input) opXferResume :: u8 where "opXferResume \<equiv> 13"
abbreviation (input) opXferGet :: u8 where "opXferGet \<equiv> 14"
abbreviation (input) opXferComplete :: u8 where "opXferComplete \<equiv> 15"
abbreviation (input) opXferCancel :: u8 where "opXferCancel \<equiv> 16"
abbreviation (input) opIdentityRegister :: u8 where "opIdentityRegister \<equiv> 17"

abbreviation (input) actionStart :: u8 where "actionStart \<equiv> 1"
abbreviation (input) transportAPIVer :: u8 where "transportAPIVer \<equiv> 1"

definition bridgeID :: string where [simp]: "bridgeID = ''filerelay''"
definition bridgeVersion :: string where [simp]: "bridgeVersion = ''1.0.0''"
definition maxFrameBytes :: nat where [simp]: "maxFrameBytes = 40960"
definition maxRPCBytes :: nat where [simp]: "maxRPCBytes = 2097152"

section \<open>Shapes the codecs share\<close>

definition Error_text :: "string \<Rightarrow> go_error \<Rightarrow> string" where
  "Error_text short err =
     (case err of ProtoErr pe \<Rightarrow> error_string pe | ErrShortBody \<Rightarrow> short | ForeignErr s \<Rightarrow> s)"

text \<open>Decode the fields, run the loop, check the result.\<close>

definition rpc_unmarshal ::
  "nanopack \<Rightarrow> ('s \<Rightarrow> u8 \<Rightarrow> bytes \<Rightarrow> go_error + 's) \<Rightarrow> 's \<Rightarrow> ('s \<Rightarrow> go_error + 'a) \<Rightarrow> bytes \<Rightarrow> go_error + 'a" where
  "rpc_unmarshal np step zero finish body =
     (case np_decode np body of
        Inl e \<Rightarrow> Inl e
      | Inr flds \<Rightarrow> (case run_fields step zero flds of Inl e \<Rightarrow> Inl e | Inr s \<Rightarrow> finish s))"

text \<open>\<open>b, _ := enc.Bytes(); return b\<close>: no bytes when the encoder fails.\<close>

definition rpc_bytes :: "nanopack \<Rightarrow> field list \<Rightarrow> bytes" where
  "rpc_bytes np fs = (case np_bytes np fs of Inl e \<Rightarrow> [] | Inr b \<Rightarrow> b)"

definition rpc_check :: "bool \<Rightarrow> string \<Rightarrow> 'a \<Rightarrow> go_error + 'a" where
  "rpc_check ok detail out = (if ok then Inr out else Inl (ForeignErr detail))"

lemma rpc_check_Inr [simp]: "rpc_check ok detail out = Inr x \<longleftrightarrow> ok \<and> x = out"
  by (auto simp: rpc_check_def)

definition flag_byte :: "bool \<Rightarrow> bytes" where
  "flag_byte ok = (if ok then [1] else [0])"

section \<open>Envelope and frame\<close>

record envelope =
  en_op :: u8
  en_reqID :: u32
  en_payload :: bytes

definition marshalEnvelope :: "nanopack \<Rightarrow> u8 \<Rightarrow> u32 \<Rightarrow> bytes \<Rightarrow> go_error + bytes" where
  "marshalEnvelope np rpcop reqID payload = np_bytes np [(1, [rpcop]), (2, putU32 reqID), (3, payload)]"

definition envelope_field :: "envelope \<Rightarrow> u8 \<Rightarrow> bytes \<Rightarrow> go_error + envelope" where
  "envelope_field out fid d =
     (if fid = 1 then
        (if length d \<noteq> 1 then Inl (ForeignErr ''rpc: bad op'') else Inr (out\<lparr>en_op := d ! 0\<rparr>))
      else if fid = 2 then store_field (getU32 d) (\<lambda>v. out\<lparr>en_reqID := v\<rparr>)
      else if fid = 3 then Inr (out\<lparr>en_payload := d\<rparr>)
      else Inr out)"

definition unmarshalEnvelope :: "nanopack \<Rightarrow> bytes \<Rightarrow> go_error + envelope" where
  "unmarshalEnvelope np body =
     (if length body = 0 \<or> length body > maxRPCBytes then Inl (ForeignErr ''rpc: bad envelope length'')
      else rpc_unmarshal np envelope_field \<lparr>en_op = 0, en_reqID = 0, en_payload = []\<rparr> Inr body)"

definition frameMessage :: "bytes \<Rightarrow> bytes" where
  "frameMessage body = be32 (word_of_nat (length body)) @ body"

section \<open>Session operations\<close>

record initialize =
  in_transportID :: string
  in_apiVersion :: u8
  in_config :: bytes

definition initialize_field :: "initialize \<Rightarrow> u8 \<Rightarrow> bytes \<Rightarrow> go_error + initialize" where
  "initialize_field out fid d =
     (if fid = 1 then Inr (out\<lparr>in_transportID := string_of d\<rparr>)
      else if fid = 2 then store_field (getU8 d) (\<lambda>v. out\<lparr>in_apiVersion := v\<rparr>)
      else if fid = 3 then Inr (out\<lparr>in_config := d\<rparr>)
      else Inr out)"

definition unmarshalInitialize :: "nanopack \<Rightarrow> bytes \<Rightarrow> go_error + initialize" where
  "unmarshalInitialize np body =
     rpc_unmarshal np initialize_field \<lparr>in_transportID = [], in_apiVersion = 0, in_config = []\<rparr> Inr body"

definition marshalInitResult :: "nanopack \<Rightarrow> bool \<Rightarrow> string \<Rightarrow> u8 \<Rightarrow> bytes" where
  "marshalInitResult np ok detail api = rpc_bytes np [(1, flag_byte ok), (2, bytes_of detail), (3, [api])]"

definition marshalAck :: "nanopack \<Rightarrow> bool \<Rightarrow> string \<Rightarrow> bytes" where
  "marshalAck np ok detail = rpc_bytes np [(1, flag_byte ok), (2, bytes_of detail)]"

definition Ack_field :: "bool \<times> string \<Rightarrow> u8 \<Rightarrow> bytes \<Rightarrow> go_error + (bool \<times> string)" where
  "Ack_field out fid d =
     (if fid = 1 then Inr (length d = 1 \<and> d ! 0 = 1, snd out)
      else if fid = 2 then Inr (fst out, string_of d)
      else Inr out)"

definition unmarshalAck :: "nanopack \<Rightarrow> string \<Rightarrow> bytes \<Rightarrow> bool \<times> string" where
  "unmarshalAck np short body =
     (case rpc_unmarshal np Ack_field (False, []) Inr body of
        Inl e \<Rightarrow> (False, Error_text short e) | Inr out \<Rightarrow> out)"

record sendReq =
  sr_frame :: bytes
  sr_recipientPub :: bytes
  sr_mailboxID :: bytes
  sr_shardURL :: string

definition sendReq_field :: "sendReq \<Rightarrow> u8 \<Rightarrow> bytes \<Rightarrow> go_error + sendReq" where
  "sendReq_field out fid d =
     (if fid = 1 then Inr (out\<lparr>sr_frame := d\<rparr>)
      else if fid = 2 then Inr (out\<lparr>sr_recipientPub := d\<rparr>)
      else if fid = 4 then Inr (out\<lparr>sr_mailboxID := d\<rparr>)
      else if fid = 5 then Inr (out\<lparr>sr_shardURL := string_of d\<rparr>)
      else Inr out)"

definition unmarshalSend :: "nanopack \<Rightarrow> bytes \<Rightarrow> go_error + sendReq" where
  "unmarshalSend np body =
     rpc_unmarshal np sendReq_field
       \<lparr>sr_frame = [], sr_recipientPub = [], sr_mailboxID = [], sr_shardURL = []\<rparr>
       (\<lambda>out. rpc_check (\<not> (length (sr_frame out) = 0 \<or> length (sr_frame out) > maxFrameBytes))
                ''rpc: frame out of bounds'' out) body"

record attachReq =
  at_mailboxID :: bytes
  at_readSecret :: bytes
  at_shardURL :: string
  at_routerURL :: string

definition attachReq_field :: "attachReq \<Rightarrow> u8 \<Rightarrow> bytes \<Rightarrow> go_error + attachReq" where
  "attachReq_field out fid d =
     (if fid = 1 then Inr (out\<lparr>at_mailboxID := d\<rparr>)
      else if fid = 2 then Inr (out\<lparr>at_readSecret := d\<rparr>)
      else if fid = 3 then Inr (out\<lparr>at_shardURL := string_of d\<rparr>)
      else if fid = 4 then Inr (out\<lparr>at_routerURL := string_of d\<rparr>)
      else Inr out)"

definition unmarshalAttach :: "nanopack \<Rightarrow> bytes \<Rightarrow> go_error + attachReq" where
  "unmarshalAttach np body =
     rpc_unmarshal np attachReq_field
       \<lparr>at_mailboxID = [], at_readSecret = [], at_shardURL = [], at_routerURL = []\<rparr>
       (\<lambda>out. rpc_check (\<not> (length (at_mailboxID out) \<noteq> 16 \<or> length (at_readSecret out) \<noteq> 32
                              \<or> at_shardURL out = [])) ''rpc: bad attach'' out) body"

text \<open>The loop of \<open>unmarshalDetach\<close> returns at the first field with id 1.\<close>

fun detach_loop :: "field list \<Rightarrow> go_error + bytes" where
  "detach_loop [] = Inl (ForeignErr ''rpc: bad detach'')"
| "detach_loop ((fid, d) # fs) =
     (if fid = 1 then (if length d \<noteq> 16 then Inl (ForeignErr ''rpc: bad detach'') else Inr d)
      else detach_loop fs)"

definition unmarshalDetach :: "nanopack \<Rightarrow> bytes \<Rightarrow> go_error + bytes" where
  "unmarshalDetach np body = (case np_decode np body of Inl e \<Rightarrow> Inl e | Inr flds \<Rightarrow> detach_loop flds)"

record pollReq =
  pl_limit :: u8
  pl_mailboxID :: bytes

definition pollReq_field :: "pollReq \<Rightarrow> u8 \<Rightarrow> bytes \<Rightarrow> go_error + pollReq" where
  "pollReq_field out fid d =
     (if fid = 1 then store_field (getU8 d) (\<lambda>v. out\<lparr>pl_limit := v\<rparr>)
      else if fid = 2 then Inr (out\<lparr>pl_mailboxID := d\<rparr>)
      else Inr out)"

definition unmarshalPoll :: "nanopack \<Rightarrow> bytes \<Rightarrow> go_error + pollReq" where
  "unmarshalPoll np body =
     rpc_unmarshal np pollReq_field \<lparr>pl_limit = 0, pl_mailboxID = []\<rparr>
       (\<lambda>out. Inr (if pl_limit out = 0 then out\<lparr>pl_limit := 32\<rparr> else out)) body"

definition poll_blob :: "bytes list \<Rightarrow> bytes" where
  "poll_blob frames = concat (map (\<lambda>f. be32 (word_of_nat (length f)) @ f) frames)"

definition marshalPollResult :: "nanopack \<Rightarrow> bytes list \<Rightarrow> bytes" where
  "marshalPollResult np frames =
     rpc_bytes np [(1, poll_blob frames), (2, be32 (word_of_nat (length frames)))]"

definition marshalStatus :: "nanopack \<Rightarrow> bool \<Rightarrow> string \<Rightarrow> bytes" where
  "marshalStatus np running detail = rpc_bytes np [(1, flag_byte running), (2, bytes_of detail)]"

definition marshalCaps :: "nanopack \<Rightarrow> bytes" where
  "marshalCaps np =
     (let caps = [''message'', ''binary-transfer''];
          blob = concat (map (\<lambda>c. [word_of_nat (length c div 256), word_of_nat (length c)] @ bytes_of c) caps)
      in rpc_bytes np [(1, blob), (2, bytes_of bridgeID), (3, bytes_of bridgeVersion)])"

definition marshal_rpc_error :: "nanopack \<Rightarrow> u32 \<Rightarrow> string \<Rightarrow> bytes" where
  "marshal_rpc_error np code detail = rpc_bytes np [(1, be32 code), (2, bytes_of detail)]"

fun startstop_loop :: "field list \<Rightarrow> go_error + u8" where
  "startstop_loop [] = Inl (ForeignErr ''rpc: missing action'')"
| "startstop_loop ((fid, d) # fs) = (if fid = 1 \<and> length d = 1 then Inr (d ! 0) else startstop_loop fs)"

definition unmarshalStartStop :: "nanopack \<Rightarrow> bytes \<Rightarrow> go_error + u8" where
  "unmarshalStartStop np body = (case np_decode np body of Inl e \<Rightarrow> Inl e | Inr flds \<Rightarrow> startstop_loop flds)"

section \<open>Registration and resolution\<close>

record identityRegisterReq =
  ir_pubkey :: bytes
  ir_timestamp :: u64
  ir_nonce :: bytes
  ir_signature :: bytes
  ir_routerURL :: string

definition identityRegisterReq_field ::
  "identityRegisterReq \<Rightarrow> u8 \<Rightarrow> bytes \<Rightarrow> go_error + identityRegisterReq" where
  "identityRegisterReq_field out fid d =
     (if fid = 1 then Inr (out\<lparr>ir_pubkey := d\<rparr>)
      else if fid = 2 then store_field (getU64 d) (\<lambda>v. out\<lparr>ir_timestamp := v\<rparr>)
      else if fid = 3 then Inr (out\<lparr>ir_nonce := d\<rparr>)
      else if fid = 4 then Inr (out\<lparr>ir_signature := d\<rparr>)
      else if fid = 5 then Inr (out\<lparr>ir_routerURL := string_of d\<rparr>)
      else Inr out)"

definition unmarshalIdentityRegisterReq :: "nanopack \<Rightarrow> bytes \<Rightarrow> go_error + identityRegisterReq" where
  "unmarshalIdentityRegisterReq np body =
     rpc_unmarshal np identityRegisterReq_field
       \<lparr>ir_pubkey = [], ir_timestamp = 0, ir_nonce = [], ir_signature = [], ir_routerURL = []\<rparr>
       (\<lambda>out. rpc_check (\<not> (length (ir_pubkey out) \<noteq> 32 \<or> length (ir_nonce out) \<noteq> 16
                              \<or> length (ir_signature out) \<noteq> 64 \<or> length (ir_routerURL out) > 512))
                ''rpc: bad identity register'' out) body"

record registerReq =
  gq_userTag :: string
  gq_routerURL :: string

definition registerReq_field :: "registerReq \<Rightarrow> u8 \<Rightarrow> bytes \<Rightarrow> go_error + registerReq" where
  "registerReq_field out fid d =
     (if fid = 1 then Inr (out\<lparr>gq_userTag := string_of d\<rparr>)
      else if fid = 2 then Inr (out\<lparr>gq_routerURL := string_of d\<rparr>)
      else Inr out)"

definition unmarshalRegisterReq :: "nanopack \<Rightarrow> bytes \<Rightarrow> go_error + registerReq" where
  "unmarshalRegisterReq np body =
     rpc_unmarshal np registerReq_field \<lparr>gq_userTag = [], gq_routerURL = []\<rparr>
       (\<lambda>out. rpc_check (gq_userTag out \<noteq> []) ''rpc: bad register'' out) body"

definition marshalRegisterResult :: "nanopack \<Rightarrow> bytes \<Rightarrow> bytes \<Rightarrow> string \<Rightarrow> string \<Rightarrow> bytes" where
  "marshalRegisterResult np mailboxID readSecret shardURL routerURL =
     rpc_bytes np [(1, mailboxID), (2, readSecret), (3, bytes_of shardURL), (4, bytes_of routerURL)]"

record registerResult =
  rres_MailboxID :: bytes
  rres_ReadSecret :: bytes
  rres_ShardURL :: string
  rres_RouterURL :: string

definition registerResult_field :: "registerResult \<Rightarrow> u8 \<Rightarrow> bytes \<Rightarrow> go_error + registerResult" where
  "registerResult_field out fid d =
     (if fid = 1 then Inr (out\<lparr>rres_MailboxID := d\<rparr>)
      else if fid = 2 then Inr (out\<lparr>rres_ReadSecret := d\<rparr>)
      else if fid = 3 then Inr (out\<lparr>rres_ShardURL := string_of d\<rparr>)
      else if fid = 4 then Inr (out\<lparr>rres_RouterURL := string_of d\<rparr>)
      else Inr out)"

definition unmarshalRegisterResult :: "nanopack \<Rightarrow> bytes \<Rightarrow> go_error + registerResult" where
  "unmarshalRegisterResult np body =
     rpc_unmarshal np registerResult_field
       \<lparr>rres_MailboxID = [], rres_ReadSecret = [], rres_ShardURL = [], rres_RouterURL = []\<rparr>
       (\<lambda>out. rpc_check (\<not> (length (rres_MailboxID out) \<noteq> 16 \<or> length (rres_ReadSecret out) \<noteq> 32
                              \<or> rres_ShardURL out = [] \<or> rres_RouterURL out = []))
                ''rpc: bad register result'' out) body"

record resolveReq =
  rl_recipientPub :: bytes
  rl_routerURL :: string

definition resolveReq_field :: "resolveReq \<Rightarrow> u8 \<Rightarrow> bytes \<Rightarrow> go_error + resolveReq" where
  "resolveReq_field out fid d =
     (if fid = 1 then Inr (out\<lparr>rl_recipientPub := d\<rparr>)
      else if fid = 2 then Inr (out\<lparr>rl_routerURL := string_of d\<rparr>)
      else Inr out)"

definition unmarshalResolveReq :: "nanopack \<Rightarrow> bytes \<Rightarrow> go_error + resolveReq" where
  "unmarshalResolveReq np body =
     rpc_unmarshal np resolveReq_field \<lparr>rl_recipientPub = [], rl_routerURL = []\<rparr>
       (\<lambda>out. rpc_check (length (rl_recipientPub out) = 32) ''rpc: bad resolve'' out) body"

definition marshalResolveResult :: "nanopack \<Rightarrow> bytes \<Rightarrow> string \<Rightarrow> bytes" where
  "marshalResolveResult np mailboxID shardURL = rpc_bytes np [(1, mailboxID), (2, bytes_of shardURL)]"

section \<open>Transfers\<close>

record xferCreate =
  xc_total :: u64
  xc_chunkSize :: u32
  xc_chunkCount :: u32
  xc_manifest :: bytes
  xc_mailboxID :: bytes
  xc_recipientPub :: bytes
  xc_shardURL :: string

definition xferCreate_field :: "xferCreate \<Rightarrow> u8 \<Rightarrow> bytes \<Rightarrow> go_error + xferCreate" where
  "xferCreate_field out fid d =
     (if fid = 1 then store_field (getU64 d) (\<lambda>v. out\<lparr>xc_total := v\<rparr>)
      else if fid = 2 then store_field (getU32 d) (\<lambda>v. out\<lparr>xc_chunkSize := v\<rparr>)
      else if fid = 3 then store_field (getU32 d) (\<lambda>v. out\<lparr>xc_chunkCount := v\<rparr>)
      else if fid = 4 then Inr (out\<lparr>xc_manifest := d\<rparr>)
      else if fid = 5 then Inr (out\<lparr>xc_mailboxID := d\<rparr>)
      else if fid = 6 then Inr (out\<lparr>xc_recipientPub := d\<rparr>)
      else if fid = 7 then Inr (out\<lparr>xc_shardURL := string_of d\<rparr>)
      else Inr out)"

definition unmarshalXferCreate :: "nanopack \<Rightarrow> bytes \<Rightarrow> go_error + xferCreate" where
  "unmarshalXferCreate np body =
     rpc_unmarshal np xferCreate_field
       \<lparr>xc_total = 0, xc_chunkSize = 0, xc_chunkCount = 0, xc_manifest = [], xc_mailboxID = [],
        xc_recipientPub = [], xc_shardURL = []\<rparr>
       (\<lambda>out. rpc_check (\<not> (xc_total out = 0 \<or> xc_chunkSize out = 0 \<or> xc_chunkCount out = 0))
                ''rpc: bad xfer params'' out) body"

definition marshalXferCreated :: "nanopack \<Rightarrow> bytes \<Rightarrow> bytes \<Rightarrow> string \<Rightarrow> u64 \<Rightarrow> bytes" where
  "marshalXferCreated np transferID downloadSecret shardURL expires =
     rpc_bytes np [(1, transferID), (2, putU64 expires), (3, downloadSecret), (4, bytes_of shardURL)]"

record xferPut =
  xp_transferID :: bytes
  xp_index :: u32
  xp_payload :: bytes
  xp_hash :: bytes
  xp_offset :: u64

definition xferPut_field :: "xferPut \<Rightarrow> u8 \<Rightarrow> bytes \<Rightarrow> go_error + xferPut" where
  "xferPut_field out fid d =
     (if fid = 1 then Inr (out\<lparr>xp_transferID := d\<rparr>)
      else if fid = 2 then store_field (getU32 d) (\<lambda>v. out\<lparr>xp_index := v\<rparr>)
      else if fid = 3 then Inr (out\<lparr>xp_payload := d\<rparr>)
      else if fid = 4 then Inr (out\<lparr>xp_hash := d\<rparr>)
      else if fid = 5 then store_field (getU64 d) (\<lambda>v. out\<lparr>xp_offset := v\<rparr>)
      else Inr out)"

definition unmarshalXferPut :: "nanopack \<Rightarrow> bytes \<Rightarrow> go_error + xferPut" where
  "unmarshalXferPut np body =
     rpc_unmarshal np xferPut_field
       \<lparr>xp_transferID = [], xp_index = 0, xp_payload = [], xp_hash = [], xp_offset = 0\<rparr>
       (\<lambda>out. rpc_check (\<not> (length (xp_transferID out) \<noteq> 16 \<or> length (xp_payload out) = 0
                              \<or> length (xp_hash out) \<noteq> 32)) ''rpc: bad chunk'' out) body"

definition marshalXferProgress :: "nanopack \<Rightarrow> u32 \<Rightarrow> u32 \<Rightarrow> bytes \<Rightarrow> bytes \<Rightarrow> u8 \<Rightarrow> bytes" where
  "marshalXferProgress np highest count missing bitmap encoding =
     rpc_bytes np [(1, putU32 highest), (2, missing), (3, bitmap), (4, [encoding]), (5, putU32 count)]"

text \<open>Exactly one way to authorise a read: mailbox with its secret, or a ticket.\<close>

definition checkResumeAuth :: "bytes \<Rightarrow> bytes \<Rightarrow> bytes \<Rightarrow> string option" where
  "checkResumeAuth mailboxID readSecret ticket =
     (if length ticket = 32 then
        (if length mailboxID \<noteq> 0 \<or> length readSecret \<noteq> 0 then
           Some ''rpc: ticket mode: mailbox and read_secret must be empty'' else None)
      else if length ticket \<noteq> 0 then Some ''rpc: ticket must be 32 bytes''
      else if length mailboxID \<noteq> 16 \<or> length readSecret \<noteq> 32 then Some ''rpc: bad resume''
      else None)"

record xferResume =
  xr_transferID :: bytes
  xr_mailboxID :: bytes
  xr_readSecret :: bytes
  xr_ticket :: bytes
  xr_shardURL :: string

definition xferResume_field :: "xferResume \<Rightarrow> u8 \<Rightarrow> bytes \<Rightarrow> go_error + xferResume" where
  "xferResume_field out fid d =
     (if fid = 1 then Inr (out\<lparr>xr_transferID := d\<rparr>)
      else if fid = 2 then Inr (out\<lparr>xr_mailboxID := d\<rparr>)
      else if fid = 3 then Inr (out\<lparr>xr_readSecret := d\<rparr>)
      else if fid = 4 then Inr (out\<lparr>xr_ticket := d\<rparr>)
      else if fid = 5 then Inr (out\<lparr>xr_shardURL := string_of d\<rparr>)
      else Inr out)"

definition unmarshalXferResume :: "nanopack \<Rightarrow> bytes \<Rightarrow> go_error + xferResume" where
  "unmarshalXferResume np body =
     rpc_unmarshal np xferResume_field
       \<lparr>xr_transferID = [], xr_mailboxID = [], xr_readSecret = [], xr_ticket = [], xr_shardURL = []\<rparr>
       (\<lambda>out. if length (xr_transferID out) \<noteq> 16 then Inl (ForeignErr ''rpc: bad resume'')
              else (case checkResumeAuth (xr_mailboxID out) (xr_readSecret out) (xr_ticket out) of
                      Some e \<Rightarrow> Inl (ForeignErr e) | None \<Rightarrow> Inr out)) body"

record xferGet =
  xg_transferID :: bytes
  xg_index :: u32
  xg_mailboxID :: bytes
  xg_readSecret :: bytes
  xg_ticket :: bytes
  xg_shardURL :: string

definition xferGet_field :: "xferGet \<Rightarrow> u8 \<Rightarrow> bytes \<Rightarrow> go_error + xferGet" where
  "xferGet_field out fid d =
     (if fid = 1 then Inr (out\<lparr>xg_transferID := d\<rparr>)
      else if fid = 2 then store_field (getU32 d) (\<lambda>v. out\<lparr>xg_index := v\<rparr>)
      else if fid = 3 then Inr (out\<lparr>xg_mailboxID := d\<rparr>)
      else if fid = 4 then Inr (out\<lparr>xg_readSecret := d\<rparr>)
      else if fid = 5 then Inr (out\<lparr>xg_ticket := d\<rparr>)
      else if fid = 6 then Inr (out\<lparr>xg_shardURL := string_of d\<rparr>)
      else Inr out)"

definition unmarshalXferGet :: "nanopack \<Rightarrow> bytes \<Rightarrow> go_error + xferGet" where
  "unmarshalXferGet np body =
     rpc_unmarshal np xferGet_field
       \<lparr>xg_transferID = [], xg_index = 0, xg_mailboxID = [], xg_readSecret = [], xg_ticket = [],
        xg_shardURL = []\<rparr>
       (\<lambda>out. if length (xg_transferID out) \<noteq> 16 then Inl (ForeignErr ''rpc: bad get'')
              else (case checkResumeAuth (xg_mailboxID out) (xg_readSecret out) (xg_ticket out) of
                      Some e \<Rightarrow> Inl (ForeignErr (''rpc: bad get: '' @ e)) | None \<Rightarrow> Inr out)) body"

definition marshalXferChunk :: "nanopack \<Rightarrow> bytes \<Rightarrow> bytes \<Rightarrow> bytes" where
  "marshalXferChunk np payload hash = rpc_bytes np [(1, payload), (2, hash)]"

record xferComplete =
  xf_transferID :: bytes
  xf_manifestHash :: bytes

definition xferComplete_field :: "xferComplete \<Rightarrow> u8 \<Rightarrow> bytes \<Rightarrow> go_error + xferComplete" where
  "xferComplete_field out fid d =
     (if fid = 1 then Inr (out\<lparr>xf_transferID := d\<rparr>)
      else if fid = 2 then Inr (out\<lparr>xf_manifestHash := d\<rparr>)
      else Inr out)"

definition unmarshalXferComplete :: "nanopack \<Rightarrow> bytes \<Rightarrow> go_error + xferComplete" where
  "unmarshalXferComplete np body =
     rpc_unmarshal np xferComplete_field \<lparr>xf_transferID = [], xf_manifestHash = []\<rparr>
       (\<lambda>out. rpc_check (\<not> (length (xf_transferID out) \<noteq> 16 \<or> length (xf_manifestHash out) \<noteq> 32))
                ''rpc: bad complete'' out) body"

record xferCancel =
  xl_transferID :: bytes
  xl_mailboxID :: bytes
  xl_readSecret :: bytes

definition xferCancel_field :: "xferCancel \<Rightarrow> u8 \<Rightarrow> bytes \<Rightarrow> go_error + xferCancel" where
  "xferCancel_field out fid d =
     (if fid = 1 then Inr (out\<lparr>xl_transferID := d\<rparr>)
      else if fid = 2 then Inr (out\<lparr>xl_mailboxID := d\<rparr>)
      else if fid = 3 then Inr (out\<lparr>xl_readSecret := d\<rparr>)
      else Inr out)"

definition unmarshalXferCancel :: "nanopack \<Rightarrow> bytes \<Rightarrow> go_error + xferCancel" where
  "unmarshalXferCancel np body =
     rpc_unmarshal np xferCancel_field \<lparr>xl_transferID = [], xl_mailboxID = [], xl_readSecret = []\<rparr>
       (\<lambda>out. rpc_check (\<not> (length (xl_transferID out) \<noteq> 16 \<or> length (xl_mailboxID out) \<noteq> 16
                              \<or> length (xl_readSecret out) \<noteq> 32)) ''rpc: bad cancel'' out) body"

section \<open>Round trips\<close>

lemma flag_byte_nth [simp]: "length (flag_byte b) = 1" "flag_byte b ! 0 = 1 \<longleftrightarrow> b" "flag_byte b = [1] \<longleftrightarrow> b"
  by (simp_all add: flag_byte_def)

context nanopack_codec
begin

lemma rpc_roundtrip:
  "np_bytes np fs = Inr body \<Longrightarrow>
   rpc_unmarshal np step zero finish body
     = (case run_fields step zero fs of Inl e \<Rightarrow> Inl e | Inr s \<Rightarrow> finish s)"
  using np_roundtrip [of fs body] by (simp add: rpc_unmarshal_def)

lemma envelope_rt:
  assumes "marshalEnvelope np rpcop reqID payload = Inr body" "length payload < 2097000"
  shows "unmarshalEnvelope np body = Inr \<lparr>en_op = rpcop, en_reqID = reqID, en_payload = payload\<rparr>"
proof -
  have body: "np_bytes np [(1, [rpcop]), (2, putU32 reqID), (3, payload)] = Inr body"
    using assms(1) by (simp add: marshalEnvelope_def)
  have "length body \<le> 2097152"
    using np_size [OF body] assms(2) uleb_size_small(3) [of "length payload"]
    by (simp add: uleb_size_small(1))
  then show ?thesis
    using bytes_nonempty [OF body]
    by (simp add: unmarshalEnvelope_def rpc_roundtrip [OF body] envelope_field_def)
qed

lemma register_result_rt:
  assumes "np_bytes np [(1, mid), (2, secret), (3, bytes_of url), (4, bytes_of router)] = Inr body"
    and "length mid = 16" "length secret = 32" "url \<noteq> []" "router \<noteq> []"
  shows "unmarshalRegisterResult np (marshalRegisterResult np mid secret url router) = Inr
     \<lparr>rres_MailboxID = mid, rres_ReadSecret = secret, rres_ShardURL = url, rres_RouterURL = router\<rparr>"
  using assms(2-)
  by (simp add: marshalRegisterResult_def rpc_bytes_def assms(1) unmarshalRegisterResult_def
      rpc_roundtrip [OF assms(1)] registerResult_field_def rpc_check_def)

lemma ack_rt:
  assumes "np_bytes np [(1, flag_byte ok), (2, bytes_of detail)] = Inr body"
  shows "unmarshalAck np short (marshalAck np ok detail) = (ok, detail)"
  by (simp add: marshalAck_def rpc_bytes_def assms unmarshalAck_def rpc_roundtrip [OF assms] Ack_field_def)

end

text \<open>The blob of a poll result determines the frames.\<close>

fun read_frames :: "nat \<Rightarrow> bytes \<Rightarrow> bytes list option" where
  "read_frames 0 blob = (if blob = [] then Some [] else None)"
| "read_frames (Suc k) blob =
     (if length blob < 4 then None
      else
        let n = unat (get32 (take 4 blob)); rest = drop 4 blob in
        if length rest < n then None
        else map_option (\<lambda>fs. take n rest # fs) (read_frames k (drop n rest)))"

lemma read_frames_blob:
  "\<forall>f \<in> set frames. length f < 2 ^ 32 \<Longrightarrow> read_frames (length frames) (poll_blob frames) = Some frames"
  by (induction frames) (auto simp: poll_blob_def Let_def unat_of_nat)

end
