(* ===== verification/Bridge.thy ===== *)
theory Bridge
  imports Bridge_Rpc Handler_Monad Client Wire_Control Wire_Transfers
begin

text \<open>
  The courier bridge (\<open>transports/filerelay/bridge/main.go\<close> and \<open>xfer.go\<close>): the process NexTalk talks
  to over its standard streams, which forwards opaque frames and file chunks to routers and shards.

  A \<open>session\<close> is the state of the process (\<open>bridge\<close>), of its directory (\<open>disk\<close>) and of the network behind
  it, of any type \<open>'w\<close>; \<open>ho_http\<close> posts a body to a URL and gives the status and body of the response, or
  the text of an error. The serialisation library, Ed25519 signing, JSON decoding and the text of the
  library's error are the other components of \<open>host\<close>. What one request draws from outside (clock, nonce,
  generated key, failures of the file system) is its \<open>draws\<close>. The file \<open>transfers.json\<close> is its decoded
  content. The order of a Go map is the order of the association list that models it, so a statement for
  all states covers every order. The locks make no difference: requests are served one at a time.
\<close>

abbreviation (input) errUnsupported :: u32 where "errUnsupported \<equiv> 2"
abbreviation (input) errNotReady :: u32 where "errNotReady \<equiv> 3"
abbreviation (input) errTransport :: u32 where "errTransport \<equiv> 4"

section \<open>State\<close>

record mailbox =
  bm_readSecret :: bytes
  bm_shardURL :: string
  bm_routerURL :: string

record transferBind =
  tb_MailboxID :: bytes
  tb_ShardURL :: string
  tb_ChunkCount :: u32

record xferState =
  xs_scoped :: "(string \<times> bytes) list"
  xs_transfers :: "(string \<times> transferBind) list"

record bridge =
  br_running :: bool
  br_courierPriv :: bytes
  br_mailboxes :: "(bytes \<times> mailbox) list"
  br_routerURL :: string
  br_xfer :: xferState

record bridgeConfig =
  bc_RouterURL :: string
  bc_ShardURL :: string

record disk =
  dk_keys :: "(string \<times> bytes) list"
  dk_transfers :: "(string \<times> transferBind) list option"

record 'w session =
  ss_bridge :: bridge
  ss_disk :: disk
  ss_net :: 'w

record 'w host =
  ho_np :: nanopack
  ho_short :: string
  ho_sign :: "bytes \<Rightarrow> bytes \<Rightarrow> bytes"
  ho_json :: "bytes \<Rightarrow> bridgeConfig option"
  ho_http :: "string \<Rightarrow> bytes \<Rightarrow> 'w \<Rightarrow> (string + int \<times> bytes) \<times> 'w"

record draws =
  dr_now :: int
  dr_nonce :: "string + bytes"
  dr_key :: "string + bytes"
  dr_readErr :: "string \<Rightarrow> string option"
  dr_writeErr :: "string \<Rightarrow> string option"

type_synonym ('w, 'a) call = "('w session, string, 'a) step"

definition on_bridge :: "(bridge \<Rightarrow> bridge) \<Rightarrow> 'w session \<Rightarrow> 'w session" where
  "on_bridge f s = s\<lparr>ss_bridge := f (ss_bridge s)\<rparr>"

definition newXferState :: xferState where
  "newXferState = \<lparr>xs_scoped = [], xs_transfers = []\<rparr>"

text \<open>The bridge \<open>main\<close> starts with, before its courier key is loaded.\<close>

definition new_bridge :: bridge where
  "new_bridge = \<lparr>br_running = False, br_courierPriv = [], br_mailboxes = [], br_routerURL = [],
     br_xfer = newXferState\<rparr>"

text \<open>\<open>ed25519.PrivateKey.Public\<close>: the second half of the 64 bytes.\<close>

definition Public :: "bytes \<Rightarrow> bytes" where "Public priv = drop 32 priv"

text \<open>\<open>if err != nil { return err }\<close> after a codec, with the text of the error.\<close>

definition decoded :: "'w host \<Rightarrow> go_error + 'a \<Rightarrow> ('s, string, 'a) step" where
  "decoded ho r = (case r of Inl e \<Rightarrow> hfail (Error_text (ho_short ho) e) | Inr x \<Rightarrow> hreturn x)"

definition drawn :: "string + 'a \<Rightarrow> ('s, string, 'a) step" where
  "drawn r = (case r of Inl e \<Rightarrow> hfail e | Inr x \<Rightarrow> hreturn x)"

definition look :: "('s \<Rightarrow> 'a) \<Rightarrow> ('s, 'e, 'a) step" where
  "look f s = (Inr (f s), s)"

lemma step_Inr [simp]:
  "decoded ho r s = (Inr x, s') \<longleftrightarrow> r = Inr x \<and> s' = s"
  "drawn d s = (Inr y, s') \<longleftrightarrow> d = Inr y \<and> s' = s"
  "look f s = (Inr z, s') \<longleftrightarrow> z = f s \<and> s' = s"
  by (auto simp: decoded_def drawn_def look_def split: sum.splits)

section \<open>Keys\<close>

definition tag_char :: "char \<Rightarrow> bool" where
  "tag_char c \<longleftrightarrow> (97 \<le> (of_char c :: nat) \<and> (of_char c :: nat) \<le> 122) \<or> (48 \<le> (of_char c :: nat) \<and> (of_char c :: nat) \<le> 57)"

text \<open>\<open>^[a-z0-9][a-z0-9-]{0,63}$\<close>\<close>

definition tagRe :: "string \<Rightarrow> bool" where
  "tagRe s \<longleftrightarrow> s \<noteq> [] \<and> tag_char (hd s) \<and> (\<forall>c \<in> set (tl s). tag_char c \<or> c = CHR ''-'') \<and> length (tl s) \<le> 63"

definition loadOrCreateCourierKey :: "draws \<Rightarrow> ('w, unit) call" where
  "loadOrCreateCourierKey dr s =
     (let name = ''courier.key''; set_key = (\<lambda>k. on_bridge (\<lambda>b. b\<lparr>br_courierPriv := k\<rparr>)) in
      case dr_readErr dr name of
        Some e \<Rightarrow> (Inl e, s)
      | None \<Rightarrow>
          (case map_of (dk_keys (ss_disk s)) name of
             Some raw \<Rightarrow>
               if length raw = 64 then (Inr (), set_key raw s)
               else (Inl (''bad courier.key length '' @ decimal (length raw)), s)
           | None \<Rightarrow>
               (case dr_key dr of
                  Inl e \<Rightarrow> (Inl e, s)
                | Inr priv \<Rightarrow>
                    (case dr_writeErr dr name of
                       Some e \<Rightarrow> (Inl e, s)
                     | None \<Rightarrow> (Inr (), set_key priv
                         (s\<lparr>ss_disk := (ss_disk s)\<lparr>dk_keys := AList.update name priv (dk_keys (ss_disk s))\<rparr>\<rparr>))))))"

definition remember_key :: "string \<Rightarrow> bytes \<Rightarrow> bridge \<Rightarrow> bridge" where
  "remember_key userTag k b =
     b\<lparr>br_xfer := (br_xfer b)\<lparr>xs_scoped := AList.update userTag k (xs_scoped (br_xfer b))\<rparr>\<rparr>"

definition scopedKey :: "draws \<Rightarrow> string \<Rightarrow> ('w, bytes) call" where
  "scopedKey dr userTag s =
     (if \<not> tagRe userTag then (Inl ''bad user tag'', s)
      else
        (case map_of (xs_scoped (br_xfer (ss_bridge s))) userTag of
           Some k \<Rightarrow> (Inr k, s)
         | None \<Rightarrow>
             let path = ''scoped-'' @ userTag @ ''.key'' in
             (case dr_readErr dr path of
                Some e \<Rightarrow> (Inl e, s)
              | None \<Rightarrow>
                  (case map_of (dk_keys (ss_disk s)) path of
                     Some raw \<Rightarrow>
                       if length raw = 64 then (Inr raw, on_bridge (remember_key userTag raw) s)
                       else (Inl ''bad scoped key file'', s)
                   | None \<Rightarrow>
                       (case dr_key dr of
                          Inl e \<Rightarrow> (Inl e, s)
                        | Inr priv \<Rightarrow>
                            (case dr_writeErr dr path of
                               Some e \<Rightarrow> (Inl e, s)
                             | None \<Rightarrow> (Inr priv, on_bridge (remember_key userTag priv)
                                 (s\<lparr>ss_disk := (ss_disk s)\<lparr>dk_keys :=
                                      AList.update path priv (dk_keys (ss_disk s))\<rparr>\<rparr>))))))))"

section \<open>HTTP\<close>

definition apiPrefix :: string where [simp]: "apiPrefix = ''/fr/v1''"

definition has_suffix :: "string \<Rightarrow> string \<Rightarrow> bool" where
  "has_suffix s suf \<longleftrightarrow> length suf \<le> length s \<and> drop (length s - length suf) s = suf"

definition has_prefix :: "string \<Rightarrow> string \<Rightarrow> bool" where
  "has_prefix s pre \<longleftrightarrow> take (length pre) s = pre"

definition bridge_joinURL :: "string \<Rightarrow> string \<Rightarrow> string" where
  "bridge_joinURL base route =
     (let base = TrimRight_slash base;
          route = (if \<not> has_prefix route ''/'' then ''/'' @ route else route) in
      if has_suffix base apiPrefix \<and> (route = apiPrefix \<or> has_prefix route (apiPrefix @ ''/''))
      then base @ drop (length apiPrefix) route
      else base @ route)"

text \<open>The body of a response is read up to 2 MiB.\<close>

definition postBinary :: "'w host \<Rightarrow> string \<Rightarrow> bytes \<Rightarrow> ('w, string + int \<times> bytes) call" where
  "postBinary ho url body s =
     (case ho_http ho url body (ss_net s) of
        (Inl e, w) \<Rightarrow> (Inr (Inl e), s\<lparr>ss_net := w\<rparr>)
      | (Inr (st, raw), w) \<Rightarrow> (Inr (Inr (st, take 2097152 raw)), s\<lparr>ss_net := w\<rparr>))"

definition error_detail :: "nanopack \<Rightarrow> bytes \<Rightarrow> string option" where
  "error_detail np raw = (case UnmarshalError np raw of Inl e \<Rightarrow> None | Inr pe \<Rightarrow> Some (Detail pe))"

definition resolve :: "'w host \<Rightarrow> bytes \<Rightarrow> string \<Rightarrow> ('w, bytes \<times> string) call" where
  "resolve ho recipientPub routerURL =
     hbind (decoded ho (MarshalResolve (ho_np ho) recipientPub)) (\<lambda>body.
     hbind (postBinary ho (bridge_joinURL routerURL RouteResolve) body) (\<lambda>r.
     hbind (drawn r) (\<lambda>(st, raw).
     hbind (hrequire (st = 200) (''resolve http '' @ decimal_int st)) (\<lambda>_.
     hbind (decoded ho (UnmarshalResolveResponse (ho_np ho) raw)) (\<lambda>res.
     hreturn (copy_array 16 (rv_MailboxID res), rv_ShardURL res))))))"

definition courier_message :: "'w host \<Rightarrow> bytes \<Rightarrow> bytes \<Rightarrow> u64 \<Rightarrow> bytes \<Rightarrow> bytes \<Rightarrow> SendMessage" where
  "courier_message ho priv nonce ts mailboxID frame =
     \<lparr>sm_MailboxID = mailboxID, sm_Envelope = frame, sm_SenderPub = Public priv, sm_Timestamp = ts,
      sm_Nonce = nonce,
      sm_Signature = ho_sign ho priv (CanonicalMsgSend (copy_array 32 (Public priv)) mailboxID ts nonce frame),
      sm_TTLHintSec = word_of_int MsgTTLSeconds, sm_Burn = 1\<rparr>"

definition postMessage :: "'w host \<Rightarrow> draws \<Rightarrow> string \<Rightarrow> bytes \<Rightarrow> bytes \<Rightarrow> ('w, unit) call" where
  "postMessage ho dr shardURL mailboxID frame =
     hbind (look (\<lambda>s. br_courierPriv (ss_bridge s))) (\<lambda>priv.
     hbind (drawn (dr_nonce dr)) (\<lambda>nonce.
     hbind (decoded ho (MarshalSendMessage (ho_np ho)
              (courier_message ho priv nonce (u64_of_int64 (dr_now dr)) mailboxID frame))) (\<lambda>body.
     hbind (postBinary ho (bridge_joinURL shardURL RouteSend) body) (\<lambda>r.
     hbind (drawn r) (\<lambda>(st, raw).
     if st \<noteq> 200 then
       hfail (case error_detail (ho_np ho) raw of
                Some detail \<Rightarrow> ''send: '' @ detail | None \<Rightarrow> ''send http '' @ decimal_int st)
     else hreturn ())))))"

definition fetchBatch :: "'w host \<Rightarrow> string \<Rightarrow> bytes \<Rightarrow> bytes \<Rightarrow> int \<Rightarrow> ('w, bytes list) call" where
  "fetchBatch ho shardURL mailboxID readSecret limit =
     (let limit = (if limit \<le> 0 then 32 else limit);
          limit = (if limit > 32 then 32 else limit) in
     hbind (decoded ho (MarshalReceiveMessages (ho_np ho)
              \<lparr>rcv_MailboxID = mailboxID, rcv_ReadSecret = readSecret, rcv_Limit = word_of_int limit,
               rcv_Peek = 0\<rparr>)) (\<lambda>body.
     hbind (postBinary ho (bridge_joinURL shardURL RouteReceive) body) (\<lambda>r.
     hbind (drawn r) (\<lambda>(st, raw).
     if st \<noteq> 200 then
       hfail (case error_detail (ho_np ho) raw of
                Some detail \<Rightarrow> ''receive: '' @ detail | None \<Rightarrow> ''receive http '' @ decimal_int st)
     else
       hbind (decoded ho (UnmarshalReceiveMessagesResponse (ho_np ho) raw)) (\<lambda>res.
       hreturn (map rm_Envelope (rmr_Messages res)))))))"

end
