(* ===== verification/Bridge_Ops.thy ===== *)
theory Bridge_Ops
  imports Bridge
begin

text \<open>
  The operations of the courier bridge, one definition per handler of \<open>bridge/main.go\<close> and \<open>xfer.go\<close>,
  the dispatcher and the loop over the standard streams. A handler is a \<open>call\<close>, which fails with the text
  of a transport error; \<open>answer\<close> turns its outcome into the operation code and payload of the response.
\<close>

definition requireRunning :: "('w session, u32 \<times> string, unit) step" where
  "requireRunning s = hrequire (br_running (ss_bridge s)) (errNotReady, ''not started'') s"

text \<open>An error of the handler's own steps is a transport error.\<close>

definition transport :: "('w, 'a) call \<Rightarrow> ('w session, u32 \<times> string, 'a) step" where
  "transport m s = (case m s of (Inl e, s') \<Rightarrow> (Inl (errTransport, e), s') | (Inr x, s') \<Rightarrow> (Inr x, s'))"

definition answer ::
  "nanopack \<Rightarrow> ('w session, u32 \<times> string, u8 \<times> bytes) step \<Rightarrow> 'w session \<Rightarrow> (u8 \<times> bytes) \<times> 'w session" where
  "answer np m s =
     (case m s of
        (Inl (code, detail), s') \<Rightarrow> ((opError, marshal_rpc_error np code detail), s')
      | (Inr r, s') \<Rightarrow> (r, s'))"

section \<open>Session\<close>

definition onInitialize :: "'w host \<Rightarrow> bytes \<Rightarrow> 'w session \<Rightarrow> bytes \<times> 'w session" where
  "onInitialize ho payload s =
     (let result = (\<lambda>ok detail. marshalInitResult (ho_np ho) ok detail transportAPIVer) in
      case unmarshalInitialize (ho_np ho) payload of
        Inl e \<Rightarrow> (result False (Error_text (ho_short ho) e), s)
      | Inr ini \<Rightarrow>
          if in_transportID ini \<noteq> bridgeID then (result False ''transport id mismatch'', s)
          else if in_apiVersion ini \<noteq> transportAPIVer then (result False ''api version mismatch'', s)
          else
            (result True [],
             if length (in_config ini) > 0 then
               (case ho_json ho (in_config ini) of
                  None \<Rightarrow> s
                | Some cfg \<Rightarrow> on_bridge (\<lambda>b. b\<lparr>br_routerURL := bc_RouterURL cfg\<rparr>) s)
             else s))"

definition onStartStop :: "'w host \<Rightarrow> bytes \<Rightarrow> ('w, u8 \<times> bytes) call" where
  "onStartStop ho payload =
     hbind (decoded ho (unmarshalStartStop (ho_np ho) payload)) (\<lambda>action s.
       (Inr (opStartStop, marshalAck (ho_np ho) True []),
        on_bridge (\<lambda>b. b\<lparr>br_running := (action = actionStart)\<rparr>) s))"

text \<open>The configured router, or the first one an attached mailbox names.\<close>

definition effectiveRouter :: "bridge \<Rightarrow> string" where
  "effectiveRouter b =
     (if br_routerURL b \<noteq> [] then br_routerURL b
      else (case find (\<lambda>(mid, mb). bm_routerURL mb \<noteq> []) (br_mailboxes b) of
              None \<Rightarrow> [] | Some (mid, mb) \<Rightarrow> bm_routerURL mb))"

definition router_or :: "string \<Rightarrow> string \<Rightarrow> ('w, string) call" where
  "router_or given missing s =
     (let url = (if given = [] then effectiveRouter (ss_bridge s) else given) in
      hbind (hrequire (url \<noteq> []) missing) (\<lambda>_. hreturn url) s)"

definition onSend :: "'w host \<Rightarrow> draws \<Rightarrow> bytes \<Rightarrow> ('w session, u32 \<times> string, u8 \<times> bytes) step" where
  "onSend ho dr payload =
     hbind requireRunning (\<lambda>_. transport (
     hbind (decoded ho (unmarshalSend (ho_np ho) payload)) (\<lambda>req.
     hbind (if length (sr_mailboxID req) = 16 \<and> sr_shardURL req \<noteq> []
            then hreturn (copy_array 16 (sr_mailboxID req), sr_shardURL req)
            else
              hbind (hrequire (length (sr_recipientPub req) = 32) ''recipient_pub must be 32 bytes'') (\<lambda>_.
              hbind (router_or [] ''no router_url: pass via initialize config or attach first'') (\<lambda>routerURL.
              resolve ho (sr_recipientPub req) routerURL))) (\<lambda>(mailboxID, shardURL).
     hbind (postMessage ho dr shardURL mailboxID (sr_frame req)) (\<lambda>_.
     hreturn (opSend, marshalAck (ho_np ho) True []))))))"

definition attach_mailbox :: "attachReq \<Rightarrow> bridge \<Rightarrow> bridge" where
  "attach_mailbox req b =
     (let b = b\<lparr>br_mailboxes := AList.update (at_mailboxID req)
                  \<lparr>bm_readSecret = at_readSecret req, bm_shardURL = at_shardURL req,
                   bm_routerURL = at_routerURL req\<rparr> (br_mailboxes b)\<rparr>
      in if br_routerURL b = [] \<and> at_routerURL req \<noteq> [] then b\<lparr>br_routerURL := at_routerURL req\<rparr> else b)"

definition onAttach :: "'w host \<Rightarrow> bytes \<Rightarrow> ('w session, u32 \<times> string, u8 \<times> bytes) step" where
  "onAttach ho payload =
     hbind requireRunning (\<lambda>_. transport (
     hbind (decoded ho (unmarshalAttach (ho_np ho) payload)) (\<lambda>req s.
       (Inr (opAttach, marshalAck (ho_np ho) True []), on_bridge (attach_mailbox req) s))))"

definition onDetach :: "'w host \<Rightarrow> bytes \<Rightarrow> ('w, u8 \<times> bytes) call" where
  "onDetach ho payload =
     hbind (decoded ho (unmarshalDetach (ho_np ho) payload)) (\<lambda>mid s.
       (Inr (opDetach, marshalAck (ho_np ho) True []),
        on_bridge (\<lambda>b. b\<lparr>br_mailboxes := AList.delete mid (br_mailboxes b)\<rparr>) s))"

definition poll_targets :: "pollReq \<Rightarrow> bridge \<Rightarrow> (bytes \<times> mailbox) list" where
  "poll_targets req b =
     (if length (pl_mailboxID req) = 16 then
        (case map_of (br_mailboxes b) (pl_mailboxID req) of
           Some mb \<Rightarrow> [(pl_mailboxID req, mb)] | None \<Rightarrow> [])
      else br_mailboxes b)"

fun poll_loop :: "'w host \<Rightarrow> nat \<Rightarrow> (bytes \<times> mailbox) list \<Rightarrow> bytes list \<Rightarrow> ('w, bytes list) call" where
  "poll_loop ho limit [] frames = hreturn frames"
| "poll_loop ho limit ((mid, mb) # targets) frames =
     (if length frames \<ge> limit then hreturn frames
      else
        hbind (fetchBatch ho (bm_shardURL mb) mid (bm_readSecret mb) (int limit - int (length frames)))
          (\<lambda>got. poll_loop ho limit targets (frames @ got)))"

definition onPoll :: "'w host \<Rightarrow> bytes \<Rightarrow> ('w session, u32 \<times> string, u8 \<times> bytes) step" where
  "onPoll ho payload =
     hbind requireRunning (\<lambda>_. transport (
     hbind (decoded ho (unmarshalPoll (ho_np ho) payload)) (\<lambda>req.
     hbind (look (\<lambda>s. poll_targets req (ss_bridge s))) (\<lambda>targets.
     hbind (poll_loop ho (unat (pl_limit req)) targets []) (\<lambda>frames.
     hreturn (opPoll, marshalPollResult (ho_np ho) frames))))))"

section \<open>Registration and resolution\<close>

definition xferHTTPError :: "nanopack \<Rightarrow> string \<Rightarrow> string + int \<times> bytes \<Rightarrow> string" where
  "xferHTTPError np what r =
     (case r of
        Inl e \<Rightarrow> what @ '': '' @ e
      | Inr (st, raw) \<Rightarrow>
          (case error_detail np raw of
             Some detail \<Rightarrow> what @ '': '' @ detail
           | None \<Rightarrow> what @ '': http '' @ decimal_int st))"

text \<open>\<open>st, raw, err := b.postBinary(...); if err != nil || st != 200 { return opError, ... }\<close>\<close>

definition post_ok :: "'w host \<Rightarrow> string \<Rightarrow> string \<Rightarrow> bytes \<Rightarrow> ('w, bytes) call" where
  "post_ok ho what url body =
     hbind (postBinary ho url body) (\<lambda>r.
     (case r of
        Inr (st, raw) \<Rightarrow> if st = 200 then hreturn raw else hfail (xferHTTPError (ho_np ho) what r)
      | Inl e \<Rightarrow> hfail (xferHTTPError (ho_np ho) what r)))"

definition onIdentityRegister :: "'w host \<Rightarrow> bytes \<Rightarrow> ('w, u8 \<times> bytes) call" where
  "onIdentityRegister ho payload =
     (let np = ho_np ho in
     hbind (decoded ho (unmarshalIdentityRegisterReq np payload)) (\<lambda>req.
     hbind (router_or (ir_routerURL req) ''no router_url'') (\<lambda>routerURL.
     hbind (decoded ho (MarshalRegister np
              \<lparr>rg_ClientPub = ir_pubkey req, rg_Timestamp = ir_timestamp req, rg_Nonce = ir_nonce req,
               rg_Signature = ir_signature req\<rparr>)) (\<lambda>body.
     hbind (post_ok ho ''identity register'' (bridge_joinURL routerURL RouteRegister) body) (\<lambda>raw.
     hbind (decoded ho (UnmarshalRegisterResponse np raw)) (\<lambda>res.
     hreturn (opIdentityRegister,
       marshalRegisterResult np (rr_MailboxID res) (rr_ReadSecret res) (rr_ShardURL res) routerURL)))))))"

definition onRegister :: "'w host \<Rightarrow> draws \<Rightarrow> bytes \<Rightarrow> ('w, u8 \<times> bytes) call" where
  "onRegister ho dr payload =
     (let np = ho_np ho; ts = u64_of_int64 (dr_now dr) in
     hbind (decoded ho (unmarshalRegisterReq np payload)) (\<lambda>req.
     hbind (router_or (gq_routerURL req) ''no router_url'') (\<lambda>routerURL.
     hbind (scopedKey dr (gq_userTag req)) (\<lambda>priv.
     hbind (drawn (dr_nonce dr)) (\<lambda>nonce.
     hbind (decoded ho (MarshalRegister np
              \<lparr>rg_ClientPub = Public priv, rg_Timestamp = ts, rg_Nonce = nonce,
               rg_Signature = ho_sign ho priv (CanonicalRegister (copy_array 32 (Public priv)) ts nonce)\<rparr>)) (\<lambda>body.
     hbind (post_ok ho ''register'' (bridge_joinURL routerURL RouteRegister) body) (\<lambda>raw.
     hbind (decoded ho (UnmarshalRegisterResponse np raw)) (\<lambda>res.
     hreturn (opRegister,
       marshalRegisterResult np (rr_MailboxID res) (rr_ReadSecret res) (rr_ShardURL res) routerURL)))))))))"

definition onResolve :: "'w host \<Rightarrow> bytes \<Rightarrow> ('w, u8 \<times> bytes) call" where
  "onResolve ho payload =
     hbind (decoded ho (unmarshalResolveReq (ho_np ho) payload)) (\<lambda>req.
     hbind (router_or (rl_routerURL req) ''no router_url'') (\<lambda>routerURL.
     hbind (resolve ho (rl_recipientPub req) routerURL) (\<lambda>(mid, shard).
     hreturn (opResolve, marshalResolveResult (ho_np ho) mid shard))))"

section \<open>Transfers\<close>

definition bind_transfer :: "string \<Rightarrow> transferBind \<Rightarrow> bridge \<Rightarrow> bridge" where
  "bind_transfer key tb b =
     b\<lparr>br_xfer := (br_xfer b)\<lparr>xs_transfers := AList.update key tb (xs_transfers (br_xfer b))\<rparr>\<rparr>"

definition saveBindings :: "draws \<Rightarrow> 'w session \<Rightarrow> 'w session" where
  "saveBindings dr s =
     (case dr_writeErr dr ''transfers.json'' of
        Some e \<Rightarrow> s
      | None \<Rightarrow> s\<lparr>ss_disk := (ss_disk s)\<lparr>dk_transfers := Some (xs_transfers (br_xfer (ss_bridge s)))\<rparr>\<rparr>)"

definition bindFor :: "draws \<Rightarrow> bytes \<Rightarrow> 'w session \<Rightarrow> transferBind option \<times> 'w session" where
  "bindFor dr transferID s =
     (let key = hex_encode transferID in
      case map_of (xs_transfers (br_xfer (ss_bridge s))) key of
        Some tb \<Rightarrow> (Some tb, s)
      | None \<Rightarrow>
          (case (dr_readErr dr ''transfers.json'', dk_transfers (ss_disk s)) of
             (None, Some saved) \<Rightarrow>
               (case map_of saved key of
                  Some tb \<Rightarrow>
                    if length (tb_MailboxID tb) = 16 then (Some tb, on_bridge (bind_transfer key tb) s)
                    else (None, s)
                | None \<Rightarrow> (None, s))
           | _ \<Rightarrow> (None, s)))"

definition bound :: "draws \<Rightarrow> bytes \<Rightarrow> string \<Rightarrow> ('w, transferBind) call" where
  "bound dr transferID unknown s =
     (case bindFor dr transferID s of (None, s') \<Rightarrow> (Inl unknown, s') | (Some tb, s') \<Rightarrow> (Inr tb, s'))"

definition onXferCreate :: "'w host \<Rightarrow> draws \<Rightarrow> bytes \<Rightarrow> ('w, u8 \<times> bytes) call" where
  "onXferCreate ho dr payload =
     (let np = ho_np ho; ts = u64_of_int64 (dr_now dr) in
     hbind (decoded ho (unmarshalXferCreate np payload)) (\<lambda>req.
     hbind (if length (xc_recipientPub req) = 32 \<and> (length (xc_mailboxID req) \<noteq> 16 \<or> xc_shardURL req = [])
            then
              hbind (router_or [] ''no router_url for resolve'') (\<lambda>routerURL.
              resolve ho (xc_recipientPub req) routerURL)
            else hreturn (xc_mailboxID req, xc_shardURL req)) (\<lambda>(mailbox, shardURL).
     hbind (hrequire (\<not> (length mailbox \<noteq> 16 \<or> shardURL = [])) ''mailbox+shard or recipient_pub required'') (\<lambda>_.
     hbind (look (\<lambda>s. br_courierPriv (ss_bridge s))) (\<lambda>priv.
     hbind (drawn (dr_nonce dr)) (\<lambda>nonce.
     hbind (decoded ho (MarshalTransferCreate np
              \<lparr>tc_MailboxID = mailbox, tc_TotalSize = xc_total req, tc_ChunkSize = xc_chunkSize req,
               tc_ChunkCount = xc_chunkCount req, tc_Manifest = xc_manifest req, tc_SenderPub = Public priv,
               tc_Timestamp = ts, tc_Nonce = nonce,
               tc_Signature = ho_sign ho priv (CanonicalXferCreate (copy_array 32 (Public priv))
                 (copy_array 16 mailbox) (xc_total req) (xc_chunkSize req) (xc_chunkCount req) ts nonce
                 (xc_manifest req))\<rparr>)) (\<lambda>body.
     hbind (post_ok ho ''xfer-create'' (bridge_joinURL shardURL RouteTransferCreate) body) (\<lambda>raw.
     hbind (decoded ho (UnmarshalTransferCreateResponse np raw)) (\<lambda>res s.
       (Inr (opXferCreate, marshalXferCreated np (tcr_TransferID res) (tcr_DownloadSecret res) shardURL
               (tcr_ExpiresAt res)),
        saveBindings dr (on_bridge (bind_transfer (hex_encode (tcr_TransferID res))
          \<lparr>tb_MailboxID = mailbox, tb_ShardURL = shardURL, tb_ChunkCount = xc_chunkCount req\<rparr>) s)))))))))))"

definition onXferPut :: "'w host \<Rightarrow> draws \<Rightarrow> bytes \<Rightarrow> ('w, u8 \<times> bytes) call" where
  "onXferPut ho dr payload =
     (let np = ho_np ho in
     hbind (decoded ho (unmarshalXferPut np payload)) (\<lambda>req.
     hbind (bound dr (xp_transferID req) ''unknown transfer (create first via this bridge)'') (\<lambda>tb.
     hbind (decoded ho (MarshalChunkUpload np
              \<lparr>cu_TransferID = xp_transferID req, cu_Index = xp_index req, cu_Payload = xp_payload req,
               cu_ChunkHash = xp_hash req, cu_Offset = xp_offset req\<rparr>)) (\<lambda>body.
     hbind (post_ok ho ''xfer-put'' (bridge_joinURL (tb_ShardURL tb) RouteChunkPut) body) (\<lambda>raw.
     hbind (decoded ho (UnmarshalChunkAck np raw)) (\<lambda>ack.
     hreturn (opXferPut, marshalXferProgress np (ca_HighestContiguous ack) (tb_ChunkCount tb)
       (ca_MissingRanges ack) (ca_Bitmap ack) (ca_Encoding ack))))))))"

text \<open>How a read is authorised: by a ticket and a given shard, or by the mailbox of the binding.\<close>

definition read_route ::
  "draws \<Rightarrow> bytes \<Rightarrow> bytes \<Rightarrow> bytes \<Rightarrow> string \<Rightarrow> ('w, string) call" where
  "read_route dr transferID mailboxID ticket shardURL =
     (if length ticket = 32 then
        hbind (hrequire (shardURL \<noteq> []) ''ticket mode: shard_url required'') (\<lambda>_. hreturn shardURL)
      else
        hbind (bound dr transferID ''unknown transfer'') (\<lambda>tb.
        hbind (hrequire (mailboxID = tb_MailboxID tb) ''mailbox mismatch'') (\<lambda>_. hreturn (tb_ShardURL tb))))"

definition onXferResume :: "'w host \<Rightarrow> draws \<Rightarrow> bytes \<Rightarrow> ('w, u8 \<times> bytes) call" where
  "onXferResume ho dr payload =
     (let np = ho_np ho in
     hbind (decoded ho (unmarshalXferResume np payload)) (\<lambda>req.
     hbind (read_route dr (xr_transferID req) (xr_mailboxID req) (xr_ticket req) (xr_shardURL req)) (\<lambda>shardURL.
     hbind (decoded ho (MarshalResumeRequest np
              (if length (xr_ticket req) = 32
               then \<lparr>rq_TransferID = xr_transferID req, rq_MailboxID = [], rq_ReadSecret = [],
                     rq_Ticket = xr_ticket req\<rparr>
               else \<lparr>rq_TransferID = xr_transferID req, rq_MailboxID = xr_mailboxID req,
                     rq_ReadSecret = xr_readSecret req, rq_Ticket = []\<rparr>))) (\<lambda>body.
     hbind (post_ok ho ''xfer-resume'' (bridge_joinURL shardURL RouteResume) body) (\<lambda>raw.
     hbind (decoded ho (UnmarshalResumeResponse np raw)) (\<lambda>res.
     hreturn (opXferResume, marshalXferProgress np (rp_HighestContiguous res) (rp_ChunkCount res)
       (rp_MissingRanges res) (rp_Bitmap res) (rp_Encoding res))))))))"

definition onXferGet :: "'w host \<Rightarrow> draws \<Rightarrow> bytes \<Rightarrow> ('w, u8 \<times> bytes) call" where
  "onXferGet ho dr payload =
     (let np = ho_np ho in
     hbind (decoded ho (unmarshalXferGet np payload)) (\<lambda>req.
     hbind (read_route dr (xg_transferID req) (xg_mailboxID req) (xg_ticket req) (xg_shardURL req)) (\<lambda>shardURL.
     hbind (decoded ho (MarshalChunkDownload np
              (if length (xg_ticket req) = 32
               then \<lparr>cd_TransferID = xg_transferID req, cd_Index = xg_index req, cd_Count = 1,
                     cd_MailboxID = [], cd_ReadSecret = [], cd_Ticket = xg_ticket req\<rparr>
               else \<lparr>cd_TransferID = xg_transferID req, cd_Index = xg_index req, cd_Count = 1,
                     cd_MailboxID = xg_mailboxID req, cd_ReadSecret = xg_readSecret req, cd_Ticket = []\<rparr>))) (\<lambda>body.
     hbind (post_ok ho ''xfer-get'' (bridge_joinURL shardURL RouteChunkGet) body) (\<lambda>raw.
     hbind (decoded ho (UnmarshalChunkDownloadResponse np raw)) (\<lambda>res.
     hbind (hrequire (hex_encode (sha256 (cdr_Payload res)) = hex_encode (cdr_ChunkHash res))
              ''chunk hash mismatch (relay data corrupt)'') (\<lambda>_.
     hreturn (opXferGet, marshalXferChunk np (cdr_Payload res) (cdr_ChunkHash res)))))))))"

definition onXferComplete :: "'w host \<Rightarrow> draws \<Rightarrow> bytes \<Rightarrow> ('w, u8 \<times> bytes) call" where
  "onXferComplete ho dr payload =
     (let np = ho_np ho; ts = u64_of_int64 (dr_now dr) in
     hbind (decoded ho (unmarshalXferComplete np payload)) (\<lambda>req.
     hbind (bound dr (xf_transferID req) ''unknown transfer'') (\<lambda>tb.
     hbind (look (\<lambda>s. br_courierPriv (ss_bridge s))) (\<lambda>priv.
     hbind (drawn (dr_nonce dr)) (\<lambda>nonce.
     hbind (decoded ho (MarshalTransferComplete np
              \<lparr>tf_TransferID = xf_transferID req, tf_ManifestHash = xf_manifestHash req, tf_MailboxID = [],
               tf_SenderPub = Public priv, tf_Timestamp = ts, tf_Nonce = nonce,
               tf_Signature = ho_sign ho priv (CanonicalXferComplete (copy_array 32 (Public priv))
                 (copy_array 16 (xf_transferID req)) (copy_array 32 (xf_manifestHash req)) ts nonce)\<rparr>)) (\<lambda>body.
     hbind (post_ok ho ''xfer-complete'' (bridge_joinURL (tb_ShardURL tb) RouteComplete) body) (\<lambda>raw.
     hbind (decoded ho (UnmarshalTransferCompleteResponse np raw)) (\<lambda>_.
     hreturn (opXferComplete, marshalAck np True [])))))))))"

definition onXferCancel :: "'w host \<Rightarrow> draws \<Rightarrow> bytes \<Rightarrow> ('w, u8 \<times> bytes) call" where
  "onXferCancel ho dr payload =
     (let np = ho_np ho in
     hbind (decoded ho (unmarshalXferCancel np payload)) (\<lambda>req.
     hbind (bound dr (xl_transferID req) ''unknown transfer'') (\<lambda>tb.
     hbind (hrequire (xl_mailboxID req = tb_MailboxID tb) ''mailbox mismatch'') (\<lambda>_.
     hbind (decoded ho (MarshalTransferCancel np
              \<lparr>tx_TransferID = xl_transferID req, tx_MailboxID = xl_mailboxID req, tx_Reason = 0,
               tx_ReadSecret = xl_readSecret req\<rparr>)) (\<lambda>body.
     hbind (post_ok ho ''xfer-cancel'' (bridge_joinURL (tb_ShardURL tb) RouteCancel) body) (\<lambda>_.
     hreturn (opXferCancel, marshalAck np True [])))))))"

section \<open>Dispatch and the RPC loop\<close>

definition dispatch :: "'w host \<Rightarrow> draws \<Rightarrow> u8 \<Rightarrow> bytes \<Rightarrow> 'w session \<Rightarrow> (u8 \<times> bytes) \<times> 'w session" where
  "dispatch ho dr rpcop payload s =
     (let np = ho_np ho; run = (\<lambda>m. answer np m s) in
      if rpcop = opInitialize then
        (case onInitialize ho payload s of (result, s') \<Rightarrow> ((opInitialize, result), s'))
      else if rpcop = opCapabilities then ((opCapabilities, marshalCaps np), s)
      else if rpcop = opStartStop then run (transport (onStartStop ho payload))
      else if rpcop = opSend then run (onSend ho dr payload)
      else if rpcop = opAttach then run (onAttach ho payload)
      else if rpcop = opDetach then run (transport (onDetach ho payload))
      else if rpcop = opPoll then run (onPoll ho payload)
      else if rpcop = opStatus then
        ((opStatus, if br_running (ss_bridge s) then marshalStatus np True ''courier running''
                    else marshalStatus np False ''stopped''), s)
      else if rpcop = opRegister then run (transport (onRegister ho dr payload))
      else if rpcop = opIdentityRegister then run (transport (onIdentityRegister ho payload))
      else if rpcop = opResolve then run (transport (onResolve ho payload))
      else if rpcop = opXferCreate then run (transport (onXferCreate ho dr payload))
      else if rpcop = opXferPut then run (transport (onXferPut ho dr payload))
      else if rpcop = opXferResume then run (transport (onXferResume ho dr payload))
      else if rpcop = opXferGet then run (transport (onXferGet ho dr payload))
      else if rpcop = opXferComplete then run (transport (onXferComplete ho dr payload))
      else if rpcop = opXferCancel then run (transport (onXferCancel ho dr payload))
      else ((opError, marshal_rpc_error np errUnsupported ''unknown op''), s))"

text \<open>
  The loop over the standard streams: \<open>input\<close> is what is left of standard input, the result what is
  written to standard output and the state when the loop returns. Request number \<open>k\<close> draws \<open>dr k\<close>. A
  failing write to standard output is not modelled.
\<close>

function serveLoop ::
  "'w host \<Rightarrow> (nat \<Rightarrow> draws) \<Rightarrow> nat \<Rightarrow> bytes \<Rightarrow> 'w session \<Rightarrow> bytes \<times> 'w session" where
  "serveLoop ho dr k input s =
     (if length input < 4 then ([], s)
      else
        let n = get32 (take 4 input); rest = drop 4 input in
        if n = 0 \<or> unat n > maxRPCBytes then ([], s)
        else if length rest < unat n then ([], s)
        else
          (case unmarshalEnvelope (ho_np ho) (take (unat n) rest) of
             Inl e \<Rightarrow> ([], s)
           | Inr env \<Rightarrow>
               (case dispatch ho (dr k) (en_op env) (en_payload env) s of
                  ((respOp, payload), s') \<Rightarrow>
                    (case marshalEnvelope (ho_np ho) respOp (en_reqID env) payload of
                       Inl e \<Rightarrow> ([], s')
                     | Inr rbody \<Rightarrow>
                         (case serveLoop ho dr (Suc k) (drop (unat n) rest) s' of
                            (out, s'') \<Rightarrow> (frameMessage rbody @ out, s''))))))"
  by pat_completeness auto
termination
  by (relation "measure (\<lambda>(ho, dr, k, input, s). length input)") auto

declare serveLoop.simps [simp del]

end
