(* ===== verification/Courier.thy ===== *)
theory Courier
  imports Daemon Bridge_Ops
begin

text \<open>
  The courier bridge against the single-binary daemon: the network is the daemon behind one base URL,
  and the requests of the bridge are served by its router and its shard. The lemmas say which requests
  are answered with success, and what the bridge makes of the answers.
\<close>

section \<open>The network\<close>

text \<open>
  A request to a URL below \<open>base\<close> reaches the daemon; the state of the network is the number of requests
  served and the daemon, and \<open>envs\<close> gives what the daemon reads from outside at each of them.
\<close>

definition daemon_http ::
  "daemon_setup \<Rightarrow> string \<Rightarrow> (nat \<Rightarrow> router_env \<times> environment) \<Rightarrow> string \<Rightarrow> bytes \<Rightarrow> nat \<times> daemon
   \<Rightarrow> (string + int \<times> bytes) \<times> (nat \<times> daemon)" where
  "daemon_http ds base envs url body = (\<lambda>(k, d).
     if \<not> has_prefix url base then (Inl ''no such host'', (k, d))
     else
       (case daemon_ServeHTTP ds (fst (envs k)) (snd (envs k)) (post_request (drop (length base) url) body) d of
          (None, d') \<Rightarrow> (Inr (404, bytes_of ''404 page not found''), (Suc k, d'))
        | (Some resp, d') \<Rightarrow> (Inr (rs_Status resp, rs_Body resp), (Suc k, d'))))"

text \<open>A base URL to which routes are appended as they are.\<close>

definition plain_base :: "string \<Rightarrow> bool" where
  "plain_base base \<longleftrightarrow> base \<noteq> [] \<and> last base \<noteq> CHR ''/'' \<and> \<not> has_suffix base apiPrefix \<and> length base \<le> 900"

lemma TrimRight_plain: "last base \<noteq> CHR ''/'' \<Longrightarrow> TrimRight_slash base = base"
  by (cases base rule: rev_cases) (simp_all add: TrimRight_slash_def)

lemma join_plain [simp]:
  assumes "plain_base base"
  shows "bridge_joinURL base RouteRegister = base @ RouteRegister" "bridge_joinURL base RouteResolve = base @ RouteResolve"
    "bridge_joinURL base RouteSend = base @ RouteSend" "bridge_joinURL base RouteReceive = base @ RouteReceive"
    "bridge_joinURL base RouteTransferCreate = base @ RouteTransferCreate"
    "bridge_joinURL base RouteChunkPut = base @ RouteChunkPut" "bridge_joinURL base RouteChunkGet = base @ RouteChunkGet"
    "bridge_joinURL base RouteComplete = base @ RouteComplete"
  using assms by (simp_all add: bridge_joinURL_def plain_base_def TrimRight_plain Let_def has_prefix_def route_defs)

lemma daemon_http_post [simp]:
  "daemon_http ds base envs (base @ route) body (k, d) =
     (case daemon_ServeHTTP ds (fst (envs k)) (snd (envs k)) (post_request route body) d of
        (None, d') \<Rightarrow> (Inr (404, bytes_of ''404 page not found''), (Suc k, d'))
      | (Some resp, d') \<Rightarrow> (Inr (rs_Status resp, rs_Body resp), (Suc k, d')))"
  by (simp add: daemon_http_def has_prefix_def)

section \<open>The deployment\<close>

text \<open>
  What the couriers rely on: a total serialisation library on both sides, a router with a secret over the
  shard's store, Ed25519 signatures of 64 bytes that verify under the public half of the key, random
  values of their sizes, and clocks that agree within the allowed skew.
\<close>

definition near :: "int \<Rightarrow> int \<Rightarrow> bool" where
  "near t0 t \<longleftrightarrow> t0 \<le> t \<and> t \<le> t0 + MaxClockSkewMillis"

definition env_ok :: "int \<Rightarrow> router_env \<times> environment \<Rightarrow> bool" where
  "env_ok t0 e \<longleftrightarrow>
     (\<exists>secret. re_secret (fst e) = Some secret \<and> length secret = 32) \<and> length (ev_id (snd e)) = 16
     \<and> (\<forall>t \<in> {re_now (fst e), re_store (fst e), ev_now (snd e), ev_first (snd e), ev_second (snd e), ev_third (snd e)}.
          near t0 t)"

lemma unmarshal_size: "unmarshal np limit step zero finish body = Inr x \<Longrightarrow> length body \<le> limit"
  by (simp add: unmarshal_def CheckBodyLen_def split: if_splits)

lemma Public_length: "length priv = 64 \<Longrightarrow> length (Public priv) = 32"
  by (simp add: Public_def)

text \<open>A live mailbox with an empty queue takes any valid message, and still opens with its secret.\<close>

lemma SendMessage_empty:
  assumes "ValidateSendMessage msg = None" "MailboxExists now (sm_MailboxID msg) s" "queue s (sm_MailboxID msg) = []"
  shows "\<exists>n s'. SendMessage now i msg s = (Inr (i, n), s')"
proof -
  have "length (sm_MailboxID msg) = 16" "length (sm_Envelope msg) \<le> 32768"
    using assms(1) by (simp_all add: ValidateSendMessage_None)
  then show ?thesis
    using assms
    by (auto simp: SendMessage_def Let_def getMailboxLocked_def MailboxExists_def queue_def prune_filter
        split: option.splits if_splits)
qed

lemma SendMessage_keeps:
  assumes "SendMessage now i msg s = (Inr r, s')"
  shows "CheckReadSecret (sm_MailboxID msg) secret s' = CheckReadSecret (sm_MailboxID msg) secret s"
    and "t < mailbox_deadline now \<Longrightarrow> MailboxExists t (sm_MailboxID msg) s'"
proof -
  obtain x n where r: "r = (x, n)" by (cases r)
  note mb = SendMessage_Inr(8) [OF assms [unfolded r]]
  show "CheckReadSecret (sm_MailboxID msg) secret s' = CheckReadSecret (sm_MailboxID msg) secret s"
    using mb by (auto simp: CheckReadSecret_def)
  show "MailboxExists t (sm_MailboxID msg) s'" if "t < mailbox_deadline now"
    using mb that by (auto simp: MailboxExists_def)
qed

lemma new_mailbox_store:
  "store_ok (snd (CreateMailbox now mid hash NewMemStore))"
  "ms_replay (snd (CreateMailbox now mid hash NewMemStore)) = []"
  "queue (snd (CreateMailbox now mid hash NewMemStore)) mid' = []"
proof -
  have "mailboxes_ok NewMemStore" using NewMemStore_ok by (simp add: store_ok_def)
  then show "store_ok (snd (CreateMailbox now mid hash NewMemStore))"
    by (intro store_ok_mailbox_only [OF NewMemStore_ok] CreateMailbox_ok) simp_all
  show "queue (snd (CreateMailbox now mid hash NewMemStore)) mid' = []"
    by (simp only: CreateMailbox_opens(3)) (simp add: queue_def NewMemStore_def)
qed (simp add: NewMemStore_def)

lemma scopedKey_frame:
  assumes "scopedKey dr tag s = (r, s')"
  shows "ss_net s' = ss_net s" "br_running (ss_bridge s') = br_running (ss_bridge s)"
    "br_mailboxes (ss_bridge s') = br_mailboxes (ss_bridge s)" "br_routerURL (ss_bridge s') = br_routerURL (ss_bridge s)"
  using assms
  by (auto simp: scopedKey_def Let_def on_bridge_def remember_key_def split: if_splits option.splits sum.splits)

lemma put_shard_shards:
  "ro_shards (dm_router d) = [(url, s)] \<Longrightarrow> ro_shards (dm_router (put_shard h d)) = [(url, h_store h)]"
  by (simp add: put_shard_def put_store_def)

locale courier_net = total_codec +
  fixes ho :: "(nat \<times> daemon) host" and ds :: daemon_setup and base :: string
    and envs :: "nat \<Rightarrow> router_env \<times> environment" and t0 :: int
  assumes codec: "ho_np ho = np" "cfg_np (ds_config ds) = np" "sv_np (ds_server ds) = np"
    and net: "ho_http ho = daemon_http ds base envs" and base: "plain_base base"
    and servers: "cfg_store (ds_config ds) = mem_store" "sv_store (ds_server ds) = mem_store"
      "cfg_Secret (ds_config ds) \<noteq> []"
    and signatures: "length priv = 64 \<Longrightarrow> length (ho_sign ho priv m) = 64"
      "length priv = 64 \<Longrightarrow> cfg_verify (ds_config ds) (Public priv) m (ho_sign ho priv m)"
      "length priv = 64 \<Longrightarrow> sv_verify (ds_server ds) (Public priv) m (ho_sign ho priv m)"
    and envs: "env_ok t0 (envs k)" and time: "0 \<le> t0" "t0 < 2 ^ 61"
begin

lemma near_skew: "near t0 ts \<Longrightarrow> near t0 now \<Longrightarrow> CheckSkew (u64_of_int64 ts) now = None"
  using time by (auto simp: CheckSkew_cases near_def int64_u64_id i64_id abs_le_iff)

lemma env_clock:
  "near t0 (re_now (fst (envs k)))" "near t0 (re_store (fst (envs k)))" "near t0 (ev_now (snd (envs k)))"
  "near t0 (ev_first (snd (envs k)))" "near t0 (ev_second (snd (envs k)))" "length (ev_id (snd (envs k))) = 16"
  using envs [of k] by (simp_all add: env_ok_def)

lemma post_served:
  "daemon_ServeHTTP ds (fst (envs k)) (snd (envs k)) (post_request route body) d = (Some (writeProto sch resp), d') \<Longrightarrow>
   ss_net s = (k, d) \<Longrightarrow>
   postBinary ho (base @ route) body s = (Inr (Inr (200, take 2097152 resp)), s\<lparr>ss_net := (Suc k, d')\<rparr>)"
  by (simp add: postBinary_def net writeProto_def)

lemma daemon_register:
  assumes d: "ro_shards (dm_router d) = [(base, s)]" "ro_regRL (dm_router d) = []" "ro_replay (dm_router d) = []"
    and req: "MarshalRegister np req = Inr body"
      "VerifyRegister (cfg_verify (ds_config ds)) (rg_ClientPub req) (rg_Timestamp req) (rg_Nonce req)
         (rg_Signature req) (re_now (fst (envs k))) = None"
  shows "\<exists>resp d' secret e. daemon_ServeHTTP ds (fst (envs k)) (snd (envs k)) (post_request RouteRegister body) d
      = (Some (writeProto SchemaRegisterResponse resp), d')
    \<and> UnmarshalRegisterResponse np resp = Inr
        \<lparr>rr_MailboxID = MailboxIDFromPub (cfg_Secret (ds_config ds)) (rg_ClientPub req), rr_ReadSecret = secret,
         rr_ShardURL = base, rr_TableVersion = cfg_Version (ds_config ds), rr_ExpiresAt = e\<rparr>
    \<and> length secret = 32
    \<and> ro_shards (dm_router d') = [(base, snd (CreateMailbox (re_store (fst (envs k)))
         (MailboxIDFromPub (cfg_Secret (ds_config ds)) (rg_ClientPub req)) (sha256 secret) s))]
    \<and> ro_resRL (dm_router d') = ro_resRL (dm_router d) \<and> dm_buckets d' = dm_buckets d"
proof -
  obtain secret where secret: "re_secret (fst (envs k)) = Some secret" "length secret = 32"
    using envs [of k] by (auto simp: env_ok_def)
  show ?thesis
    using register_served [OF codec(2) servers(1,3) req _ _ secret d(1)] d secret base
    by (fastforce simp: daemon_ServeHTTP_def plain_base_def)
qed

lemma daemon_resolve:
  assumes d: "ro_shards (dm_router d) = [(base, s)]" "ro_resRL (dm_router d) = []"
    and req: "MarshalResolve np pub = Inr body"
  shows "\<exists>resp d' rv. daemon_ServeHTTP ds (fst (envs k)) (snd (envs k)) (post_request RouteResolve body) d
      = (Some (writeProto SchemaResolveResponse resp), d')
    \<and> UnmarshalResolveResponse np resp = Inr rv
    \<and> rv_MailboxID rv = MailboxIDFromPub (cfg_Secret (ds_config ds)) pub \<and> rv_ShardURL rv = base
    \<and> ro_shards (dm_router d') = ro_shards (dm_router d) \<and> dm_buckets d' = dm_buckets d"
  using resolve_served [OF codec(2) servers(1,3) req _ d(1), of "fst (envs k)"] d base
  by (fastforce simp: daemon_ServeHTTP_def plain_base_def)

lemma daemon_send:
  assumes d: "ro_shards (dm_router d) = [(base, s)]" "dm_buckets d = []" "store_ok s"
    and req: "MarshalSendMessage np msg = Inr body"
      "VerifyMsgSend (sv_verify (ds_server ds)) (sm_SenderPub msg) (sm_MailboxID msg) (sm_Timestamp msg)
         (sm_Nonce msg) (sm_Envelope msg) (sm_Signature msg) (ev_now (snd (envs k))) = None"
      "map_of (ms_replay s) (replayKey replayDomainMsg (sm_SenderPub msg) (sm_Nonce msg)) = None"
    and room: "SendMessage (ev_second (snd (envs k))) (ev_id (snd (envs k))) msg s = (Inr (i, n), s')"
  shows "\<exists>resp d' m. daemon_ServeHTTP ds (fst (envs k)) (snd (envs k)) (post_request RouteSend body) d
      = (Some (writeProto SchemaSendMessageResponse resp), d')
    \<and> ro_shards (dm_router d') = [(base, s'\<lparr>ms_replay := m\<rparr>)]
    \<and> window_of (dm_buckets d') ''recv-ip:'' = None"
proof -
  obtain m where m: "CheckAndMarkReplay (ev_first (snd (envs k)))
      (replayKey replayDomainMsg (sm_SenderPub msg) (sm_Nonce msg)) s = (False, s\<lparr>ms_replay := m\<rparr>)"
    using d(3) req(3) by (rule mark_fresh)
  have h: "h_store (dm_shard d) = s" "h_buckets (dm_shard d) = []"
    using d(1,2) by (simp_all add: dm_shard_def dm_store_def store_at_def)
  obtain resp h' where "ServeHTTP (ds_server ds) (snd (envs k)) (post_request RouteSend body) (dm_shard d)
        = (Some (writeProto SchemaSendMessageResponse resp), h')"
      "h_store h' = s'\<lparr>ms_replay := m\<rparr>" "window_of (h_buckets h') ''recv-ip:'' = None"
    using send_served [OF codec(3) servers(2) req(1,2), of "dm_shard d"] m h env_clock(6) [of k]
      SendMessage_replay [OF room, of m] by fastforce
  then show ?thesis
    using d(1) by (auto simp: daemon_ServeHTTP_def put_shard_def put_store_def)
qed

lemma daemon_receive:
  assumes d: "ro_shards (dm_router d) = [(base, s)]" "window_of (dm_buckets d) ''recv-ip:'' = None"
    and req: "MarshalReceiveMessages np req = Inr body" "rcv_Peek req = 0"
    and may: "MailboxExists (ev_first (snd (envs k))) (rcv_MailboxID req) s"
      "CheckReadSecret (rcv_MailboxID req) (rcv_ReadSecret req) s"
    and ok: "\<forall>m \<in> set (queue s (rcv_MailboxID req)).
       length (msg_ID m) = 16 \<and> 0 < length (msg_Envelope m) \<and> length (msg_Envelope m) \<le> MaxMessageBytes"
    and msgs: "msgs = take (batch_limit (int (unat (rcv_Limit req))))
       (unexpired (ev_first (snd (envs k))) s (rcv_MailboxID req))"
  shows "\<exists>resp d'. daemon_ServeHTTP ds (fst (envs k)) (snd (envs k)) (post_request RouteReceive body) d
      = (Some (writeProto SchemaReceiveMessagesResponse resp), d')
    \<and> UnmarshalReceiveMessagesResponse np resp = Inr \<lparr>rmr_Messages =
         map (\<lambda>m. \<lparr>rm_MsgID = msg_ID m, rm_Envelope = msg_Envelope m\<rparr>) msgs, rmr_Consumed = True\<rparr>
    \<and> queue (dm_store d') (rcv_MailboxID req)
        = drop (length msgs) (unexpired (ev_first (snd (envs k))) s (rcv_MailboxID req))
    \<and> (\<forall>other. other \<noteq> rcv_MailboxID req \<longrightarrow> mailbox_of (dm_store d') other = mailbox_of s other)
    \<and> ro_shards (dm_router d') = [(base, dm_store d')]"
proof -
  have h: "h_store (dm_shard d) = s" "h_buckets (dm_shard d) = dm_buckets d"
    using d(1) by (simp_all add: dm_shard_def dm_store_def store_at_def)
  obtain resp h' where "ServeHTTP (ds_server ds) (snd (envs k)) (post_request RouteReceive body) (dm_shard d)
        = (Some (writeProto SchemaReceiveMessagesResponse resp), h')"
      "UnmarshalReceiveMessagesResponse np resp = Inr \<lparr>rmr_Messages =
         map (\<lambda>m. \<lparr>rm_MsgID = msg_ID m, rm_Envelope = msg_Envelope m\<rparr>) msgs, rmr_Consumed = True\<rparr>"
      "queue (h_store h') (rcv_MailboxID req)
         = drop (length msgs) (unexpired (ev_first (snd (envs k))) s (rcv_MailboxID req))"
      "\<forall>other. other \<noteq> rcv_MailboxID req \<longrightarrow> mailbox_of (h_store h') other = mailbox_of s other"
    using receive_served [OF codec(3) servers(2) req, of "dm_shard d" "snd (envs k)"] d(2) may ok msgs
    by (auto simp: h)
  then show ?thesis
    using d(1) by (auto simp: daemon_ServeHTTP_def put_shard_shards)
qed

section \<open>The calls of the bridge\<close>

lemma router_or_given: "router_or base missing s = (Inr base, s)"
  using base by (simp add: router_or_def hbind_def handler_defs plain_base_def)

lemma register_call:
  assumes req: "unmarshalRegisterReq np payload = Inr \<lparr>gq_userTag = tag, gq_routerURL = base\<rparr>"
    and key: "scopedKey dr tag s = (Inr priv, s1)" "length priv = 64"
    and dr: "dr_nonce dr = Inr nonce" "length nonce = 16" "near t0 (dr_now dr)"
    and d: "ss_net s1 = (k, d)" "ro_shards (dm_router d) = [(base, st)]" "ro_regRL (dm_router d) = []"
      "ro_replay (dm_router d) = []"
    and mid: "mid = MailboxIDFromPub (cfg_Secret (ds_config ds)) (Public priv)"
  shows "\<exists>secret d'. onRegister ho dr payload s
      = (Inr (opRegister, marshalRegisterResult np mid secret base base), s1\<lparr>ss_net := (Suc k, d')\<rparr>)
    \<and> length secret = 32
    \<and> ro_shards (dm_router d') = [(base, snd (CreateMailbox (re_store (fst (envs k))) mid (sha256 secret) st))]
    \<and> ro_resRL (dm_router d') = ro_resRL (dm_router d) \<and> dm_buckets d' = dm_buckets d"
proof -
  let ?ts = "u64_of_int64 (dr_now dr)" and ?pub = "Public priv"
  define r where "r = \<lparr>rg_ClientPub = ?pub, rg_Timestamp = ?ts, rg_Nonce = nonce,
      rg_Signature = ho_sign ho priv (CanonicalRegister (copy_array 32 ?pub) ?ts nonce)\<rparr>"
  have sel: "rg_ClientPub r = ?pub" by (simp add: r_def)
  have "ValidateRegister r = None"
    using key(2) dr(2) signatures(1) by (simp add: r_def ValidateRegister_def Public_length)
  then obtain body where body: "MarshalRegister np r = Inr body"
    using np_total by (fastforce simp: MarshalRegister_def marshal_def)
  have "VerifyRegister (cfg_verify (ds_config ds)) (rg_ClientPub r) (rg_Timestamp r) (rg_Nonce r)
      (rg_Signature r) (re_now (fst (envs k))) = None"
    using key(2) signatures near_skew [OF dr(3) env_clock(1)]
    by (simp add: r_def VerifyRegister_def Public_length)
  then obtain resp d' secret e where srv:
      "daemon_ServeHTTP ds (fst (envs k)) (snd (envs k)) (post_request RouteRegister body) d
         = (Some (writeProto SchemaRegisterResponse resp), d')"
      "UnmarshalRegisterResponse np resp = Inr \<lparr>rr_MailboxID = mid, rr_ReadSecret = secret,
         rr_ShardURL = base, rr_TableVersion = cfg_Version (ds_config ds), rr_ExpiresAt = e\<rparr>"
      "length secret = 32"
      "ro_shards (dm_router d') = [(base, snd (CreateMailbox (re_store (fst (envs k))) mid (sha256 secret) st))]"
      "ro_resRL (dm_router d') = ro_resRL (dm_router d)" "dm_buckets d' = dm_buckets d"
    using daemon_register [OF d(2-4) body, of k] by (auto simp: sel mid)
  have "length resp \<le> 1024"
    using srv(2) unmarshal_size by (fastforce simp: UnmarshalRegisterResponse_def)
  then have "onRegister ho dr payload s
      = (Inr (opRegister, marshalRegisterResult np mid secret base base), s1\<lparr>ss_net := (Suc k, d')\<rparr>)"
    using req key dr body base post_served [OF srv(1) d(1)] srv(2)
    by (simp add: onRegister_def Let_def hbind_def decoded_def drawn_def hreturn_def codec(1) router_or_given
        r_def [symmetric] post_ok_def)
  then show ?thesis using srv by blast
qed

lemma resolve_call:
  assumes "length pub = 32"
    and d: "ss_net s = (k, d)" "ro_shards (dm_router d) = [(base, st)]" "ro_resRL (dm_router d) = []"
  shows "\<exists>d'. resolve ho pub base s
      = (Inr (MailboxIDFromPub (cfg_Secret (ds_config ds)) pub, base), s\<lparr>ss_net := (Suc k, d')\<rparr>)
    \<and> ro_shards (dm_router d') = ro_shards (dm_router d) \<and> dm_buckets d' = dm_buckets d"
proof -
  obtain body where body: "MarshalResolve np pub = Inr body"
    using np_total assms(1) by (fastforce simp: MarshalResolve_def check_Resolve_def marshal_def)
  obtain resp d' rv where srv:
      "daemon_ServeHTTP ds (fst (envs k)) (snd (envs k)) (post_request RouteResolve body) d
         = (Some (writeProto SchemaResolveResponse resp), d')"
      "UnmarshalResolveResponse np resp = Inr rv"
      "rv_MailboxID rv = MailboxIDFromPub (cfg_Secret (ds_config ds)) pub" "rv_ShardURL rv = base"
      "ro_shards (dm_router d') = ro_shards (dm_router d)" "dm_buckets d' = dm_buckets d"
    using daemon_resolve [OF d(2,3) body, of k] by blast
  have "length resp \<le> 1024"
    using srv(2) unmarshal_size by (fastforce simp: UnmarshalResolveResponse_def)
  then have "resolve ho pub base s
      = (Inr (MailboxIDFromPub (cfg_Secret (ds_config ds)) pub, base), s\<lparr>ss_net := (Suc k, d')\<rparr>)"
    using body base post_served [OF srv(1) d(1)] srv(2-4)
    by (simp add: resolve_def hbind_def decoded_def drawn_def handler_defs codec(1))
  then show ?thesis using srv by blast
qed

lemma post_call:
  assumes key: "br_courierPriv (ss_bridge s) = priv" "length priv = 64"
    and dr: "dr_nonce dr = Inr nonce" "length nonce = 16" "near t0 (dr_now dr)"
    and d: "ss_net s = (k, d)" "ro_shards (dm_router d) = [(base, st)]" "dm_buckets d = []" "store_ok st" "ms_replay st = []"
    and mid: "length mid = 16" "queue st mid = []" "MailboxExists (ev_second (snd (envs k))) mid st"
    and frame: "0 < length frame" "length frame \<le> MaxMessageBytes"
  shows "\<exists>d' st' msg. postMessage ho dr base mid frame s = (Inr (), s\<lparr>ss_net := (Suc k, d')\<rparr>)
    \<and> ro_shards (dm_router d') = [(base, st')] \<and> window_of (dm_buckets d') ''recv-ip:'' = None
    \<and> queue st' mid = [stored (ev_second (snd (envs k))) (ev_id (snd (envs k))) msg] \<and> sm_Envelope msg = frame
    \<and> (\<forall>secret. CheckReadSecret mid secret st' = CheckReadSecret mid secret st)
    \<and> (\<forall>t < mailbox_deadline (ev_second (snd (envs k))). MailboxExists t mid st')"
proof -
  let ?e = "snd (envs k)"
  define msg where "msg = courier_message ho priv nonce (u64_of_int64 (dr_now dr)) mid frame"
  have sel: "sm_MailboxID msg = mid" "sm_Envelope msg = frame" "sm_SenderPub msg = Public priv" "sm_Nonce msg = nonce"
    by (simp_all add: msg_def courier_message_def)
  have valid: "ValidateSendMessage msg = None"
    using key(2) dr(2) mid(1) frame signatures(1)
    by (simp add: ValidateSendMessage_None msg_def courier_message_def Public_length)
  obtain n st1 where room: "SendMessage (ev_second ?e) (ev_id ?e) msg st = (Inr (ev_id ?e, n), st1)"
    using SendMessage_empty [OF valid] mid sel by fastforce
  obtain body where body: "MarshalSendMessage np msg = Inr body"
    using np_total by (fastforce simp: MarshalSendMessage_def valid marshal_def)
  have "VerifyMsgSend (sv_verify (ds_server ds)) (sm_SenderPub msg) (sm_MailboxID msg) (sm_Timestamp msg)
      (sm_Nonce msg) (sm_Envelope msg) (sm_Signature msg) (ev_now ?e) = None"
    using key(2) signatures near_skew [OF dr(3) env_clock(3)]
    by (simp add: VerifyMsgSend_skew msg_def courier_message_def Public_length)
  then obtain resp d' m where srv:
      "daemon_ServeHTTP ds (fst (envs k)) ?e (post_request RouteSend body) d
         = (Some (writeProto SchemaSendMessageResponse resp), d')"
      "ro_shards (dm_router d') = [(base, st1\<lparr>ms_replay := m\<rparr>)]"
      "window_of (dm_buckets d') ''recv-ip:'' = None"
    using daemon_send [OF d(2-4) body _ _ room] d(5) by auto
  have "postMessage ho dr base mid frame s = (Inr (), s\<lparr>ss_net := (Suc k, d')\<rparr>)"
    using key dr body base post_served [OF srv(1) d(1)]
    by (simp add: postMessage_def hbind_def look_def decoded_def drawn_def handler_defs codec(1) msg_def [symmetric])
  moreover have "queue (st1\<lparr>ms_replay := m\<rparr>) mid = [stored (ev_second ?e) (ev_id ?e) msg]"
    using SendMessage_Inr(4) [OF room] sel(1) mid(2) by (simp add: unexpired_def queue_def)
  moreover have "CheckReadSecret mid secret (st1\<lparr>ms_replay := m\<rparr>) = CheckReadSecret mid secret st" for secret
    using SendMessage_keeps(1) [OF room] sel(1) by (simp add: CheckReadSecret_def)
  moreover have "MailboxExists t mid (st1\<lparr>ms_replay := m\<rparr>)" if "t < mailbox_deadline (ev_second ?e)" for t
    using SendMessage_keeps(2) [OF room that] sel(1) by (simp add: MailboxExists_def)
  ultimately show ?thesis using srv(2,3) sel(2) by blast
qed

lemma fetch_clamp:
  "fetchBatch h url mid secret limit = fetchBatch h url mid secret (if limit \<le> 0 \<or> limit > 32 then 32 else limit)"
  by (simp add: fetchBatch_def)

lemma fetch_call:
  assumes d: "ss_net s = (k, d)" "ro_shards (dm_router d) = [(base, st)]" "window_of (dm_buckets d) ''recv-ip:'' = None"
    and may: "length mid = 16" "length secret = 32" "MailboxExists (ev_first (snd (envs k))) mid st"
      "CheckReadSecret mid secret st"
    and ok: "\<forall>m \<in> set (queue st mid).
       length (msg_ID m) = 16 \<and> 0 < length (msg_Envelope m) \<and> length (msg_Envelope m) \<le> MaxMessageBytes"
    and limit: "0 < limit" "limit \<le> 32"
    and msgs: "msgs = take (nat limit) (unexpired (ev_first (snd (envs k))) st mid)"
  shows "\<exists>d'. fetchBatch ho base mid secret limit s = (Inr (map msg_Envelope msgs), s\<lparr>ss_net := (Suc k, d')\<rparr>)
    \<and> queue (dm_store d') mid = drop (length msgs) (unexpired (ev_first (snd (envs k))) st mid)
    \<and> (\<forall>other. other \<noteq> mid \<longrightarrow> mailbox_of (dm_store d') other = mailbox_of st other)
    \<and> ro_shards (dm_router d') = [(base, dm_store d')]"
proof -
  define req where "req = \<lparr>rcv_MailboxID = mid, rcv_ReadSecret = secret, rcv_Limit = (word_of_int limit :: u8), rcv_Peek = 0\<rparr>"
  have sel: "rcv_MailboxID req = mid" "rcv_ReadSecret req = secret" "rcv_Peek req = 0"
    by (simp_all add: req_def)
  have lim: "uint (rcv_Limit req) = limit"
    using limit by (simp add: req_def unsigned_of_int take_bit_int_eq_self)
  have "ValidateReceiveMessages req = None"
    using may(1,2) limit lim by (simp add: req_def ValidateReceiveMessages_None)
  then obtain body where body: "MarshalReceiveMessages np req = Inr body"
    using np_total by (fastforce simp: MarshalReceiveMessages_def marshal_def)
  have "batch_limit limit = nat limit" using limit by (simp add: batch_limit_def)
  then obtain resp d' where srv:
      "daemon_ServeHTTP ds (fst (envs k)) (snd (envs k)) (post_request RouteReceive body) d
         = (Some (writeProto SchemaReceiveMessagesResponse resp), d')"
      "UnmarshalReceiveMessagesResponse np resp = Inr \<lparr>rmr_Messages =
         map (\<lambda>m. \<lparr>rm_MsgID = msg_ID m, rm_Envelope = msg_Envelope m\<rparr>) msgs, rmr_Consumed = True\<rparr>"
      "queue (dm_store d') mid = drop (length msgs) (unexpired (ev_first (snd (envs k))) st mid)"
      "\<forall>other. other \<noteq> mid \<longrightarrow> mailbox_of (dm_store d') other = mailbox_of st other"
      "ro_shards (dm_router d') = [(base, dm_store d')]"
    using daemon_receive [OF d(2,3) body sel(3), of k msgs] may ok msgs by (auto simp: sel lim)
  have "length resp \<le> 2097152"
    using srv(2) unmarshal_size by (fastforce simp: UnmarshalReceiveMessagesResponse_def)
  then have "fetchBatch ho base mid secret limit s = (Inr (map msg_Envelope msgs), s\<lparr>ss_net := (Suc k, d')\<rparr>)"
    using body base post_served [OF srv(1) d(1)] srv(2) limit
    by (simp add: fetchBatch_def Let_def hbind_def decoded_def drawn_def handler_defs codec(1) req_def comp_def)
  then show ?thesis using srv(3-5) by blast
qed

lemma fetch_refused:
  assumes d: "ss_net s = (k, d)" "ro_shards (dm_router d) = [(base, st)]"
    and req: "length mid = 16" "length secret = 32" "mailbox_of st mid = None"
  shows "\<exists>e d'. fetchBatch ho base mid secret limit s = (Inl e, s\<lparr>ss_net := (Suc k, d')\<rparr>) \<and> dm_store d' = st"
proof -
  define l where "l = (if limit \<le> 0 \<or> limit > 32 then 32 else limit)"
  have l: "0 < l" "l \<le> 32" by (auto simp: l_def)
  define req where "req = \<lparr>rcv_MailboxID = mid, rcv_ReadSecret = secret, rcv_Limit = (word_of_int l :: u8), rcv_Peek = 0\<rparr>"
  have "uint (rcv_Limit req) = l" using l by (simp add: req_def unsigned_of_int take_bit_int_eq_self)
  then have "ValidateReceiveMessages req = None"
    using req(1,2) l by (simp add: req_def ValidateReceiveMessages_None)
  then obtain body where body: "MarshalReceiveMessages np req = Inr body"
    using np_total by (fastforce simp: MarshalReceiveMessages_def marshal_def)
  have "h_store (dm_shard d) = st" using d(2) by (simp add: dm_shard_def dm_store_def store_at_def)
  then obtain resp h' where "ServeHTTP (ds_server ds) (snd (envs k)) (post_request RouteReceive body) (dm_shard d) = (Some resp, h')"
      "rs_Status resp \<noteq> 200" "h_store h' = st"
    using receive_refused [OF codec(3) servers(2) body, of "snd (envs k)" "dm_shard d"] req(3)
    by (auto simp: MailboxExists_def req_def)
  then have "\<exists>d'. daemon_ServeHTTP ds (fst (envs k)) (snd (envs k)) (post_request RouteReceive body) d = (Some resp, d') \<and> dm_store d' = st"
    "rs_Status resp \<noteq> 200"
    using d(2) by (auto simp: daemon_ServeHTTP_def)
  then have "\<exists>e d'. fetchBatch ho base mid secret l s = (Inl e, s\<lparr>ss_net := (Suc k, d')\<rparr>) \<and> dm_store d' = st"
    using body base d(1) l
    by (auto simp: fetchBatch_def Let_def hbind_def decoded_def drawn_def handler_defs codec(1) req_def postBinary_def net)
  then show ?thesis by (subst fetch_clamp) (simp add: l_def)
qed

section \<open>A frame from courier to courier\<close>

lemma request_payloads:
  "np_bytes np [(1, bytes_of tag), (2, bytes_of url)] = Inr p \<Longrightarrow> tag \<noteq> [] \<Longrightarrow>
   unmarshalRegisterReq np p = Inr \<lparr>gq_userTag = tag, gq_routerURL = url\<rparr>"
  "np_bytes np [(1, mid), (2, secret), (3, bytes_of url), (4, bytes_of router)] = Inr p \<Longrightarrow>
   length mid = 16 \<Longrightarrow> length secret = 32 \<Longrightarrow> url \<noteq> [] \<Longrightarrow>
   unmarshalAttach np p = Inr \<lparr>at_mailboxID = mid, at_readSecret = secret, at_shardURL = url, at_routerURL = router\<rparr>"
  "np_bytes np [(1, frame), (2, pub)] = Inr p \<Longrightarrow> 0 < length frame \<Longrightarrow> length frame \<le> maxFrameBytes \<Longrightarrow>
   unmarshalSend np p = Inr \<lparr>sr_frame = frame, sr_recipientPub = pub, sr_mailboxID = [], sr_shardURL = []\<rparr>"
  "np_bytes np [(1, [limit])] = Inr p \<Longrightarrow>
   unmarshalPoll np p = Inr \<lparr>pl_limit = (if limit = 0 then 32 else limit), pl_mailboxID = []\<rparr>"
  by (simp_all add: unmarshalRegisterReq_def registerReq_field_def unmarshalAttach_def attachReq_field_def
      unmarshalSend_def sendReq_field_def unmarshalPoll_def pollReq_field_def rpc_roundtrip)

lemma answered: "m s = (Inr r, s') \<Longrightarrow> answer np m s = (r, s')"
  by (simp add: answer_def)

lemma transported: "m s = (Inr x, s') \<Longrightarrow> transport m s = (Inr x, s')"
  by (simp add: transport_def)

lemma running_pass: "br_running (ss_bridge s) \<Longrightarrow> requireRunning s = (Inr (), s)"
  by (simp add: requireRunning_def handler_defs)

lemma register_answer:
  assumes "np_bytes np [(1, bytes_of tag), (2, bytes_of base)] = Inr p"
    and "scopedKey dr tag s = (Inr priv, s1)" "length priv = 64"
    and "dr_nonce dr = Inr nonce" "length nonce = 16" "near t0 (dr_now dr)"
    and "ss_net s1 = (k, d)" "ro_shards (dm_router d) = [(base, st)]" "ro_regRL (dm_router d) = []"
      "ro_replay (dm_router d) = []"
    and "mid = MailboxIDFromPub (cfg_Secret (ds_config ds)) (Public priv)"
  shows "\<exists>secret d'. dispatch ho dr opRegister p s
      = ((opRegister, marshalRegisterResult np mid secret base base), s1\<lparr>ss_net := (Suc k, d')\<rparr>)
    \<and> length secret = 32
    \<and> ro_shards (dm_router d') = [(base, snd (CreateMailbox (re_store (fst (envs k))) mid (sha256 secret) st))]
    \<and> ro_resRL (dm_router d') = ro_resRL (dm_router d) \<and> dm_buckets d' = dm_buckets d"
proof -
  have "tag \<noteq> []" using assms(2) by (auto simp: scopedKey_def tagRe_def)
  with assms(1) have "unmarshalRegisterReq np p = Inr \<lparr>gq_userTag = tag, gq_routerURL = base\<rparr>"
    by (rule request_payloads)
  from register_call [OF this assms(2-)] show ?thesis
    by (fastforce simp: dispatch_def codec intro!: answered transported)
qed

lemma attach_answer:
  assumes "np_bytes np [(1, mid), (2, secret), (3, bytes_of base), (4, bytes_of base)] = Inr p"
    and "length mid = 16" "length secret = 32" "br_running (ss_bridge s)"
  shows "dispatch ho dr opAttach p s = ((opAttach, marshalAck np True []), on_bridge (attach_mailbox
     \<lparr>at_mailboxID = mid, at_readSecret = secret, at_shardURL = base, at_routerURL = base\<rparr>) s)"
  using request_payloads(2) [OF assms(1-3)] base assms(4)
  by (simp add: dispatch_def codec onAttach_def hbind_def running_pass decoded_def hreturn_def answer_def transport_def plain_base_def)

lemma send_answer:
  assumes p: "np_bytes np [(1, frame), (2, pub)] = Inr p" "length pub = 32"
    and b: "br_running (ss_bridge s)" "br_routerURL (ss_bridge s) = base"
    and key: "br_courierPriv (ss_bridge s) = priv" "length priv = 64"
    and dr: "dr_nonce dr = Inr nonce" "length nonce = 16" "near t0 (dr_now dr)"
    and d: "ss_net s = (k, d)" "ro_shards (dm_router d) = [(base, st)]" "ro_resRL (dm_router d) = []"
      "dm_buckets d = []" "store_ok st" "ms_replay st = []"
    and mid: "mid = MailboxIDFromPub (cfg_Secret (ds_config ds)) pub" "queue st mid = []"
      "MailboxExists (ev_second (snd (envs (Suc k)))) mid st"
    and frame: "0 < length frame" "length frame \<le> MaxMessageBytes"
  shows "\<exists>d' st' msg. dispatch ho dr opSend p s = ((opSend, marshalAck np True []), s\<lparr>ss_net := (Suc (Suc k), d')\<rparr>)
    \<and> ro_shards (dm_router d') = [(base, st')] \<and> window_of (dm_buckets d') ''recv-ip:'' = None
    \<and> queue st' mid = [stored (ev_second (snd (envs (Suc k)))) (ev_id (snd (envs (Suc k)))) msg] \<and> sm_Envelope msg = frame
    \<and> (\<forall>secret. CheckReadSecret mid secret st' = CheckReadSecret mid secret st)
    \<and> (\<forall>t < mailbox_deadline (ev_second (snd (envs (Suc k)))). MailboxExists t mid st')"
proof -
  have req: "unmarshalSend np p = Inr \<lparr>sr_frame = frame, sr_recipientPub = pub, sr_mailboxID = [], sr_shardURL = []\<rparr>"
    using p(1) frame by (intro request_payloads) simp_all
  obtain d1 where d1: "resolve ho pub base s = (Inr (mid, base), s\<lparr>ss_net := (Suc k, d1)\<rparr>)"
      "ro_shards (dm_router d1) = [(base, st)]" "dm_buckets d1 = []"
    using resolve_call [OF p(2) d(1-3)] d(2,4) mid(1) by auto
  let ?s1 = "s\<lparr>ss_net := (Suc k, d1)\<rparr>"
  have len: "length mid = 16" by (simp add: mid(1))
  obtain d' st' msg where post: "postMessage ho dr base mid frame ?s1 = (Inr (), ?s1\<lparr>ss_net := (Suc (Suc k), d')\<rparr>)"
      "ro_shards (dm_router d') = [(base, st')]" "window_of (dm_buckets d') ''recv-ip:'' = None"
      "queue st' mid = [stored (ev_second (snd (envs (Suc k)))) (ev_id (snd (envs (Suc k)))) msg]" "sm_Envelope msg = frame"
      "\<forall>secret. CheckReadSecret mid secret st' = CheckReadSecret mid secret st"
      "\<forall>t < mailbox_deadline (ev_second (snd (envs (Suc k)))). MailboxExists t mid st'"
    using post_call [of ?s1 priv dr nonce "Suc k" d1 st mid frame] key dr d1 d mid(2,3) len frame by auto
  have "dispatch ho dr opSend p s = ((opSend, marshalAck np True []), s\<lparr>ss_net := (Suc (Suc k), d')\<rparr>)"
    using req b p(2) base d1(1) post(1)
    by (simp add: dispatch_def codec onSend_def hbind_def running_pass decoded_def handler_defs answer_def transport_def
        router_or_def effectiveRouter_def plain_base_def)
  then show ?thesis using post(2-) by blast
qed

lemma poll_answer:
  assumes p: "np_bytes np [(1, [limit])] = Inr p"
    and b: "br_running (ss_bridge s)"
      "br_mailboxes (ss_bridge s) = [(mid, \<lparr>bm_readSecret = secret, bm_shardURL = base, bm_routerURL = base\<rparr>)]"
    and d: "ss_net s = (k, d)" "ro_shards (dm_router d) = [(base, st)]" "window_of (dm_buckets d) ''recv-ip:'' = None"
    and may: "length mid = 16" "length secret = 32" "MailboxExists (ev_first (snd (envs k))) mid st"
      "CheckReadSecret mid secret st"
    and ok: "queue st mid = [m]" "ev_first (snd (envs k)) < msg_ExpiresAt m"
      "length (msg_ID m) = 16" "0 < length (msg_Envelope m)" "length (msg_Envelope m) \<le> MaxMessageBytes"
  shows "\<exists>d'. dispatch ho dr opPoll p s
      = ((opPoll, marshalPollResult np [msg_Envelope m]), s\<lparr>ss_net := (Suc k, d')\<rparr>)
    \<and> queue (dm_store d') mid = []"
proof -
  define L where "L = unat (if limit = 0 then 32 else limit)"
  have L: "0 < L" by (auto simp: L_def unat_gt_0)
  define n where "n = (if int L \<le> 0 \<or> int L > 32 then 32 else int L)"
  have n: "0 < n" "n \<le> 32" using L by (auto simp: n_def)
  have live: "take (nat n) (unexpired (ev_first (snd (envs k))) st mid) = [m]"
    "unexpired (ev_first (snd (envs k))) st mid = [m]"
    using ok(1,2) n by (simp_all add: unexpired_def)
  obtain d' where d': "fetchBatch ho base mid secret n s = (Inr [msg_Envelope m], s\<lparr>ss_net := (Suc k, d')\<rparr>)"
      "queue (dm_store d') mid = []"
    using fetch_call [OF d may _ n refl] ok live by auto
  then have "fetchBatch ho base mid secret (int L) s = (Inr [msg_Envelope m], s\<lparr>ss_net := (Suc k, d')\<rparr>)"
    by (subst fetch_clamp) (simp add: n_def)
  then have "poll_loop ho L [(mid, \<lparr>bm_readSecret = secret, bm_shardURL = base, bm_routerURL = base\<rparr>)] [] s
      = (Inr [msg_Envelope m], s\<lparr>ss_net := (Suc k, d')\<rparr>)"
    using L by (simp add: hbind_def hreturn_def)
  then have "dispatch ho dr opPoll p s
      = ((opPoll, marshalPollResult np [msg_Envelope m]), s\<lparr>ss_net := (Suc k, d')\<rparr>)"
    using request_payloads(4) [OF p] b
    by (simp add: dispatch_def codec onPoll_def hbind_def running_pass decoded_def hreturn_def answer_def transport_def
        look_def poll_targets_def L_def [symmetric] del: poll_loop.simps)
  then show ?thesis using d'(2) by blast
qed

text \<open>
  A poll that reads one mailbox and then fails on another: the frames it read are in no response and no
  longer in the mailbox.
\<close>

lemma poll_loses:
  assumes p: "np_bytes np [(1, [limit])] = Inr p" "length (queue st mid) < unat (if limit = 0 then 32 else limit)"
      "length (queue st mid) \<le> 32"
    and b: "br_running (ss_bridge s)" "br_mailboxes (ss_bridge s)
        = [(mid, \<lparr>bm_readSecret = secret, bm_shardURL = base, bm_routerURL = r\<rparr>),
           (gone, \<lparr>bm_readSecret = secret', bm_shardURL = base, bm_routerURL = r'\<rparr>)]"
    and d: "ss_net s = (k, d)" "ro_shards (dm_router d) = [(base, st)]" "window_of (dm_buckets d) ''recv-ip:'' = None"
    and may: "length mid = 16" "length secret = 32" "MailboxExists (ev_first (snd (envs k))) mid st"
      "CheckReadSecret mid secret st"
    and gone: "length gone = 16" "length secret' = 32" "mailbox_of st gone = None"
    and ok: "\<forall>m \<in> set (queue st mid). ev_first (snd (envs k)) < msg_ExpiresAt m
       \<and> length (msg_ID m) = 16 \<and> 0 < length (msg_Envelope m) \<and> length (msg_Envelope m) \<le> MaxMessageBytes"
  shows "\<exists>e s'. dispatch ho dr opPoll p s = ((opError, marshal_rpc_error np errTransport e), s')
    \<and> queue (dm_store (snd (ss_net s'))) mid = []"
proof -
  let ?now = "ev_first (snd (envs k))"
  define L where "L = unat (if limit = 0 then 32 else limit)"
  have L: "length (queue st mid) < L" using p(2) by (simp add: L_def)
  define n where "n = (if int L \<le> 0 \<or> int L > 32 then 32 else int L)"
  have n: "0 < n" "n \<le> 32" "length (queue st mid) \<le> nat n" using L p(3) by (auto simp: n_def)
  have live: "unexpired ?now st mid = queue st mid" using ok by (simp add: unexpired_def)
  have ne: "gone \<noteq> mid" using gone(3) may(3) by (auto simp: MailboxExists_def)
  obtain d1 where d1: "fetchBatch ho base mid secret n s = (Inr (map msg_Envelope (queue st mid)), s\<lparr>ss_net := (Suc k, d1)\<rparr>)"
      "queue (dm_store d1) mid = []" "mailbox_of (dm_store d1) gone = None" "ro_shards (dm_router d1) = [(base, dm_store d1)]"
    using fetch_call [OF d may _ n(1,2) refl] ok n(3) gone(3) ne live by auto
  then have one: "fetchBatch ho base mid secret (int L) s = (Inr (map msg_Envelope (queue st mid)), s\<lparr>ss_net := (Suc k, d1)\<rparr>)"
    by (subst fetch_clamp) (simp add: n_def)
  obtain e d2 where two: "fetchBatch ho base gone secret' (int L - int (length (queue st mid))) (s\<lparr>ss_net := (Suc k, d1)\<rparr>)
        = (Inl e, s\<lparr>ss_net := (Suc (Suc k), d2)\<rparr>)" "dm_store d2 = dm_store d1"
    using fetch_refused [of "s\<lparr>ss_net := (Suc k, d1)\<rparr>" "Suc k", OF _ d1(4) gone(1,2) d1(3)] by fastforce
  have "poll_loop ho L [(mid, \<lparr>bm_readSecret = secret, bm_shardURL = base, bm_routerURL = r\<rparr>),
      (gone, \<lparr>bm_readSecret = secret', bm_shardURL = base, bm_routerURL = r'\<rparr>)] [] s
      = (Inl e, s\<lparr>ss_net := (Suc (Suc k), d2)\<rparr>)"
    using L one two(1) by (simp add: hbind_def)
  then have "dispatch ho dr opPoll p s = ((opError, marshal_rpc_error np errTransport e), s\<lparr>ss_net := (Suc (Suc k), d2)\<rparr>)"
    using request_payloads(4) [OF p(1)] b
    by (simp add: dispatch_def codec onPoll_def hbind_def running_pass decoded_def hreturn_def answer_def transport_def
        look_def poll_targets_def L_def [symmetric] del: poll_loop.simps)
  then show ?thesis using two(2) d1(2) by auto
qed

text \<open>A courier registers with a daemon just started and attaches the mailbox it was given.\<close>

lemma courier_joins:
  assumes d: "d = new_daemon addr" "base = baseURL addr"
    and bob: "ss_net bob = (0, d)" "br_running (ss_bridge bob)" "br_mailboxes (ss_bridge bob) = []"
      "scopedKey dr1 tag bob = (Inr bobKey, bob0)" "length bobKey = 64"
      "dr_nonce dr1 = Inr nonce1" "length nonce1 = 16" "near t0 (dr_now dr1)"
    and payload: "np_bytes np [(1, bytes_of tag), (2, bytes_of base)] = Inr regp"
    and mid: "mid = MailboxIDFromPub (cfg_Secret (ds_config ds)) (Public bobKey)"
  shows "\<exists>secret d1 st attp bob1 bob2.
      dispatch ho dr1 opRegister regp bob = ((opRegister, marshalRegisterResult np mid secret base base), bob1)
    \<and> length secret = 32
    \<and> np_bytes np [(1, mid), (2, secret), (3, bytes_of base), (4, bytes_of base)] = Inr attp
    \<and> dispatch ho dr1 opAttach attp bob1 = ((opAttach, marshalAck np True []), bob2)
    \<and> ss_net bob2 = (1, d1) \<and> br_running (ss_bridge bob2)
    \<and> br_mailboxes (ss_bridge bob2) = [(mid, \<lparr>bm_readSecret = secret, bm_shardURL = base, bm_routerURL = base\<rparr>)]
    \<and> ro_shards (dm_router d1) = [(base, st)] \<and> ro_resRL (dm_router d1) = [] \<and> dm_buckets d1 = []
    \<and> store_ok st \<and> ms_replay st = [] \<and> queue st mid = [] \<and> CheckReadSecret mid secret st
    \<and> (\<forall>t. near t0 t \<longrightarrow> MailboxExists t mid st)"
proof -
  have fresh: "ro_shards (dm_router d) = [(base, NewMemStore)]" "ro_regRL (dm_router d) = []"
      "ro_replay (dm_router d) = []" "ro_resRL (dm_router d) = []" "dm_buckets d = []"
    by (simp_all add: d new_daemon_def NewRouter_def)
  have bob0: "ss_net bob0 = (0, d)" "br_running (ss_bridge bob0)" "br_mailboxes (ss_bridge bob0) = []"
    using scopedKey_frame [OF bob(4)] bob(1-3) by simp_all
  obtain secret d1 where reg: "dispatch ho dr1 opRegister regp bob
        = ((opRegister, marshalRegisterResult np mid secret base base), bob0\<lparr>ss_net := (Suc 0, d1)\<rparr>)"
      "length secret = 32"
      "ro_shards (dm_router d1) = [(base, snd (CreateMailbox (re_store (fst (envs 0))) mid (sha256 secret) NewMemStore))]"
      "ro_resRL (dm_router d1) = []" "dm_buckets d1 = []"
    using register_answer [OF payload bob(4-8) bob0(1) fresh(1-3) mid] fresh by auto
  let ?bob1 = "bob0\<lparr>ss_net := (Suc 0, d1)\<rparr>"
  define st where "st = snd (CreateMailbox (re_store (fst (envs 0))) mid (sha256 secret) NewMemStore)"
  have st: "store_ok st" "ms_replay st = []" "queue st mid = []" "CheckReadSecret mid secret st"
    by (simp_all only: st_def new_mailbox_store CreateMailbox_opens(1) [OF reg(2)])
  have alive: "MailboxExists t mid st" if "near t0 t" for t
    unfolding st_def using that env_clock(2) [of 0] time by (intro CreateMailbox_opens(2)) (simp add: near_def i64_id)
  obtain attp where attp: "np_bytes np [(1, mid), (2, secret), (3, bytes_of base), (4, bytes_of base)] = Inr attp"
    using np_total by fastforce
  define bob2 where "bob2 = on_bridge (attach_mailbox \<lparr>at_mailboxID = mid, at_readSecret = secret,
      at_shardURL = base, at_routerURL = base\<rparr>) ?bob1"
  have att: "dispatch ho dr1 opAttach attp ?bob1 = ((opAttach, marshalAck np True []), bob2)"
    unfolding bob2_def using attach_answer [OF attp _ reg(2)] bob0(2) by (simp add: mid)
  have bob2: "ss_net bob2 = (Suc 0, d1)" "br_running (ss_bridge bob2)" "br_mailboxes (ss_bridge bob2)
      = [(mid, \<lparr>bm_readSecret = secret, bm_shardURL = base, bm_routerURL = base\<rparr>)]"
    using bob0 by (simp_all add: bob2_def on_bridge_def attach_mailbox_def Let_def)
  then show ?thesis
    using reg attp att st alive unfolding st_def One_nat_def by blast
qed

text \<open>From a daemon just started to the frame in the receiver's poll result.\<close>

lemma frame_arrives:
  assumes d: "d = new_daemon addr" "base = baseURL addr"
    and bob: "ss_net bob = (0, d)" "br_running (ss_bridge bob)" "br_mailboxes (ss_bridge bob) = []"
      "scopedKey dr1 tag bob = (Inr bobKey, bob0)" "length bobKey = 64"
      "dr_nonce dr1 = Inr nonce1" "length nonce1 = 16" "near t0 (dr_now dr1)"
    and alice: "br_running (ss_bridge alice)" "br_routerURL (ss_bridge alice) = base"
      "length (br_courierPriv (ss_bridge alice)) = 64"
      "dr_nonce dr2 = Inr nonce2" "length nonce2 = 16" "near t0 (dr_now dr2)"
    and frame: "0 < length frame" "length frame \<le> MaxMessageBytes"
    and payloads: "np_bytes np [(1, bytes_of tag), (2, bytes_of base)] = Inr regp"
      "np_bytes np [(1, frame), (2, Public bobKey)] = Inr sendp" "np_bytes np [(1, [limit])] = Inr pollp"
  shows "\<exists>regr bob1 rr attp ack bob2 alice1 bob3.
      dispatch ho dr1 opRegister regp bob = ((opRegister, regr), bob1)
    \<and> unmarshalRegisterResult np regr = Inr rr
    \<and> np_bytes np [(1, rres_MailboxID rr), (2, rres_ReadSecret rr), (3, bytes_of (rres_ShardURL rr)),
                  (4, bytes_of (rres_RouterURL rr))] = Inr attp
    \<and> dispatch ho dr1 opAttach attp bob1 = ((opAttach, ack), bob2) \<and> unmarshalAck np short ack = (True, [])
    \<and> dispatch ho dr2 opSend sendp (alice\<lparr>ss_net := ss_net bob2\<rparr>) = ((opSend, ack), alice1)
    \<and> dispatch ho dr3 opPoll pollp (bob2\<lparr>ss_net := ss_net alice1\<rparr>) = ((opPoll, marshalPollResult np [frame]), bob3)
    \<and> queue (dm_store (snd (ss_net bob3))) (rres_MailboxID rr) = []"
proof -
  let ?mid = "MailboxIDFromPub (cfg_Secret (ds_config ds)) (Public bobKey)"
  obtain secret d1 st attp bob1 bob2 where reg:
      "dispatch ho dr1 opRegister regp bob = ((opRegister, marshalRegisterResult np ?mid secret base base), bob1)"
      "length secret = 32" "np_bytes np [(1, ?mid), (2, secret), (3, bytes_of base), (4, bytes_of base)] = Inr attp"
      "dispatch ho dr1 opAttach attp bob1 = ((opAttach, marshalAck np True []), bob2)"
    and bob2: "ss_net bob2 = (1, d1)" "br_running (ss_bridge bob2)"
      "br_mailboxes (ss_bridge bob2) = [(?mid, \<lparr>bm_readSecret = secret, bm_shardURL = base, bm_routerURL = base\<rparr>)]"
    and d1: "ro_shards (dm_router d1) = [(base, st)]" "ro_resRL (dm_router d1) = []" "dm_buckets d1 = []"
    and st: "store_ok st" "ms_replay st = []" "queue st ?mid = []" "CheckReadSecret ?mid secret st"
      "\<forall>t. near t0 t \<longrightarrow> MailboxExists t ?mid st"
    using courier_joins [OF d bob payloads(1) refl] by blast
  let ?alice = "alice\<lparr>ss_net := ss_net bob2\<rparr>"
  have times: "near t0 (ev_second (snd (envs 2)))" "near t0 (ev_first (snd (envs 3)))"
    by (rule env_clock)+
  obtain d2 st' msg where send:
      "dispatch ho dr2 opSend sendp ?alice = ((opSend, marshalAck np True []), ?alice\<lparr>ss_net := (3, d2)\<rparr>)"
      "ro_shards (dm_router d2) = [(base, st')]" "window_of (dm_buckets d2) ''recv-ip:'' = None"
      "queue st' ?mid = [stored (ev_second (snd (envs 2))) (ev_id (snd (envs 2))) msg]" "sm_Envelope msg = frame"
      "\<forall>secret. CheckReadSecret ?mid secret st' = CheckReadSecret ?mid secret st"
      "\<forall>t < mailbox_deadline (ev_second (snd (envs 2))). MailboxExists t ?mid st'"
    using send_answer [OF payloads(2) Public_length [OF bob(5)], of ?alice _ dr2 nonce2 1 d1 st ?mid]
      alice bob2(1) d1 st times(1) frame
    by (auto simp: numeral_2_eq_2 numeral_3_eq_3)
  let ?m = "stored (ev_second (snd (envs 2))) (ev_id (snd (envs 2))) msg"
  have m: "ev_first (snd (envs 3)) < msg_ExpiresAt ?m" "length (msg_ID ?m) = 16" "msg_Envelope ?m = frame"
      "ev_first (snd (envs 3)) < mailbox_deadline (ev_second (snd (envs 2)))"
    using times env_clock(6) [of 2] time send(5) by (simp_all add: stored_def near_def i64_id)
  obtain d3 where poll: "dispatch ho dr3 opPoll pollp (bob2\<lparr>ss_net := (3, d2)\<rparr>)
        = ((opPoll, marshalPollResult np [frame]), bob2\<lparr>ss_net := (4, d3)\<rparr>)"
      "queue (dm_store d3) ?mid = []"
    using poll_answer [OF payloads(3), of "bob2\<lparr>ss_net := (3, d2)\<rparr>" ?mid secret 3 d2 st' ?m dr3]
      bob2 send st(4) reg(2) m frame by auto
  have regr: "unmarshalRegisterResult np (marshalRegisterResult np ?mid secret base base) = Inr
      \<lparr>rres_MailboxID = ?mid, rres_ReadSecret = secret, rres_ShardURL = base, rres_RouterURL = base\<rparr>"
    using register_result_rt [OF reg(3) _ reg(2)] base by (simp add: plain_base_def)
  obtain ackb where "np_bytes np [(1, flag_byte True), (2, bytes_of [])] = Inr ackb" using np_total by fastforce
  then have ack: "unmarshalAck np short (marshalAck np True []) = (True, [])" by (rule ack_rt)
  show ?thesis
    using reg(1,3,4) regr ack send(1) poll
    by - (rule exI [of _ "marshalRegisterResult np ?mid secret base base"], rule exI [of _ bob1],
      rule exI [of _ "\<lparr>rres_MailboxID = ?mid, rres_ReadSecret = secret, rres_ShardURL = base, rres_RouterURL = base\<rparr>"],
      rule exI [of _ attp], rule exI [of _ "marshalAck np True []"], rule exI [of _ bob2],
      rule exI [of _ "?alice\<lparr>ss_net := (3, d2)\<rparr>"], rule exI [of _ "bob2\<lparr>ss_net := (4, d3)\<rparr>"], simp)
qed

end

end
