(* ===== verification/Accepted_Transfers.thy ===== *)
theory Accepted_Transfers
  imports Accepted
begin

text \<open>
  The same for the transfer routes: a request to create, upload to, seal or read a transfer that passes
  every check is answered with status 200, with a body the client decodes, and the store is the one the
  store operation leaves.
\<close>

section \<open>Limits\<close>

lemma allow_cong: "window_of b k = window_of b' k \<Longrightarrow> fst (allow k now mx b) = fst (allow k now mx b')"
  by (auto simp: allow_def allow_window_def window_of_def Let_def split: option.splits)

lemma limited_allowed:
  "fst (allow key now mx (h_buckets h)) \<Longrightarrow>
   limited key now mx h = (Inr (), h\<lparr>h_buckets := snd (allow key now mx (h_buckets h))\<rparr>)"
  by (auto simp: limited_def hbind_def hon_def hrequire_def hreturn_def split: prod.splits)

text \<open>A window with room for \<open>n\<close> more requests.\<close>

definition room_for :: "nat \<Rightarrow> int \<Rightarrow> string \<Rightarrow> buckets \<Rightarrow> bool" where
  "room_for n mx key b \<longleftrightarrow>
     int n \<le> mx \<and> (case window_of b key of None \<Rightarrow> True | Some (c, r) \<Rightarrow> c + int n \<le> mx)"

lemma room_allows:
  assumes "room_for (Suc n) mx key b"
  shows "fst (allow key now mx b)" and "room_for n mx key (snd (allow key now mx b))"
  using assms
  by (auto simp: room_for_def allow_def allow_window_def window_of_def Let_def update_conv' split: option.splits)

lemma room_other: "k \<noteq> key \<Longrightarrow> room_for n mx k (snd (allow key now mx' b)) = room_for n mx k b"
  by (simp add: room_for_def allow_other)

section \<open>The routes\<close>

context total_codec
begin

lemma create_served:
  assumes sv: "sv_np sv = np" "sv_store sv = mem_store"
    and body: "MarshalTransferCreate np req = Inr body" "length (tc_MailboxID req) = 16"
    and sig: "VerifyXferCreate (sv_verify sv) (tc_SenderPub req) (tc_MailboxID req) (tc_TotalSize req)
       (tc_ChunkSize req) (tc_ChunkCount req) (tc_Timestamp req) (tc_Nonce req) (tc_Manifest req)
       (tc_Signature req) (ev_now ev) = None"
    and new: "CheckAndMarkReplay (ev_first ev)
       (replayKey replayDomainCreate (tc_SenderPub req) (tc_Nonce req)) (h_store h) = (False, s1)"
      "h_buckets h = []"
    and room: "CreateTransfer (ev_second ev) (ev_id ev) (ev_ticket ev) req s1 = (Inr (tid, tk, e), s2)"
      "length (ev_id ev) = 16" "length tk = 32"
  shows "\<exists>resp h'. ServeHTTP sv ev (post_request RouteTransferCreate body) h
      = (Some (writeProto SchemaTransferCreateResponse resp), h')
    \<and> UnmarshalTransferCreateResponse np resp = Inr \<lparr>tcr_TransferID = tid, tcr_ExpiresAt = e,
         tcr_ChunkSize = tc_ChunkSize req, tcr_DownloadSecret = tk\<rparr>
    \<and> h_store h' = s2 \<and> (\<forall>key. window_of (h_buckets h') (''put-'' @ key) = None)"
proof -
  have dec: "UnmarshalTransferCreate np body = Inr req" using body(1) by (rule transfer_create_rt)
  have read: "readBody (post_request RouteTransferCreate body) (MaxManifestBytes + 512) = Inr body"
    using body dec read_posted by (fastforce simp: MarshalTransferCreate_def marshal_Inr UnmarshalTransferCreate_def)
  have valid: "length (tc_SenderPub req) = 32" "length (tc_Nonce req) = 16"
    using CreateTransfer_Inr(1) [OF room(1)] by (simp_all add: ValidateTransferCreateMsg_None)
  have "tid = ev_id ev" using room(1) by (rule CreateTransfer_Inr(2))
  then obtain resp where resp: "MarshalTransferCreateResponse np \<lparr>tcr_TransferID = tid, tcr_ExpiresAt = e,
      tcr_ChunkSize = tc_ChunkSize req, tcr_DownloadSecret = tk\<rparr> = Inr resp"
    using np_total room(2,3) by (fastforce simp: MarshalTransferCreateResponse_def marshal_def)
  let ?k1 = "''create-sender:'' @ hex_encode (tc_SenderPub req)" and ?lim = "sv_limits sv"
  define b1 where "b1 = snd (allow ?k1 (ev_now ev) (SendsPerSender ?lim) [])"
  define b2 where "b2 = snd (allow ''create-ip:'' (ev_now ev) (SendsPerIP ?lim) b1)"
  have pass: "fst (allow ?k1 (ev_now ev) (SendsPerSender ?lim) [])" "fst (allow ''create-ip:'' (ev_now ev) (SendsPerIP ?lim) b1)"
    by (simp_all add: allow_fresh b1_def allow_other)
  have quiet: "window_of b2 (''put-'' @ key) = None" for key
    by (simp add: b2_def b1_def allow_other)
  have "handleCreate sv ev (post_request RouteTransferCreate body) h
      = (Inr (SchemaTransferCreateResponse, resp), h\<lparr>h_store := s2, h_buckets := b2\<rparr>)"
    using valid read dec sig new room resp sv body(2) pass
    by (simp add: handleCreate_def Let_def hbind_def handler_defs post_only_def call_store_def limited_allowed
        convert_def to32_def to16_def fresh_def b1_def b2_def)
  then have "ServeHTTP sv ev (post_request RouteTransferCreate body) h
      = (Some (writeProto SchemaTransferCreateResponse resp), h\<lparr>h_store := s2, h_buckets := b2\<rparr>)"
    by (intro served [where handle = handleCreate]) simp_all
  then show ?thesis using transfer_create_response_rt [OF resp] quiet by auto
qed

lemma put_served:
  assumes sv: "sv_np sv = np" "sv_store sv = mem_store"
    and body: "MarshalChunkUpload np c = Inr body"
    and lim: "room_for (Suc n) (PutsPerXfer (sv_limits sv)) (''put-xfer:'' @ hex_encode (cu_TransferID c)) (h_buckets h)"
      "room_for (Suc n) (PutsPerIP (sv_limits sv)) ''put-ip:'' (h_buckets h)"
    and put: "PutChunk (ev_first ev) c (h_store h) = (Inr m, s1)"
      "Progress (ev_second ev) (cu_TransferID c) s1 = (Inr (rv, tv), s2)"
    and small: "length (rw_MissingRanges rv) mod 8 = 0" "length (rw_MissingRanges rv) + length (rw_Bitmap rv) \<le> 8000"
  shows "\<exists>resp h' ack. ServeHTTP sv ev (post_request RouteChunkPut body) h = (Some (writeProto SchemaChunkAck resp), h')
    \<and> UnmarshalChunkAck np resp = Inr ack \<and> h_store h' = s2
    \<and> room_for n (PutsPerXfer (sv_limits sv)) (''put-xfer:'' @ hex_encode (cu_TransferID c)) (h_buckets h')
    \<and> room_for n (PutsPerIP (sv_limits sv)) ''put-ip:'' (h_buckets h')"
proof -
  have dec: "UnmarshalChunkUpload np body = Inr c" using body by (rule chunk_upload_rt)
  have read: "readBody (post_request RouteChunkPut body) (MaxChunkBytes + 2048) = Inr body"
    using body dec read_posted by (fastforce simp: MarshalChunkUpload_def marshal_Inr UnmarshalChunkUpload_def)
  have "ValidateChunkUpload c = None" using body by (simp add: MarshalChunkUpload_def marshal_Inr)
  then have tid: "length (cu_TransferID c) = 16" by (simp add: ValidateChunkUpload_None)
  define ack where "ack = \<lparr>ca_TransferID = cu_TransferID c, ca_HighestContiguous = rw_HighestContiguous rv,
      ca_MissingRanges = rw_MissingRanges rv, ca_Bitmap = rw_Bitmap rv, ca_Encoding = rw_Encoding rv\<rparr>"
  obtain resp where resp: "MarshalChunkAck np ack = Inr resp"
    using np_total tid small by (fastforce simp: MarshalChunkAck_def marshal_def ack_def)
  have rt: "UnmarshalChunkAck np resp = Inr ack"
    using resp small by (intro chunk_ack_rt) (simp_all add: ack_def)
  let ?b = "h_buckets h" and ?k = "''put-xfer:'' @ hex_encode (cu_TransferID c)" and ?lim = "sv_limits sv"
  define b1 where "b1 = snd (allow ?k (ev_now ev) (PutsPerXfer ?lim) ?b)"
  define b2 where "b2 = snd (allow ''put-ip:'' (ev_now ev) (PutsPerIP ?lim) b1)"
  have pass: "fst (allow ?k (ev_now ev) (PutsPerXfer ?lim) ?b)" "fst (allow ''put-ip:'' (ev_now ev) (PutsPerIP ?lim) b1)"
    "room_for n (PutsPerXfer ?lim) ?k b2" "room_for n (PutsPerIP ?lim) ''put-ip:'' b2"
    using lim room_allows room_other [of "''put-ip:''" ?k] room_other [of ?k "''put-ip:''"]
    by (auto simp: b1_def b2_def)
  have "handlePut sv ev (post_request RouteChunkPut body) h
      = (Inr (SchemaChunkAck, resp), h\<lparr>h_buckets := b2, h_store := s2\<rparr>)"
    using read dec tid put resp sv pass(1,2)
    by (simp add: handlePut_def Let_def hbind_def handler_defs post_only_def call_store_def limited_allowed
        ack_def b1_def b2_def)
  then have "ServeHTTP sv ev (post_request RouteChunkPut body) h
      = (Some (writeProto SchemaChunkAck resp), h\<lparr>h_buckets := b2, h_store := s2\<rparr>)"
    by (intro served [where handle = handlePut]) simp_all
  then show ?thesis using rt pass(3,4) by auto
qed

lemma complete_served:
  assumes sv: "sv_np sv = np" "sv_store sv = mem_store"
    and body: "MarshalTransferComplete np req = Inr body"
    and sig: "VerifyXferComplete (sv_verify sv) (tf_SenderPub req) (tf_TransferID req) (tf_ManifestHash req)
       (tf_Timestamp req) (tf_Nonce req) (tf_Signature req) (ev_now ev) = None"
    and new: "CheckAndMarkReplay (ev_first ev)
       (replayKey replayDomainComplete (tf_SenderPub req) (tf_Nonce req)) (h_store h) = (False, s1)"
    and get: "GetTransfer (ev_second ev) (tf_TransferID req) s1 = (Inr tv, s2)" "tv_SenderPub tv = tf_SenderPub req"
    and seal: "CompleteTransfer (ev_third ev) req s2 = (res, s3)" "cr_err res = None"
  shows "\<exists>resp out. ServeHTTP sv ev (post_request RouteComplete body) h
      = (Some (writeProto SchemaTransferCompleteResponse resp), h\<lparr>h_store := s3\<rparr>)
    \<and> UnmarshalTransferCompleteResponse np resp = Inr out"
proof -
  have dec: "UnmarshalTransferComplete np body = Inr req" using body by (rule transfer_complete_rt)
  have read: "readBody (post_request RouteComplete body) 512 = Inr body"
    using body dec read_posted by (fastforce simp: MarshalTransferComplete_def marshal_Inr UnmarshalTransferComplete_def)
  have valid: "length (tf_SenderPub req) = 32" "length (tf_Nonce req) = 16" "length (tf_TransferID req) = 16"
      "length (tf_ManifestHash req) = 32"
    using body by (simp_all add: MarshalTransferComplete_def marshal_Inr ValidateTransferComplete_None)
  obtain resp where resp: "MarshalTransferCompleteResponse np \<lparr>tfr_Sealed = (if cr_sealed res then 1 else 0),
      tfr_ChunkCount = cr_count res, tfr_Present = cr_present res\<rparr> = Inr resp"
    using np_total by (fastforce simp: MarshalTransferCompleteResponse_def)
  have "handleComplete sv ev (post_request RouteComplete body) h
      = (Inr (SchemaTransferCompleteResponse, resp), h\<lparr>h_store := s3\<rparr>)"
    using valid read dec sig new get seal resp sv
    by (simp add: handleComplete_def Let_def hbind_def handler_defs post_only_def call_store_def
        convert_def to32_def to16_def fresh_def complete_call_def)
  then have "ServeHTTP sv ev (post_request RouteComplete body) h
      = (Some (writeProto SchemaTransferCompleteResponse resp), h\<lparr>h_store := s3\<rparr>)"
    by (intro served [where handle = handleComplete]) simp_all
  then show ?thesis using transfer_complete_response_rt [OF resp] by blast
qed

lemma get_served:
  assumes sv: "sv_np sv = np" "sv_store sv = mem_store"
    and body: "MarshalChunkDownload np req = Inr body" "cd_Count req = 1" "length (cd_Ticket req) = 32"
    and read: "GetChunkByTicket (ev_first ev) (cd_TransferID req) (cd_Ticket req) (cd_Index req) (h_store h)
       = (Inr (p, sha256 p), s')" "0 < length p" "length p \<le> MaxChunkBytes"
  shows "\<exists>resp. ServeHTTP sv ev (post_request RouteChunkGet body) h
      = (Some (writeProto SchemaChunkDownloadResponse resp), h\<lparr>h_store := s'\<rparr>)
    \<and> UnmarshalChunkDownloadResponse np resp = Inr \<lparr>cdr_TransferID = cd_TransferID req, cdr_Index = cd_Index req,
         cdr_Payload = p, cdr_ChunkHash = sha256 p\<rparr>"
proof -
  have dec: "UnmarshalChunkDownload np body = Inr req" using body(1,3) by (intro chunk_download_rt) simp_all
  have rd: "readBody (post_request RouteChunkGet body) 256 = Inr body"
    using body dec read_posted by (fastforce simp: MarshalChunkDownload_def marshal_Inr UnmarshalChunkDownload_def)
  have tid: "length (cd_TransferID req) = 16"
    using body(1) by (simp add: MarshalChunkDownload_def marshal_Inr ValidateChunkDownload_None)
  have "check_ChunkDownloadResponse \<lparr>cdr_TransferID = cd_TransferID req, cdr_Index = cd_Index req,
      cdr_Payload = p, cdr_ChunkHash = sha256 p\<rparr> = None"
    using tid read(2,3) by (simp add: check_ChunkDownloadResponse_None)
  then obtain resp where resp: "MarshalChunkDownloadResponse np \<lparr>cdr_TransferID = cd_TransferID req,
      cdr_Index = cd_Index req, cdr_Payload = p, cdr_ChunkHash = sha256 p\<rparr> = Inr resp"
    using np_total by (fastforce simp: MarshalChunkDownloadResponse_def marshal_def)
  have "handleGet sv ev (post_request RouteChunkGet body) h
      = (Inr (SchemaChunkDownloadResponse, resp), h\<lparr>h_store := s'\<rparr>)"
    using rd dec tid body(2,3) read(1) resp sv
    by (simp add: handleGet_def Let_def hbind_def handler_defs post_only_def call_store_def TicketMode_def)
  then have "ServeHTTP sv ev (post_request RouteChunkGet body) h
      = (Some (writeProto SchemaChunkDownloadResponse resp), h\<lparr>h_store := s'\<rparr>)"
    by (intro served [where handle = handleGet]) simp_all
  then show ?thesis using chunk_download_response_rt [OF resp] by blast
qed

end

end
