(* ===== verification/File_Courier.thy ===== *)
theory File_Courier
  imports Courier Accepted_Transfers
begin

text \<open>
  A file from courier to courier: the sender's bridge creates a transfer on the daemon's shard, uploads
  the pieces and seals it, and the receiver's bridge reads it back with the ticket. The loops over the
  pieces are NexTalk's side of the RPC.
\<close>

section \<open>NexTalk's loops\<close>

definition put_payload :: "nanopack \<Rightarrow> bytes \<Rightarrow> nat \<Rightarrow> nat \<Rightarrow> bytes \<Rightarrow> bytes" where
  "put_payload np tid csize i piece =
     rpc_bytes np [(1, tid), (2, putU32 (word_of_nat i)), (3, piece), (4, sha256 piece),
                   (5, putU64 (word_of_nat (i * csize)))]"

fun bridge_upload ::
  "'w host \<Rightarrow> draws \<Rightarrow> bytes \<Rightarrow> nat \<Rightarrow> nat \<Rightarrow> bytes list \<Rightarrow> 'w session \<Rightarrow> 'w session option" where
  "bridge_upload ho dr tid csize i [] s = Some s"
| "bridge_upload ho dr tid csize i (piece # pieces) s =
     (case dispatch ho dr opXferPut (put_payload (ho_np ho) tid csize i piece) s of
        ((respOp, _), s') \<Rightarrow>
          if respOp = opXferPut then bridge_upload ho dr tid csize (Suc i) pieces s' else None)"

definition get_payload :: "nanopack \<Rightarrow> bytes \<Rightarrow> bytes \<Rightarrow> string \<Rightarrow> nat \<Rightarrow> bytes" where
  "get_payload np tid ticket url i =
     rpc_bytes np [(1, tid), (2, putU32 (word_of_nat i)), (5, ticket), (6, bytes_of url)]"

definition chunk_of_result :: "nanopack \<Rightarrow> bytes \<Rightarrow> bytes option" where
  "chunk_of_result np resp =
     (case np_decode np resp of
        Inr [(f1, payload), (f2, hash)] \<Rightarrow> if f1 = 1 \<and> f2 = 2 \<and> sha256 payload = hash then Some payload else None
      | _ \<Rightarrow> None)"

fun bridge_download ::
  "'w host \<Rightarrow> draws \<Rightarrow> bytes \<Rightarrow> bytes \<Rightarrow> string \<Rightarrow> nat list \<Rightarrow> 'w session \<Rightarrow> bytes option" where
  "bridge_download ho dr tid ticket url [] s = Some []"
| "bridge_download ho dr tid ticket url (i # is) s =
     (case dispatch ho dr opXferGet (get_payload (ho_np ho) tid ticket url i) s of
        ((respOp, resp), s') \<Rightarrow>
          if respOp = opXferGet then
            (case chunk_of_result (ho_np ho) resp of
               None \<Rightarrow> None
             | Some payload \<Rightarrow> map_option ((@) payload) (bridge_download ho dr tid ticket url is s'))
          else None)"

section \<open>The store between the requests\<close>

lemma CreateTransfer_replay:
  "CreateTransfer now i tk req s = (Inr x, s') \<Longrightarrow>
   CreateTransfer now i tk req (s\<lparr>ms_replay := m\<rparr>) = (Inr x, s'\<lparr>ms_replay := m\<rparr>)"
  by (auto simp: CreateTransfer_def Let_def getMailboxLocked_def activeTransfersLocked_def
      mailboxStoredBytesLocked_def put_transfer_def slide_mailbox_def put_mailbox_def
      split: option.splits if_splits)

lemma PutChunk_replay: "ms_replay (snd (PutChunk now c s)) = ms_replay s"
  by (auto simp: PutChunk_def Let_def getTransferLocked_def slide_mailbox_def split: option.splits prod.splits)

lemma mark_only:
  "CheckAndMarkReplay now k s = (False, s\<lparr>ms_replay := m\<rparr>) \<Longrightarrow> ms_replay s = [] \<Longrightarrow> k' \<noteq> k \<Longrightarrow> map_of m k' = None"
  by (cases s) (auto simp: CheckAndMarkReplay_def Let_def)

lemma Progress_alive:
  "transfer_of s tid = Some t \<Longrightarrow> now < td_expiresAt t \<Longrightarrow>
   Progress now tid s = (Inr (buildResumeViewLocked t tid), s)"
  by (simp add: Progress_def getTransferLocked_def)

lemma small_view:
  assumes "unat (td_chunkCount t) \<le> 256"
  shows "length (rw_MissingRanges (fst (buildResumeViewLocked t tid))) = 0"
    and "length (rw_Bitmap (fst (buildResumeViewLocked t tid))) \<le> 32"
  using assms bitmap_length [of "td_chunkCount t" "td_present t"]
  by (simp_all add: buildResumeViewLocked_def word_le_nat_alt)

lemma upload_state_replay:
  "upload_state tid data i t s \<Longrightarrow> store_ok (s\<lparr>ms_replay := m\<rparr>) \<Longrightarrow> upload_state tid data i t (s\<lparr>ms_replay := m\<rparr>)"
  by (simp add: upload_state_def mailboxStoredBytesLocked_def)

section \<open>The requests\<close>

definition courier_create ::
  "'w host \<Rightarrow> bytes \<Rightarrow> bytes \<Rightarrow> u64 \<Rightarrow> bytes \<Rightarrow> u64 \<Rightarrow> u32 \<Rightarrow> u32 \<Rightarrow> bytes \<Rightarrow> TransferCreate" where
  "courier_create ho priv nonce ts mid fsize csize count manifest =
     \<lparr>tc_MailboxID = mid, tc_TotalSize = fsize, tc_ChunkSize = csize, tc_ChunkCount = count,
      tc_Manifest = manifest, tc_SenderPub = Public priv, tc_Timestamp = ts, tc_Nonce = nonce,
      tc_Signature = ho_sign ho priv (CanonicalXferCreate (copy_array 32 (Public priv)) (copy_array 16 mid)
        fsize csize count ts nonce manifest)\<rparr>"

definition courier_complete :: "'w host \<Rightarrow> bytes \<Rightarrow> bytes \<Rightarrow> u64 \<Rightarrow> bytes \<Rightarrow> bytes \<Rightarrow> TransferComplete" where
  "courier_complete ho priv nonce ts tid mhash =
     \<lparr>tf_TransferID = tid, tf_ManifestHash = mhash, tf_MailboxID = [], tf_SenderPub = Public priv,
      tf_Timestamp = ts, tf_Nonce = nonce,
      tf_Signature = ho_sign ho priv (CanonicalXferComplete (copy_array 32 (Public priv)) (copy_array 16 tid)
        (copy_array 32 mhash) ts nonce)\<rparr>"

definition put_room :: "RateLimits \<Rightarrow> nat \<Rightarrow> bytes \<Rightarrow> buckets \<Rightarrow> bool" where
  "put_room lim n tid b \<longleftrightarrow>
     room_for n (PutsPerXfer lim) (''put-xfer:'' @ hex_encode tid) b \<and> room_for n (PutsPerIP lim) ''put-ip:'' b"

text \<open>The store's clock at later requests is not before its reading at request \<open>k\<close>.\<close>

definition later :: "(nat \<Rightarrow> router_env \<times> environment) \<Rightarrow> nat \<Rightarrow> bool" where
  "later envs k \<longleftrightarrow> (\<forall>j > k. ev_second (snd (envs k)) \<le> ev_first (snd (envs j))
     \<and> ev_second (snd (envs k)) \<le> ev_second (snd (envs j)) \<and> ev_second (snd (envs k)) \<le> ev_third (snd (envs j)))"

context courier_net
begin

lemma rpc_bytes_rt:
  assumes "length fs < 256"
  shows "rpc_unmarshal np step zero finish (rpc_bytes np fs)
     = (case run_fields step zero fs of Inl e \<Rightarrow> Inl e | Inr s \<Rightarrow> finish s)"
  using np_total [OF assms] by (auto simp: rpc_bytes_def rpc_roundtrip)

lemma shard_post:
  assumes "daemon_mux route = Some To_shard" "ss_net s = (k, d)" "length resp \<le> 2097152"
    and "ServeHTTP (ds_server ds) (snd (envs k)) (post_request route body) (dm_shard d) = (Some (writeProto sch resp), h')"
  shows "post_ok ho what (base @ route) body s = (Inr resp, s\<lparr>ss_net := (Suc k, put_shard h' d)\<rparr>)"
  using assms by (simp add: post_ok_def postBinary_def net daemon_ServeHTTP_def hbind_def hreturn_def)

lemma dm_shard_sel:
  "ro_shards (dm_router d) = [(base, st)] \<Longrightarrow> h_store (dm_shard d) = st" "h_buckets (dm_shard d) = dm_buckets d"
  by (simp_all add: dm_shard_def dm_store_def store_at_def)

lemma create_answer:
  assumes p: "np_bytes np [(1, putU64 fsize), (2, putU32 csize), (3, putU32 count), (4, manifest), (5, mid),
      (7, bytes_of base)] = Inr p" "length mid = 16"
    and key: "br_courierPriv (ss_bridge s) = priv" "length priv = 64"
    and dr: "dr_nonce dr = Inr nonce" "length nonce = 16" "near t0 (dr_now dr)"
    and d: "ss_net s = (k, d)" "ro_shards (dm_router d) = [(base, st)]" "dm_buckets d = []" "store_ok st" "ms_replay st = []"
    and room: "CreateTransfer (ev_second (snd (envs k))) (ev_id (snd (envs k))) (ev_ticket (snd (envs k)))
        (courier_create ho priv nonce (u64_of_int64 (dr_now dr)) mid fsize csize count manifest) st
        = (Inr (tid, tk, e), st')" "length tk = 32"
  shows "\<exists>d' m. dispatch ho dr opXferCreate p s = ((opXferCreate, marshalXferCreated np tid tk base e),
        saveBindings dr (on_bridge (bind_transfer (hex_encode tid)
          \<lparr>tb_MailboxID = mid, tb_ShardURL = base, tb_ChunkCount = count\<rparr>) (s\<lparr>ss_net := (Suc k, d')\<rparr>)))
    \<and> ro_shards (dm_router d') = [(base, st'\<lparr>ms_replay := m\<rparr>)] \<and> store_ok (st\<lparr>ms_replay := m\<rparr>)
    \<and> (\<forall>key. key \<noteq> replayKey replayDomainCreate (Public priv) nonce \<longrightarrow> map_of m key = None)
    \<and> (\<forall>key. window_of (dm_buckets d') (''put-'' @ key) = None)"
proof -
  let ?e = "snd (envs k)" and ?ts = "u64_of_int64 (dr_now dr)"
  define req where "req = courier_create ho priv nonce ?ts mid fsize csize count manifest"
  have sel: "tc_SenderPub req = Public priv" "tc_Nonce req = nonce" "tc_MailboxID req = mid" "tc_ChunkSize req = csize"
    by (simp_all add: req_def courier_create_def)
  have valid: "ValidateTransferCreateMsg req = None"
    using CreateTransfer_Inr(1) [OF room(1)] by (simp add: req_def)
  then have nz: "fsize \<noteq> 0" "csize \<noteq> 0" "count \<noteq> 0"
    by (auto simp: ValidateTransferCreateMsg_None ValidateTransferCreate_None req_def courier_create_def)
  have dec: "unmarshalXferCreate np p = Inr \<lparr>xc_total = fsize, xc_chunkSize = csize, xc_chunkCount = count,
      xc_manifest = manifest, xc_mailboxID = mid, xc_recipientPub = [], xc_shardURL = base\<rparr>"
    using p nz by (simp add: unmarshalXferCreate_def xferCreate_field_def rpc_roundtrip)
  obtain body where body: "MarshalTransferCreate np req = Inr body"
    using np_total by (fastforce simp: MarshalTransferCreate_def valid marshal_def)
  have sig: "VerifyXferCreate (sv_verify (ds_server ds)) (tc_SenderPub req) (tc_MailboxID req) (tc_TotalSize req)
      (tc_ChunkSize req) (tc_ChunkCount req) (tc_Timestamp req) (tc_Nonce req) (tc_Manifest req)
      (tc_Signature req) (ev_now ?e) = None"
    using key(2) p(2) signatures near_skew [OF dr(3) env_clock(3)]
    by (simp add: VerifyXferCreate_def req_def courier_create_def Public_length)
  have "map_of (ms_replay st) (replayKey replayDomainCreate (Public priv) nonce) = None" using d(5) by simp
  with d(4) obtain m where m: "CheckAndMarkReplay (ev_first ?e) (replayKey replayDomainCreate (Public priv) nonce) st
      = (False, st\<lparr>ms_replay := m\<rparr>)"
    by (rule mark_fresh)
  have cr: "CreateTransfer (ev_second ?e) (ev_id ?e) (ev_ticket ?e) req (st\<lparr>ms_replay := m\<rparr>)
      = (Inr (tid, tk, e), st'\<lparr>ms_replay := m\<rparr>)"
    using room(1) unfolding req_def by (rule CreateTransfer_replay)
  obtain resp h' where srv: "ServeHTTP (ds_server ds) ?e (post_request RouteTransferCreate body) (dm_shard d)
        = (Some (writeProto SchemaTransferCreateResponse resp), h')"
      "UnmarshalTransferCreateResponse np resp = Inr \<lparr>tcr_TransferID = tid, tcr_ExpiresAt = e,
         tcr_ChunkSize = csize, tcr_DownloadSecret = tk\<rparr>"
      "h_store h' = st'\<lparr>ms_replay := m\<rparr>" "\<forall>key. window_of (h_buckets h') (''put-'' @ key) = None"
    using create_served [OF codec(3) servers(2) body _ sig _ _ cr env_clock(6) room(2), where h = "dm_shard d"]
      p(2) m d(3) dm_shard_sel(1) [OF d(2)] dm_shard_sel(2) [of d]
    by (auto simp: sel)
  have "length resp \<le> 2097152"
    using srv(2) unmarshal_size by (fastforce simp: UnmarshalTransferCreateResponse_def)
  note post = shard_post [OF _ d(1) this srv(1), of "''xfer-create''"]
  have "dispatch ho dr opXferCreate p s = ((opXferCreate, marshalXferCreated np tid tk base e),
        saveBindings dr (on_bridge (bind_transfer (hex_encode tid)
          \<lparr>tb_MailboxID = mid, tb_ShardURL = base, tb_ChunkCount = count\<rparr>) (s\<lparr>ss_net := (Suc k, put_shard h' d)\<rparr>)))"
    using dec p(2) base key dr(1) body srv(2) post
    by (simp add: dispatch_def codec onXferCreate_def Let_def hbind_def decoded_def drawn_def look_def handler_defs
        answer_def transport_def plain_base_def req_def courier_create_def)
  moreover have "store_ok (st\<lparr>ms_replay := m\<rparr>)" using CheckAndMarkReplay_ok [OF d(4)] m by (metis snd_conv)
  moreover have "map_of m key = None" if "key \<noteq> replayKey replayDomainCreate (Public priv) nonce" for key
    using mark_only [OF m d(5) that] .
  ultimately show ?thesis
    using srv(3,4) put_shard_shards [OF d(2), of h'] by (intro exI [of _ "put_shard h' d"] exI [of _ m]) simp
qed

lemma put_answer:
  assumes u: "upload_state tid data i t st" "i < unat (td_chunkCount t)" "unat (td_chunkCount t) \<le> 256"
    and w: "in_window t (ev_first (snd (envs k)))" "in_window t (ev_second (snd (envs k)))"
    and b: "map_of (xs_transfers (br_xfer (ss_bridge s))) (hex_encode tid) = Some tb" "tb_ShardURL tb = base"
    and d: "ss_net s = (k, d)" "ro_shards (dm_router d) = [(base, st)]" "put_room (sv_limits (ds_server ds)) (Suc n) tid (dm_buckets d)"
    and csize: "csize = unat (td_chunkSize t)"
    and c: "c = piece_upload tid csize i (chunks csize data ! i)"
  shows "\<exists>resp d' st'. dispatch ho dr opXferPut (put_payload np tid csize i (chunks csize data ! i)) s
      = ((opXferPut, resp), s\<lparr>ss_net := (Suc k, d')\<rparr>)
    \<and> ro_shards (dm_router d') = [(base, st')] \<and> put_room (sv_limits (ds_server ds)) n tid (dm_buckets d')
    \<and> upload_state tid data (Suc i) (put_new (ev_first (snd (envs k))) c t) st' \<and> ms_replay st' = ms_replay st"
proof -
  let ?e = "snd (envs k)" and ?piece = "chunks csize data ! i"
  define t' where "t' = put_new (ev_first ?e) c t"
  obtain st' where put: "PutChunk (ev_first ?e) c st = (Inr (td_presentCount t'), st')"
      "upload_state tid data (Suc i) t' st'"
    using upload_step [OF u(1,2) w(1)] by (auto simp: t'_def c csize)
  note u' = put(2) [unfolded upload_state_def]
  have "ev_second ?e < td_expiresAt t'" using w(2) u' by (simp add: in_window_def t'_def)
  then have prog: "Progress (ev_second ?e) (cu_TransferID c) st' = (Inr (buildResumeViewLocked t' tid), st')"
    using u' by (intro Progress_alive [THEN trans]) (simp_all add: c piece_upload_def)
  obtain rv tv where view: "buildResumeViewLocked t' tid = (rv, tv)" by fastforce
  have small: "length (rw_MissingRanges rv) = 0" "length (rw_Bitmap rv) \<le> 32"
    using small_view [of t' tid] u(3) view by (simp_all add: t'_def)
  have valid: "ValidateChunkUpload c = None" using PutChunk_Inr [OF put(1)] by auto
  then have len: "length tid = 16" "0 < length ?piece"
    by (auto simp: ValidateChunkUpload_None c piece_upload_def)
  obtain body where body: "MarshalChunkUpload np c = Inr body"
    using np_total by (fastforce simp: MarshalChunkUpload_def valid marshal_def)
  have tidc: "cu_TransferID c = tid" by (simp add: c piece_upload_def)
  have lim: "room_for (Suc n) (PutsPerXfer (sv_limits (ds_server ds))) (''put-xfer:'' @ hex_encode (cu_TransferID c)) (h_buckets (dm_shard d))"
      "room_for (Suc n) (PutsPerIP (sv_limits (ds_server ds))) ''put-ip:'' (h_buckets (dm_shard d))"
    using d(3) by (simp_all add: put_room_def dm_shard_sel(2) tidc)
  have put': "PutChunk (ev_first ?e) c (h_store (dm_shard d)) = (Inr (td_presentCount t'), st')"
    using put(1) by (simp add: dm_shard_sel(1) [OF d(2)])
  have prog': "Progress (ev_second ?e) (cu_TransferID c) st' = (Inr (rv, tv), st')" using prog view by simp
  have small': "length (rw_MissingRanges rv) mod 8 = 0" "length (rw_MissingRanges rv) + length (rw_Bitmap rv) \<le> 8000"
    using small by simp_all
  obtain resp h' ack where srv: "ServeHTTP (ds_server ds) ?e (post_request RouteChunkPut body) (dm_shard d)
        = (Some (writeProto SchemaChunkAck resp), h')"
      "UnmarshalChunkAck np resp = Inr ack" "h_store h' = st'" "put_room (sv_limits (ds_server ds)) n tid (h_buckets h')"
    using put_served [OF codec(3) servers(2) body lim put' prog' small'] by (auto simp: put_room_def tidc)
  have "length resp \<le> 2097152" using srv(2) unmarshal_size by (fastforce simp: UnmarshalChunkAck_def)
  note post = shard_post [OF _ d(1) this srv(1), of "''xfer-put''"]
  have "unmarshalXferPut np (put_payload np tid csize i ?piece) = Inr \<lparr>xp_transferID = tid, xp_index = word_of_nat i,
      xp_payload = ?piece, xp_hash = sha256 ?piece, xp_offset = word_of_nat (i * csize)\<rparr>"
    using len by (simp add: put_payload_def unmarshalXferPut_def xferPut_field_def rpc_bytes_rt)
  then have "dispatch ho dr opXferPut (put_payload np tid csize i ?piece) s
      = ((opXferPut, marshalXferProgress np (ca_HighestContiguous ack) (tb_ChunkCount tb)
           (ca_MissingRanges ack) (ca_Bitmap ack) (ca_Encoding ack)), s\<lparr>ss_net := (Suc k, put_shard h' d)\<rparr>)"
    using b base body srv(2) post
    by (simp add: dispatch_def codec onXferPut_def Let_def hbind_def decoded_def handler_defs bound_def bindFor_def
        answer_def transport_def c piece_upload_def ChunkHash_def)
  moreover have "ms_replay st' = ms_replay st" using PutChunk_replay [of "ev_first ?e" c st] put(1) by simp
  ultimately show ?thesis
    using srv(3,4) put(2) put_shard_shards [OF d(2), of h'] by (auto simp: t'_def)
qed

lemma upload_answer:
  assumes "upload_state tid data i t st" "i + n = unat (td_chunkCount t)" "unat (td_chunkCount t) \<le> 256"
    and "\<forall>j. k \<le> j \<and> j < k + n \<longrightarrow> in_window t (ev_first (snd (envs j))) \<and> in_window t (ev_second (snd (envs j)))"
    and "map_of (xs_transfers (br_xfer (ss_bridge s))) (hex_encode tid) = Some tb" "tb_ShardURL tb = base"
    and "ss_net s = (k, d)" "ro_shards (dm_router d) = [(base, st)]" "put_room (sv_limits (ds_server ds)) n tid (dm_buckets d)"
    and "csize = unat (td_chunkSize t)"
  shows "\<exists>s' d' st' t'. bridge_upload ho dr tid csize i (drop i (chunks csize data)) s = Some s'
    \<and> ss_bridge s' = ss_bridge s \<and> ss_net s' = (k + n, d') \<and> ro_shards (dm_router d') = [(base, st')]
    \<and> upload_state tid data (unat (td_chunkCount t)) t' st' \<and> ms_replay st' = ms_replay st
    \<and> td_chunkSize t' = td_chunkSize t \<and> td_chunkCount t' = td_chunkCount t \<and> td_createdAt t' = td_createdAt t
    \<and> td_downloadSecretHash t' = td_downloadSecretHash t \<and> td_senderPub t' = td_senderPub t"
  using assms
proof (induction n arbitrary: i t st k d s)
  case 0
  have "transfer_ok t" using "0.prems"(1) by (auto simp: upload_state_def dest: store_ok_transfer)
  then have "length (chunks csize data) = i"
    using "0.prems" by (simp add: upload_state_def length_chunks transfer_ok_def ValidateTransferCreate_None)
  then show ?case using "0.prems" by auto
next
  case (Suc n)
  have i: "i < unat (td_chunkCount t)" using Suc.prems(2) by simp
  have "transfer_ok t" using Suc.prems(1) by (auto simp: upload_state_def dest: store_ok_transfer)
  then have "length (chunks csize data) = unat (td_chunkCount t)"
    using Suc.prems by (simp add: upload_state_def length_chunks transfer_ok_def ValidateTransferCreate_None)
  then have drop: "drop i (chunks csize data) = chunks csize data ! i # drop (Suc i) (chunks csize data)"
    using i by (simp add: Cons_nth_drop_Suc)
  define c where "c = piece_upload tid csize i (chunks csize data ! i)"
  define t1 where "t1 = put_new (ev_first (snd (envs k))) c t"
  obtain resp d1 st1 where put: "dispatch ho dr opXferPut (put_payload np tid csize i (chunks csize data ! i)) s
        = ((opXferPut, resp), s\<lparr>ss_net := (Suc k, d1)\<rparr>)"
      "ro_shards (dm_router d1) = [(base, st1)]" "put_room (sv_limits (ds_server ds)) n tid (dm_buckets d1)"
      "upload_state tid data (Suc i) t1 st1" "ms_replay st1 = ms_replay st"
    using put_answer [OF Suc.prems(1) i Suc.prems(3) _ _ Suc.prems(5-10) c_def, where dr = dr] Suc.prems(4)
    by (auto simp: t1_def)
  have t1: "td_chunkSize t1 = td_chunkSize t" "td_chunkCount t1 = td_chunkCount t" "td_createdAt t1 = td_createdAt t"
      "td_downloadSecretHash t1 = td_downloadSecretHash t" "td_senderPub t1 = td_senderPub t"
    by (simp_all add: t1_def)
  have w: "\<forall>j. Suc k \<le> j \<and> j < Suc k + n \<longrightarrow> in_window t1 (ev_first (snd (envs j))) \<and> in_window t1 (ev_second (snd (envs j)))"
    using Suc.prems(4) by (auto simp: in_window_def t1)
  have "bridge_upload ho dr tid csize i (drop i (chunks csize data)) s
      = bridge_upload ho dr tid csize (Suc i) (drop (Suc i) (chunks csize data)) (s\<lparr>ss_net := (Suc k, d1)\<rparr>)"
    by (simp add: drop codec(1) put(1))
  then show ?case
    using Suc.IH [OF put(4) _ _ w, of "s\<lparr>ss_net := (Suc k, d1)\<rparr>" d1] Suc.prems(2,3,5-10) put(2,3,5) t1 by auto
qed

lemma complete_answer:
  assumes p: "np_bytes np [(1, tid), (2, mhash)] = Inr p" "length tid = 16" "length mhash = 32"
    and key: "br_courierPriv (ss_bridge s) = priv" "length priv = 64"
    and dr: "dr_nonce dr = Inr nonce" "length nonce = 16" "near t0 (dr_now dr)"
    and b: "map_of (xs_transfers (br_xfer (ss_bridge s))) (hex_encode tid) = Some tb" "tb_ShardURL tb = base"
    and d: "ss_net s = (k, d)" "ro_shards (dm_router d) = [(base, st)]" "store_ok st"
      "map_of (ms_replay st) (replayKey replayDomainComplete (Public priv) nonce) = None"
    and t: "transfer_of st tid = Some t" "td_senderPub t = Public priv" "td_state t \<notin> {TransferComplete, TransferCancelled}"
      "td_presentCount t = td_chunkCount t" "ev_second (snd (envs k)) < td_expiresAt t" "ev_third (snd (envs k)) < td_expiresAt t"
  shows "\<exists>d' st' e. dispatch ho dr opXferComplete p s = ((opXferComplete, marshalAck np True []), s\<lparr>ss_net := (Suc k, d')\<rparr>)
    \<and> ro_shards (dm_router d') = [(base, st')]
    \<and> transfer_of st' tid = Some (t\<lparr>td_state := TransferComplete, td_expiresAt := e\<rparr>)"
proof -
  let ?e = "snd (envs k)"
  define req where "req = courier_complete ho priv nonce (u64_of_int64 (dr_now dr)) tid mhash"
  have sel: "tf_SenderPub req = Public priv" "tf_Nonce req = nonce" "tf_TransferID req = tid"
    by (simp_all add: req_def courier_complete_def)
  have valid: "ValidateTransferComplete req = None"
    using p(2,3) key(2) dr(2) signatures(1)
    by (simp add: ValidateTransferComplete_None req_def courier_complete_def Public_length)
  obtain body where body: "MarshalTransferComplete np req = Inr body"
    using np_total by (fastforce simp: MarshalTransferComplete_def valid marshal_def)
  have sig: "VerifyXferComplete (sv_verify (ds_server ds)) (tf_SenderPub req) (tf_TransferID req) (tf_ManifestHash req)
      (tf_Timestamp req) (tf_Nonce req) (tf_Signature req) (ev_now ?e) = None"
    using key(2) p(2,3) signatures near_skew [OF dr(3) env_clock(3)]
    by (simp add: VerifyXferComplete_def req_def courier_complete_def Public_length)
  obtain m where "CheckAndMarkReplay (ev_first ?e) (replayKey replayDomainComplete (Public priv) nonce) st
      = (False, st\<lparr>ms_replay := m\<rparr>)"
    using d(3,4) by (rule mark_fresh)
  then have m: "CheckAndMarkReplay (ev_first ?e) (replayKey replayDomainComplete (tf_SenderPub req) (tf_Nonce req)) (h_store (dm_shard d))
      = (False, st\<lparr>ms_replay := m\<rparr>)"
    by (simp add: sel dm_shard_sel(1) [OF d(2)])
  have get: "GetTransfer (ev_second ?e) (tf_TransferID req) (st\<lparr>ms_replay := m\<rparr>)
      = (Inr (transfer_view tid t), st\<lparr>ms_replay := m\<rparr>)"
    using t by (simp add: GetTransfer_def getTransferLocked_def sel)
  have view: "tv_SenderPub (transfer_view tid t) = tf_SenderPub req" by (simp add: transfer_view_def t(2) sel)
  have seal: "CompleteTransfer (ev_third ?e) req (st\<lparr>ms_replay := m\<rparr>) = (sealed_result t,
      put_transfer tid (t\<lparr>td_state := TransferComplete, td_expiresAt := i64 (ev_third ?e + CompleteTTLSeconds * 1000)\<rparr>)
        (st\<lparr>ms_replay := m\<rparr>))"
    using CompleteTransfer_seals [OF valid, of "st\<lparr>ms_replay := m\<rparr>" t "ev_third ?e"] t by (simp add: sel)
  have err: "cr_err (sealed_result t) = None" by (simp add: sealed_result_def)
  define st' where "st' = put_transfer tid (t\<lparr>td_state := TransferComplete,
      td_expiresAt := i64 (ev_third ?e + CompleteTTLSeconds * 1000)\<rparr>) (st\<lparr>ms_replay := m\<rparr>)"
  obtain resp out where srv: "ServeHTTP (ds_server ds) ?e (post_request RouteComplete body) (dm_shard d)
        = (Some (writeProto SchemaTransferCompleteResponse resp), (dm_shard d)\<lparr>h_store := st'\<rparr>)"
      "UnmarshalTransferCompleteResponse np resp = Inr out"
    using complete_served [OF codec(3) servers(2) body sig m get view seal err] st'_def by blast
  have "length resp \<le> 2097152" using srv(2) unmarshal_size by (fastforce simp: UnmarshalTransferCompleteResponse_def)
  note post = shard_post [OF _ d(1) this srv(1), of "''xfer-complete''"]
  have "unmarshalXferComplete np p = Inr \<lparr>xf_transferID = tid, xf_manifestHash = mhash\<rparr>"
    using p by (simp add: unmarshalXferComplete_def xferComplete_field_def rpc_roundtrip)
  then have "dispatch ho dr opXferComplete p s = ((opXferComplete, marshalAck np True []),
      s\<lparr>ss_net := (Suc k, put_shard ((dm_shard d)\<lparr>h_store := st'\<rparr>) d)\<rparr>)"
    using b base key dr(1) body srv(2) post
    by (simp add: dispatch_def codec onXferComplete_def Let_def hbind_def decoded_def drawn_def look_def handler_defs
        bound_def bindFor_def answer_def transport_def req_def courier_complete_def)
  moreover have "ro_shards (dm_router (put_shard ((dm_shard d)\<lparr>h_store := st'\<rparr>) d)) = [(base, st')]"
    using put_shard_shards [OF d(2), of "(dm_shard d)\<lparr>h_store := st'\<rparr>"] by simp
  moreover have "transfer_of st' tid = Some (t\<lparr>td_state := TransferComplete,
      td_expiresAt := i64 (ev_third ?e + CompleteTTLSeconds * 1000)\<rparr>)"
    by (simp add: st'_def)
  ultimately show ?thesis by blast
qed

lemma get_answer:
  assumes t: "transfer_of st tid = Some t" "td_state t = TransferComplete" "length tk = 32"
      "td_downloadSecretHash t = sha256 tk" "transfer_ok t"
    and j: "j < unat (td_chunkCount t)" "map_of (td_chunks t) (word_of_nat j) = Some p" "length tid = 16"
      "0 < length p" "length p \<le> MaxChunkBytes"
    and d: "ss_net s = (k, d)" "ro_shards (dm_router d) = [(base, st)]"
  shows "\<exists>d'. dispatch ho dr opXferGet (get_payload np tid tk base j) s
      = ((opXferGet, marshalXferChunk np p (sha256 p)), s\<lparr>ss_net := (Suc k, d')\<rparr>)
    \<and> ro_shards (dm_router d') = [(base, st)]"
proof -
  let ?e = "snd (envs k)"
  define req where "req = \<lparr>cd_TransferID = tid, cd_Index = word_of_nat j, cd_Count = 1, cd_MailboxID = [],
      cd_ReadSecret = [], cd_Ticket = tk\<rparr>"
  have "unat (word_of_nat j :: u32) \<le> 16383"
    using j(1) transfer_ok_bounds [OF t(5)] by (simp add: unat_of_nat)
  then have "ValidateChunkDownload req = None"
    using j(3) t(3) by (simp add: ValidateChunkDownload_None req_def TicketMode_def)
  then obtain body where body: "MarshalChunkDownload np req = Inr body"
    using np_total t(3) by (fastforce simp: MarshalChunkDownload_def marshal_def req_def)
  have get: "GetChunkByTicket (ev_first ?e) (cd_TransferID req) (cd_Ticket req) (cd_Index req) (h_store (dm_shard d))
      = (Inr (p, sha256 p), st)"
    using ticket_chunk [OF t(1) _ t(3-5) j(1,2)] t(2) by (simp add: dm_shard_sel(1) [OF d(2)] req_def)
  have sel: "cd_Count req = 1" "length (cd_Ticket req) = 32" using t(3) by (simp_all add: req_def)
  obtain resp where srv: "ServeHTTP (ds_server ds) ?e (post_request RouteChunkGet body) (dm_shard d)
        = (Some (writeProto SchemaChunkDownloadResponse resp), (dm_shard d)\<lparr>h_store := st\<rparr>)"
      "UnmarshalChunkDownloadResponse np resp = Inr \<lparr>cdr_TransferID = cd_TransferID req, cdr_Index = cd_Index req,
         cdr_Payload = p, cdr_ChunkHash = sha256 p\<rparr>"
    using get_served [OF codec(3) servers(2) body sel get j(4,5)] by blast
  have "length resp \<le> 2097152" using srv(2) unmarshal_size by (fastforce simp: UnmarshalChunkDownloadResponse_def)
  note post = shard_post [OF _ d(1) this srv(1), of "''xfer-get''"]
  have "unmarshalXferGet np (get_payload np tid tk base j) = Inr \<lparr>xg_transferID = tid, xg_index = word_of_nat j,
      xg_mailboxID = [], xg_readSecret = [], xg_ticket = tk, xg_shardURL = base\<rparr>"
    using j(3) t(3) by (simp add: get_payload_def unmarshalXferGet_def xferGet_field_def rpc_bytes_rt checkResumeAuth_def)
  then have "dispatch ho dr opXferGet (get_payload np tid tk base j) s
      = ((opXferGet, marshalXferChunk np p (sha256 p)), s\<lparr>ss_net := (Suc k, put_shard ((dm_shard d)\<lparr>h_store := st\<rparr>) d)\<rparr>)"
    using base body srv(2) post t(3)
    by (simp add: dispatch_def codec onXferGet_def Let_def hbind_def decoded_def handler_defs read_route_def
        answer_def transport_def req_def plain_base_def)
  then show ?thesis using put_shard_shards [OF d(2), of "(dm_shard d)\<lparr>h_store := st\<rparr>"] by auto
qed

lemma chunk_of_result_rt: "chunk_of_result np (marshalXferChunk np p (sha256 p)) = Some p"
proof -
  obtain b where b: "np_bytes np [(1, p), (2, sha256 p)] = Inr b" using np_total by fastforce
  then show ?thesis
    using np_roundtrip [OF b] by (simp add: chunk_of_result_def marshalXferChunk_def rpc_bytes_def)
qed

lemma download_answer:
  assumes t: "transfer_of st tid = Some t" "td_state t = TransferComplete" "length tk = 32"
      "td_downloadSecretHash t = sha256 tk" "transfer_ok t" "length tid = 16"
    and js: "\<forall>j \<in> set js. j < unat (td_chunkCount t) \<and> map_of (td_chunks t) (word_of_nat j) = Some (f j)
       \<and> 0 < length (f j) \<and> length (f j) \<le> MaxChunkBytes"
    and d: "ss_net s = (k, d)" "ro_shards (dm_router d) = [(base, st)]"
  shows "bridge_download ho dr tid tk base js s = Some (concat (map f js))"
  using js d
proof (induction js arbitrary: s k d)
  case (Cons j js)
  obtain d1 where get: "dispatch ho dr opXferGet (get_payload np tid tk base j) s
        = ((opXferGet, marshalXferChunk np (f j) (sha256 (f j))), s\<lparr>ss_net := (Suc k, d1)\<rparr>)"
      "ro_shards (dm_router d1) = [(base, st)]"
    using get_answer [OF t(1-5) _ _ t(6) _ _ Cons.prems(2,3), of j "f j" dr] Cons.prems(1) by auto
  show ?case
    using Cons.IH [of "s\<lparr>ss_net := (Suc k, d1)\<rparr>" "Suc k" d1] Cons.prems(1) get
    by (simp add: codec(1) chunk_of_result_rt)
qed simp

section \<open>A whole file\<close>

lemma later_window:
  assumes "later envs k" "td_createdAt t = ev_second (snd (envs k))" "k < j"
  shows "in_window t (ev_first (snd (envs j)))" "in_window t (ev_second (snd (envs j)))"
    "in_window t (ev_third (snd (envs j)))"
  using assms envs [of j] envs [of k] by (auto simp: later_def in_window_def env_ok_def near_def)

lemma full_upload:
  assumes u: "upload_state tid data (unat (td_chunkCount t)) t st"
  shows "td_presentCount t = td_chunkCount t" "td_state t \<notin> {TransferComplete, TransferCancelled}"
    and "transfer_ok (t\<lparr>td_state := TransferComplete, td_expiresAt := e\<rparr>)"
    and "j < unat (td_chunkCount t) \<Longrightarrow> map_of (td_chunks t) (word_of_nat j) = Some (chunks (unat (td_chunkSize t)) data ! j)
      \<and> 0 < length (chunks (unat (td_chunkSize t)) data ! j) \<and> length (chunks (unat (td_chunkSize t)) data ! j) \<le> MaxChunkBytes"
    and "length (chunks (unat (td_chunkSize t)) data) = unat (td_chunkCount t)"
proof -
  note v = u [unfolded upload_state_def]
  have ok: "transfer_ok t" using v by (auto dest: store_ok_transfer)
  show full: "td_presentCount t = td_chunkCount t" using v by (subst present_all_iff [OF ok]) simp
  show "td_state t \<notin> {TransferComplete, TransferCancelled}" using v by auto
  show "transfer_ok (t\<lparr>td_state := TransferComplete, td_expiresAt := e\<rparr>)"
    using full by (simp add: transfer_ok_state [OF ok])
  show "length (chunks (unat (td_chunkSize t)) data) = unat (td_chunkCount t)"
    using ok v by (simp add: length_chunks transfer_ok_def ValidateTransferCreate_None)
  have "ValidateChunkUpload (piece_upload tid (unat (td_chunkSize t)) j (chunks (unat (td_chunkSize t)) data ! j)) = None"
    if "j < unat (td_chunkCount t)"
    using v that by (intro piece_accepted [OF ok]) auto
  then show "map_of (td_chunks t) (word_of_nat j) = Some (chunks (unat (td_chunkSize t)) data ! j)
      \<and> 0 < length (chunks (unat (td_chunkSize t)) data ! j) \<and> length (chunks (unat (td_chunkSize t)) data ! j) \<le> MaxChunkBytes"
    if "j < unat (td_chunkCount t)"
    using v that by (auto simp: ValidateChunkUpload_None piece_upload_def)
qed

lemma transfer_opened:
  assumes p: "np_bytes np [(1, putU64 fsize), (2, putU32 csize), (3, putU32 count), (4, manifest), (5, mid),
      (7, bytes_of base)] = Inr createp" "length mid = 16"
    and alice: "br_courierPriv (ss_bridge alice) = priv" "length priv = 64" "ss_net alice = (k, d)"
    and dr: "dr_nonce dr1 = Inr nonce1" "length nonce1 = 16" "near t0 (dr_now dr1)"
    and d: "ro_shards (dm_router d) = [(base, st)]" "dm_buckets d = []" "store_ok st" "ms_replay st = []"
      "sv_limits (ds_server ds) = DefaultRateLimits"
    and room: "CreateTransfer (ev_second (snd (envs k))) (ev_id (snd (envs k))) (ev_ticket (snd (envs k)))
        (courier_create ho priv nonce1 (u64_of_int64 (dr_now dr1)) mid fsize csize count manifest) st
        = (Inr (tid, tk, e), st1)" "length tk = 32"
      "mailboxStoredBytesLocked mid st + int (length manifest) + int (length data) \<le> MaxStoredBytesPerMailbox"
    and data: "length data = unat fsize" "unat count \<le> 256"
  shows "\<exists>alice1 tb d1 st' t.
      dispatch ho dr1 opXferCreate createp alice = ((opXferCreate, marshalXferCreated np tid tk base e), alice1)
    \<and> ss_net alice1 = (Suc k, d1) \<and> br_courierPriv (ss_bridge alice1) = priv
    \<and> map_of (xs_transfers (br_xfer (ss_bridge alice1))) (hex_encode tid) = Some tb \<and> tb_ShardURL tb = base
    \<and> ro_shards (dm_router d1) = [(base, st')] \<and> put_room (sv_limits (ds_server ds)) (unat count) tid (dm_buckets d1)
    \<and> (\<forall>key. key \<noteq> replayKey replayDomainCreate (Public priv) nonce1 \<longrightarrow> map_of (ms_replay st') key = None)
    \<and> upload_state tid data 0 t st' \<and> td_createdAt t = ev_second (snd (envs k))
    \<and> td_downloadSecretHash t = sha256 tk \<and> td_chunkSize t = csize \<and> td_chunkCount t = count
    \<and> td_senderPub t = Public priv"
proof -
  let ?e = "snd (envs k)" and ?C = "unat count"
  define tb where "tb = \<lparr>tb_MailboxID = mid, tb_ShardURL = base, tb_ChunkCount = count\<rparr>"
  obtain d1 m where create: "dispatch ho dr1 opXferCreate createp alice = ((opXferCreate, marshalXferCreated np tid tk base e),
        saveBindings dr1 (on_bridge (bind_transfer (hex_encode tid) tb) (alice\<lparr>ss_net := (Suc k, d1)\<rparr>)))"
      "ro_shards (dm_router d1) = [(base, st1\<lparr>ms_replay := m\<rparr>)]" "store_ok (st\<lparr>ms_replay := m\<rparr>)"
      "\<forall>key. key \<noteq> replayKey replayDomainCreate (Public priv) nonce1 \<longrightarrow> map_of m key = None"
      "\<forall>key. window_of (dm_buckets d1) (''put-'' @ key) = None"
    using create_answer [OF p alice(1,2) dr alice(3) d(1-4) room(1,2)] by (auto simp: tb_def)
  define alice1 where "alice1 = saveBindings dr1 (on_bridge (bind_transfer (hex_encode tid) tb) (alice\<lparr>ss_net := (Suc k, d1)\<rparr>))"
  have a1: "ss_net alice1 = (Suc k, d1)" "br_courierPriv (ss_bridge alice1) = priv"
      "map_of (xs_transfers (br_xfer (ss_bridge alice1))) (hex_encode tid) = Some tb"
    using alice(1) by (simp_all add: alice1_def saveBindings_def on_bridge_def bind_transfer_def update_conv' split: option.split)
  have "length tid = 16" using CreateTransfer_Inr(2) [OF room(1)] env_clock(6) [of k] by simp
  moreover have "0 \<le> ev_second ?e" "ev_second ?e < 2 ^ 62" using env_clock(5) [of k] time by (simp_all add: near_def)
  ultimately obtain t where t: "upload_state tid data 0 t (st1\<lparr>ms_replay := m\<rparr>)" "td_createdAt t = ev_second ?e"
      "td_downloadSecretHash t = sha256 tk" "td_chunkSize t = csize" "td_chunkCount t = count" "td_senderPub t = Public priv"
    using created_upload_state [OF CreateTransfer_replay [OF room(1), of m] create(3), of data] data(1) room(3)
      CreateTransfer_Inr(2) [OF room(1)] by (auto simp: courier_create_def mailboxStoredBytesLocked_def)
  have "int ?C \<le> 256" using data(2) by linarith
  then have puts: "put_room (sv_limits (ds_server ds)) ?C tid (dm_buckets d1)"
    using create(5) [THEN spec, of "''xfer:'' @ hex_encode tid"] create(5) [THEN spec, of "''ip:''"]
    by (simp add: put_room_def room_for_def d(5) DefaultRateLimits_def)
  have url: "tb_ShardURL tb = base" by (simp add: tb_def)
  show ?thesis
    using create(1,2,4) a1 url puts t unfolding alice1_def [symmetric]
    by (intro exI [of _ alice1] exI [of _ tb] exI [of _ d1] exI [of _ "st1\<lparr>ms_replay := m\<rparr>"] exI [of _ t]) simp
qed

lemma file_arrives:
  assumes p: "np_bytes np [(1, putU64 fsize), (2, putU32 csize), (3, putU32 count), (4, manifest), (5, mid),
      (7, bytes_of base)] = Inr createp" "length mid = 16"
      "np_bytes np [(1, tid), (2, mhash)] = Inr sealp" "length mhash = 32"
    and alice: "br_courierPriv (ss_bridge alice) = priv" "length priv = 64" "ss_net alice = (k, d)"
    and dr: "dr_nonce dr1 = Inr nonce1" "length nonce1 = 16" "near t0 (dr_now dr1)"
      "dr_nonce dr3 = Inr nonce3" "length nonce3 = 16" "near t0 (dr_now dr3)"
      "replayKey replayDomainComplete (Public priv) nonce3 \<noteq> replayKey replayDomainCreate (Public priv) nonce1"
    and d: "ro_shards (dm_router d) = [(base, st)]" "dm_buckets d = []" "store_ok st" "ms_replay st = []"
      "sv_limits (ds_server ds) = DefaultRateLimits" "later envs k"
    and room: "CreateTransfer (ev_second (snd (envs k))) (ev_id (snd (envs k))) (ev_ticket (snd (envs k)))
        (courier_create ho priv nonce1 (u64_of_int64 (dr_now dr1)) mid fsize csize count manifest) st
        = (Inr (tid, tk, e), st1)" "length tk = 32"
      "mailboxStoredBytesLocked mid st + int (length manifest) + int (length data) \<le> MaxStoredBytesPerMailbox"
    and data: "length data = unat fsize" "unat count \<le> 256"
  shows "\<exists>alice1 alice2 alice3.
      dispatch ho dr1 opXferCreate createp alice = ((opXferCreate, marshalXferCreated np tid tk base e), alice1)
    \<and> bridge_upload ho dr2 tid (unat csize) 0 (chunks (unat csize) data) alice1 = Some alice2
    \<and> dispatch ho dr3 opXferComplete sealp alice2 = ((opXferComplete, marshalAck np True []), alice3)
    \<and> (\<forall>bob. bridge_download ho dr4 tid tk base [0..<unat count] (bob\<lparr>ss_net := ss_net alice3\<rparr>) = Some data)"
proof -
  let ?e = "snd (envs k)" and ?C = "unat count" and ?S = "unat csize"
  obtain alice1 tb d1 st' t where create:
      "dispatch ho dr1 opXferCreate createp alice = ((opXferCreate, marshalXferCreated np tid tk base e), alice1)"
    and a1: "ss_net alice1 = (Suc k, d1)" "br_courierPriv (ss_bridge alice1) = priv"
      "map_of (xs_transfers (br_xfer (ss_bridge alice1))) (hex_encode tid) = Some tb" "tb_ShardURL tb = base"
    and d1: "ro_shards (dm_router d1) = [(base, st')]" "put_room (sv_limits (ds_server ds)) ?C tid (dm_buckets d1)"
      "\<forall>key. key \<noteq> replayKey replayDomainCreate (Public priv) nonce1 \<longrightarrow> map_of (ms_replay st') key = None"
    and t: "upload_state tid data 0 t st'" "td_createdAt t = ev_second ?e" "td_downloadSecretHash t = sha256 tk"
      "td_chunkSize t = csize" "td_chunkCount t = count" "td_senderPub t = Public priv"
    using transfer_opened [OF p(1,2) alice dr(1-3) d(1-5) room data] by blast
  obtain alice2 d2 st2 t2 where up: "bridge_upload ho dr2 tid ?S 0 (chunks ?S data) alice1 = Some alice2"
      "ss_bridge alice2 = ss_bridge alice1" "ss_net alice2 = (Suc k + ?C, d2)" "ro_shards (dm_router d2) = [(base, st2)]"
      "upload_state tid data ?C t2 st2" "ms_replay st2 = ms_replay st'" "td_chunkSize t2 = csize" "td_chunkCount t2 = count"
      "td_createdAt t2 = ev_second ?e" "td_downloadSecretHash t2 = sha256 tk" "td_senderPub t2 = Public priv"
    using upload_answer [OF t(1) _ _ _ a1(3,4,1) d1(1,2), of ?S dr2] later_window [OF d(6) t(2)] t data(2)
    by auto
  have u2: "upload_state tid data (unat (td_chunkCount t2)) t2 st2" using up(5,8) by simp
  note full = full_upload [OF u2]
  note v = u2 [unfolded upload_state_def]
  have alive: "ev_second (snd (envs (Suc k + ?C))) < td_expiresAt t2" "ev_third (snd (envs (Suc k + ?C))) < td_expiresAt t2"
    using later_window [OF d(6) up(9), of "Suc k + ?C"] v by (simp_all add: in_window_def)
  have key: "map_of (ms_replay st2) (replayKey replayDomainComplete (Public priv) nonce3) = None"
    using d1(3) dr(7) up(6) by simp
  obtain d3 st3 e3 where seal: "dispatch ho dr3 opXferComplete sealp alice2
        = ((opXferComplete, marshalAck np True []), alice2\<lparr>ss_net := (Suc (Suc k + ?C), d3)\<rparr>)"
      "ro_shards (dm_router d3) = [(base, st3)]"
      "transfer_of st3 tid = Some (t2\<lparr>td_state := TransferComplete, td_expiresAt := e3\<rparr>)"
    using complete_answer [OF p(3) _ p(4) _ alice(2) dr(4-6) _ _ up(3,4) _ key _ up(11) full(2,1) alive] v a1 up(2)
    by auto
  have "bridge_download ho dr4 tid tk base [0..<?C] (bob\<lparr>ss_net := (Suc (Suc k + ?C), d3)\<rparr>) = Some data" for bob
  proof -
    have "bridge_download ho dr4 tid tk base [0..<?C] (bob\<lparr>ss_net := (Suc (Suc k + ?C), d3)\<rparr>)
        = Some (concat (map (\<lambda>j. chunks ?S data ! j) [0..<?C]))"
      by (rule download_answer [OF seal(3) _ room(2) _ full(3) _ _ _ seal(2)]) (use v up full(4) in auto)
    moreover have "map (\<lambda>j. chunks ?S data ! j) [0..<?C] = chunks ?S data"
      using full(5) up(7,8) map_nth [of "chunks ?S data"] by simp
    moreover have "0 < ?S" using v up(7) by (auto dest: store_ok_transfer transfer_ok_bounds(1))
    ultimately show ?thesis by (simp add: concat_chunks)
  qed
  then show ?thesis
    using create up(1) seal(1) by auto
qed

end

end
