(* ===== verification/Bridge_Loop.thy ===== *)
theory Bridge_Loop
  imports Bridge_Ops
begin

text \<open>
  The RPC loop of the courier bridge against its specification: a list of requests is answered one by
  one, in order, by \<open>dispatch\<close>, every response carries the id of its request, and the bytes on the
  streams are the framed envelopes and nothing else.
\<close>

fun serve_all ::
  "'w host \<Rightarrow> (nat \<Rightarrow> draws) \<Rightarrow> nat \<Rightarrow> envelope list \<Rightarrow> 'w session \<Rightarrow> envelope list \<times> 'w session" where
  "serve_all ho dr k [] s = ([], s)"
| "serve_all ho dr k (e # es) s =
     (case dispatch ho (dr k) (en_op e) (en_payload e) s of
        ((respOp, payload), s') \<Rightarrow>
          (case serve_all ho dr (Suc k) es s' of
             (rs, s'') \<Rightarrow> (\<lparr>en_op = respOp, en_reqID = en_reqID e, en_payload = payload\<rparr> # rs, s'')))"

definition wire_envelope :: "nanopack \<Rightarrow> envelope \<Rightarrow> bytes" where
  "wire_envelope np e =
     (case marshalEnvelope np (en_op e) (en_reqID e) (en_payload e) of Inl err \<Rightarrow> [] | Inr body \<Rightarrow> frameMessage body)"

lemma serve_all_ids: "map en_reqID (fst (serve_all ho dr k es s)) = map en_reqID es"
  by (induction es arbitrary: k s) (auto split: prod.split, metis fst_conv)

context total_codec
begin

lemma envelope_framed:
  assumes "length (en_payload e) < 2097000"
  obtains body where "wire_envelope np e = be32 (word_of_nat (length body)) @ body"
    "unmarshalEnvelope np body = Inr e" "0 < length body" "length body \<le> maxRPCBytes"
    "unat (word_of_nat (length body) :: u32) = length body"
proof -
  obtain body where body: "marshalEnvelope np (en_op e) (en_reqID e) (en_payload e) = Inr body"
    using np_total by (fastforce simp: marshalEnvelope_def)
  have rt: "unmarshalEnvelope np body = Inr e"
    using envelope_rt [OF body assms] by simp
  then have len: "0 < length body" "length body \<le> maxRPCBytes"
    by (auto simp: unmarshalEnvelope_def split: if_splits)
  then show thesis
    using that [of body] body rt by (simp add: wire_envelope_def frameMessage_def unat_of_nat)
qed

lemma serveLoop_step:
  assumes "ho_np ho = np" "length (en_payload e) < 2097000"
  shows "serveLoop ho dr k (wire_envelope np e @ rest) s =
     (case dispatch ho (dr k) (en_op e) (en_payload e) s of
        ((respOp, payload), s') \<Rightarrow>
          (case serveLoop ho dr (Suc k) rest s' of
             (out, s'') \<Rightarrow>
               (wire_envelope np \<lparr>en_op = respOp, en_reqID = en_reqID e, en_payload = payload\<rparr> @ out, s'')))"
proof -
  obtain body where b: "wire_envelope np e = be32 (word_of_nat (length body)) @ body"
      "unmarshalEnvelope np body = Inr e" "0 < length body" "length body \<le> maxRPCBytes"
      "unat (word_of_nat (length body) :: u32) = length body"
    using assms(2) by (rule envelope_framed)
  have nz: "word_of_nat (length body) \<noteq> (0 :: u32)" using b(3,5) by auto
  have "\<exists>rbody. marshalEnvelope np rop i p = Inr rbody" for rop i p
    using np_total by (simp add: marshalEnvelope_def)
  then have resp: "marshalEnvelope np rop i p \<noteq> Inl err" for rop i p err by (metis sum.distinct(1))
  show ?thesis
    using b nz resp assms(1)
    by (subst serveLoop.simps)
       (auto simp: Let_def wire_envelope_def [of _ "\<lparr>en_op = _, en_reqID = _, en_payload = _\<rparr>"] split: prod.split sum.split)
qed

lemma serveLoop_serves:
  assumes "ho_np ho = np" "\<forall>e \<in> set es. length (en_payload e) < 2097000" "length rest < 4"
  shows "serveLoop ho dr k (concat (map (wire_envelope np) es) @ rest) s =
     (case serve_all ho dr k es s of (rs, s') \<Rightarrow> (concat (map (wire_envelope np) rs), s'))"
  using assms(2)
proof (induction es arbitrary: k s)
  case Nil
  then show ?case using assms(3) by (subst serveLoop.simps) simp
next
  case (Cons e es)
  then show ?case by (simp add: serveLoop_step [OF assms(1)] split: prod.split)
qed

end

end
