(* ===== verification/Bridge_Safety.thy ===== *)
theory Bridge_Safety
  imports Bridge_Loop
begin

text \<open>
  What holds of the bridge whatever arrives on its standard input and from the network: the invariant of
  its state, kept by every request; that a chunk is handed to NexTalk only with its SHA-256 hash; and
  what becomes of the transfer bindings on disk.
\<close>

section \<open>The invariant of a session\<close>

definition bridge_ok :: "bridge \<Rightarrow> bool" where
  "bridge_ok b \<longleftrightarrow>
     length (br_courierPriv b) = 64
     \<and> distinct (map fst (br_mailboxes b))
     \<and> (\<forall>(mid, mb) \<in> set (br_mailboxes b). length mid = 16 \<and> length (bm_readSecret mb) = 32 \<and> bm_shardURL mb \<noteq> [])
     \<and> distinct (map fst (xs_scoped (br_xfer b)))
     \<and> (\<forall>(tag, k) \<in> set (xs_scoped (br_xfer b)). tagRe tag \<and> length k = 64)
     \<and> distinct (map fst (xs_transfers (br_xfer b)))
     \<and> (\<forall>(key, tb) \<in> set (xs_transfers (br_xfer b)). length (tb_MailboxID tb) = 16)"

definition kept :: "'w session \<Rightarrow> 'w session \<Rightarrow> bool" where
  "kept s s' \<longleftrightarrow> (bridge_ok (ss_bridge s) \<longrightarrow> bridge_ok (ss_bridge s'))"

interpretation session_kept: state_order kept
  by unfold_locales (auto simp: kept_def)

definition draws_ok :: "draws \<Rightarrow> bool" where
  "draws_ok dr \<longleftrightarrow> (\<forall>k. dr_key dr = Inr k \<longrightarrow> length k = 64)"

lemma set_update_entry: "x \<in> set (AList.update k v xs) \<Longrightarrow> x = (k, v) \<or> x \<in> set xs"
  by (induction xs) (auto split: if_splits)

lemma bridge_ok_updates:
  assumes "bridge_ok b"
  shows "bridge_ok (b\<lparr>br_running := r\<rparr>)" "bridge_ok (b\<lparr>br_routerURL := u\<rparr>)"
    and "tagRe tag \<Longrightarrow> length k = 64 \<Longrightarrow> bridge_ok (remember_key tag k b)"
    and "length (tb_MailboxID tb) = 16 \<Longrightarrow> bridge_ok (bind_transfer key tb b)"
    and "length (at_mailboxID req) = 16 \<Longrightarrow> length (at_readSecret req) = 32 \<Longrightarrow> at_shardURL req \<noteq> [] \<Longrightarrow>
         bridge_ok (attach_mailbox req b)"
    and "bridge_ok (b\<lparr>br_mailboxes := AList.delete mid (br_mailboxes b)\<rparr>)"
  using assms
  by (auto simp: bridge_ok_def remember_key_def bind_transfer_def attach_mailbox_def Let_def distinct_update
      distinct_map_filter AList.delete_eq dest!: set_update_entry split: prod.splits)

lemma moves_pure_calls [simp]:
  "moves kept (decoded ho r)" "moves kept (drawn d)" "moves kept (look f)" "moves kept (postBinary ho url body)"
  "moves kept (router_or given missing)" "moves kept requireRunning"
  by (auto simp: moves_def decoded_def drawn_def look_def postBinary_def router_or_def requireRunning_def hbind_def
      handler_defs kept_def Let_def split: sum.split prod.split)

lemma moves_transport: "moves kept m \<Longrightarrow> moves kept (transport m)"
  by (auto simp: moves_def transport_def split: prod.split sum.split) (metis snd_conv)+

lemmas call_moves = session_kept.moves_bind session_kept.moves_pure session_kept.moves_if moves_pure_calls
  moves_transport moves_case_prod moves_case_sum

lemma scopedKey_kept: "draws_ok dr \<Longrightarrow> moves kept (scopedKey dr tag)"
  by (auto simp: moves_def kept_def scopedKey_def Let_def on_bridge_def draws_ok_def bridge_ok_updates
      split: option.split sum.split)

lemma bound_kept: "moves kept (bound dr tid unknown)"
  by (auto simp: moves_def kept_def bound_def bindFor_def Let_def on_bridge_def bridge_ok_updates
      split: option.split prod.split)

lemma post_ok_kept: "moves kept (post_ok ho what url body)"
  unfolding post_ok_def by (intro call_moves)

lemma resolve_kept: "moves kept (resolve ho pub url)"
  unfolding resolve_def by (intro call_moves)

lemma postMessage_kept: "moves kept (postMessage ho dr url mid frame)"
  unfolding postMessage_def by (intro call_moves)

lemma fetchBatch_kept: "moves kept (fetchBatch ho url mid secret limit)"
  unfolding fetchBatch_def Let_def by (intro call_moves)

lemma poll_loop_kept: "moves kept (poll_loop ho limit targets frames)"
  by (induction ho limit targets frames rule: poll_loop.induct) (auto intro!: call_moves fetchBatch_kept)

lemma read_route_kept: "moves kept (read_route dr tid mid ticket url)"
  unfolding read_route_def by (intro call_moves bound_kept)

lemmas bridge_moves = call_moves bound_kept post_ok_kept resolve_kept postMessage_kept poll_loop_kept read_route_kept

lemma onStartStop_kept: "moves kept (onStartStop ho p)"
  unfolding onStartStop_def
  by (intro call_moves) (auto simp: moves_def kept_def on_bridge_def bridge_ok_updates)

lemma onAttach_kept: "moves kept (onAttach ho p)"
proof -
  have "length (at_mailboxID req) = 16 \<and> length (at_readSecret req) = 32 \<and> at_shardURL req \<noteq> []"
    if "unmarshalAttach np p = Inr req" for np req
    using that by (auto simp: unmarshalAttach_def rpc_unmarshal_def split: sum.splits)
  then have "moves kept (hbind (decoded ho (unmarshalAttach (ho_np ho) p)) (\<lambda>req s.
       (Inr (opAttach, marshalAck (ho_np ho) True []), on_bridge (attach_mailbox req) s)))"
    by (auto simp: moves_def hbind_def decoded_def handler_defs kept_def on_bridge_def bridge_ok_updates
        split: sum.split)
  then show ?thesis
    unfolding onAttach_def by (intro session_kept.moves_bind [OF moves_pure_calls(6)] moves_transport)
qed

lemma onDetach_kept: "moves kept (onDetach ho p)"
  unfolding onDetach_def
  by (intro call_moves) (auto simp: moves_def kept_def on_bridge_def bridge_ok_updates)

lemma onXferCreate_kept: "moves kept (onXferCreate ho dr p)"
proof -
  have save: "moves kept (\<lambda>s. (x, saveBindings dr (on_bridge (bind_transfer key tb) s)))"
    if "length (tb_MailboxID tb) = 16" for x key tb
    using that by (auto simp: moves_def kept_def saveBindings_def on_bridge_def bridge_ok_updates split: option.split)
  have guard: "moves kept (hbind (hrequire b e) f)" if "b \<Longrightarrow> moves kept (f ())" for b e and f :: "unit \<Rightarrow> ('a, 'b) call"
    using that by (auto simp: moves_def hbind_def handler_defs kept_def)
  show ?thesis
    unfolding onXferCreate_def Let_def
    by (intro guard save bridge_moves) simp
qed

lemma handlers_kept:
  "moves kept (onSend ho dr p)" "moves kept (onPoll ho p)" "moves kept (onIdentityRegister ho p)"
  "moves kept (onResolve ho p)" "moves kept (onXferPut ho dr p)" "moves kept (onXferResume ho dr p)"
  "moves kept (onXferGet ho dr p)" "moves kept (onXferComplete ho dr p)" "moves kept (onXferCancel ho dr p)"
  unfolding onSend_def onPoll_def onIdentityRegister_def onResolve_def onXferPut_def onXferResume_def onXferGet_def
    onXferComplete_def onXferCancel_def Let_def
  by (intro bridge_moves)+

lemma onRegister_kept: "draws_ok dr \<Longrightarrow> moves kept (onRegister ho dr p)"
  unfolding onRegister_def Let_def by (intro bridge_moves scopedKey_kept)

lemma answer_kept: "moves kept m \<Longrightarrow> kept s (snd (answer np m s))"
  by (auto simp: moves_def answer_def split: prod.split sum.split) (metis snd_conv)+

lemma dispatch_kept:
  assumes "draws_ok dr"
  shows "kept s (snd (dispatch ho dr rpcop p s))"
proof -
  have "kept s (snd (onInitialize ho p s))"
    by (auto simp: onInitialize_def Let_def kept_def on_bridge_def bridge_ok_updates split: sum.split option.split)
  then have "kept s (snd (case onInitialize ho p s of (result, s') \<Rightarrow> ((opInitialize, result), s')))"
    by (simp split: prod.split) (metis snd_conv)
  then show ?thesis
    unfolding dispatch_def Let_def
    by (simp add: answer_kept moves_transport session_kept.R_refl handlers_kept onRegister_kept [OF assms]
        onStartStop_kept onAttach_kept onDetach_kept onXferCreate_kept)
qed

lemma serveLoop_kept:
  assumes "\<And>i. draws_ok (dr i)"
  shows "kept s (snd (serveLoop ho dr k input s))"
  using assms
proof (induction ho dr k input s rule: serveLoop.induct)
  case (1 ho dr k input s)
  let ?n = "get32 (take 4 input)" and ?rest = "drop 4 input"
  show ?case
  proof (cases "length input < 4 \<or> ?n = 0 \<or> unat ?n > maxRPCBytes \<or> length ?rest < unat ?n")
    case True
    then show ?thesis by (subst serveLoop.simps) (auto simp: Let_def session_kept.R_refl)
  next
    case False
    show ?thesis
    proof (cases "unmarshalEnvelope (ho_np ho) (take (unat ?n) ?rest)")
      case (Inl e)
      with False show ?thesis by (subst serveLoop.simps) (simp add: Let_def session_kept.R_refl)
    next
      case (Inr env)
      obtain respOp payload s1 where disp: "dispatch ho (dr k) (en_op env) (en_payload env) s = ((respOp, payload), s1)"
        by (metis surj_pair)
      have s1: "kept s s1" using dispatch_kept [OF "1.prems", of s ho k] disp by (metis snd_conv)
      have "kept s1 (snd (serveLoop ho dr (Suc k) (drop (unat ?n) ?rest) s1))"
        if "marshalEnvelope (ho_np ho) respOp (en_reqID env) payload = Inr rbody" for rbody
        by (rule "1.IH" [OF _ refl refl _ _ Inr disp [symmetric] refl that "1.prems"]) (use False in auto)
      then have "kept s (snd (serveLoop ho dr (Suc k) (drop (unat ?n) ?rest) s1))"
        if "marshalEnvelope (ho_np ho) respOp (en_reqID env) payload = Inr rbody" for rbody
        using that s1 session_kept.R_trans by blast
      with False Inr disp s1 show ?thesis
        by (subst serveLoop.simps) (auto simp: Let_def split: sum.split prod.split)
    qed
  qed
qed

section \<open>Chunks\<close>

lemma post_ok_reply:
  "post_ok ho what url body s = (Inr raw, s') \<Longrightarrow>
   \<exists>raw' w. ho_http ho url body (ss_net s) = (Inr (200, raw'), w) \<and> raw = take 2097152 raw'"
  by (auto simp: post_ok_def hbind_def postBinary_def handler_defs split: prod.splits sum.splits if_splits)

lemma onXferGet_integrity:
  assumes "onXferGet ho dr p s = (Inr (rop, resp), s')"
  obtains url body w raw w' res where "rop = opXferGet" "ho_http ho url body w = (Inr (200, raw), w')"
    "UnmarshalChunkDownloadResponse (ho_np ho) (take 2097152 raw) = Inr res"
    "cdr_ChunkHash res = sha256 (cdr_Payload res)"
    "resp = marshalXferChunk (ho_np ho) (cdr_Payload res) (sha256 (cdr_Payload res))"
  using assms
  by (auto simp: onXferGet_def Let_def hbind_Inr hex_encode_inject dest!: post_ok_reply)

section \<open>Bindings\<close>

lemma postBinary_Inr: "postBinary ho url body s = (Inr r, s') \<Longrightarrow> \<exists>w. s' = s\<lparr>ss_net := w\<rparr>"
  by (auto simp: postBinary_def split: prod.splits sum.splits)

lemma post_ok_Inr: "post_ok ho what url body s = (Inr raw, s') \<Longrightarrow> \<exists>w. s' = s\<lparr>ss_net := w\<rparr>"
  by (auto simp: post_ok_def hbind_def postBinary_def handler_defs split: prod.splits sum.splits if_splits)

lemma net_only:
  "resolve ho pub url s = (Inr x, s') \<Longrightarrow> \<exists>w. s' = s\<lparr>ss_net := w\<rparr>"
  "router_or given missing s = (Inr u, s') \<Longrightarrow> s' = s"
  by (auto simp: resolve_def router_or_def Let_def hbind_Inr dest!: postBinary_Inr)

lemma onXferCreate_Inr:
  assumes "onXferCreate ho dr p s = (Inr r, s')"
  obtains tid ticket url e w tb where
    "r = (opXferCreate, marshalXferCreated (ho_np ho) tid ticket url e)"
    "s' = saveBindings dr (on_bridge (bind_transfer (hex_encode tid) tb) (s\<lparr>ss_net := w\<rparr>))"
    "length (tb_MailboxID tb) = 16"
  using assms
  by (fastforce simp: onXferCreate_def Let_def hbind_Inr dest!: net_only post_ok_Inr split: if_splits prod.splits)

lemma dispatch_create:
  assumes "dispatch ho dr opXferCreate p s = ((opXferCreate, resp), s')"
  shows "onXferCreate ho dr p s = (Inr (opXferCreate, resp), s')"
proof (cases "onXferCreate ho dr p s")
  case (Pair r s1)
  with assms show ?thesis by (cases r) (simp_all add: dispatch_def answer_def transport_def)
qed

text \<open>
  What a restarted bridge finds after the first transfer of the process before it: the binding of that
  transfer, and no other, whatever the file held before.
\<close>

lemma restart_bindings:
  assumes "onXferCreate ho dr p s = (Inr r, s')" "xs_transfers (br_xfer (ss_bridge s)) = []"
    and "dr_writeErr dr ''transfers.json'' = None" "dr_readErr dr' ''transfers.json'' = None"
    and "xs_transfers (br_xfer b) = []"
  shows "\<exists>tid ticket url e. r = (opXferCreate, marshalXferCreated (ho_np ho) tid ticket url e)
    \<and> (\<forall>other. fst (bindFor dr' other (s'\<lparr>ss_bridge := b\<rparr>)) = None \<longleftrightarrow> other \<noteq> tid)"
proof -
  obtain tid ticket url e w tb where c: "r = (opXferCreate, marshalXferCreated (ho_np ho) tid ticket url e)"
      "s' = saveBindings dr (on_bridge (bind_transfer (hex_encode tid) tb) (s\<lparr>ss_net := w\<rparr>))"
      "length (tb_MailboxID tb) = 16"
    using assms(1) by (rule onXferCreate_Inr)
  have "dk_transfers (ss_disk s') = Some [(hex_encode tid, tb)]"
    using assms(2,3) by (simp add: c(2) saveBindings_def on_bridge_def bind_transfer_def)
  then have "fst (bindFor dr' other (s'\<lparr>ss_bridge := b\<rparr>)) = None \<longleftrightarrow> other \<noteq> tid" for other
    using assms(4,5) c(3) by (auto simp: bindFor_def Let_def hex_encode_inject)
  then show ?thesis using c(1) by blast
qed

end
