(* ===== verification/Processes.thy ===== *)
theory Processes
  imports Daemon Bridge_Safety
begin

text \<open>
  The two programs, from the command line to the served requests: \<open>main\<close> of \<open>cmd/filerelayd/main.go\<close> and
  of \<open>transports/filerelay/bridge/main.go\<close>. The parsed flags, the random source, the contents of the
  directory and standard input are arguments; the result is what is printed, the exit code, or the state
  that serves. The listener of the daemon is outside the model. A failing write to standard output, which
  ends both programs, is not modelled.
\<close>

section \<open>Hexadecimal text\<close>

text \<open>\<open>hex.DecodeString\<close>: digits of either case, two for every byte.\<close>

definition hex_value :: "char \<Rightarrow> u8 option" where
  "hex_value c =
     (let n = of_char c :: nat in
      if 48 \<le> n \<and> n \<le> 57 then Some (word_of_nat (n - 48))
      else if 97 \<le> n \<and> n \<le> 102 then Some (word_of_nat (n - 87))
      else if 65 \<le> n \<and> n \<le> 70 then Some (word_of_nat (n - 55))
      else None)"

fun hex_decode :: "string \<Rightarrow> bytes option" where
  "hex_decode [] = Some []"
| "hex_decode [c] = None"
| "hex_decode (c # d # s) =
     (case (hex_value c, hex_value d) of
        (Some a, Some b) \<Rightarrow> map_option ((#) (push_bit 4 a OR b)) (hex_decode s)
      | _ \<Rightarrow> None)"

section \<open>The daemon\<close>

record daemon_flags =
  fl_addr :: string
  fl_secretHex :: string
  fl_printTemplate :: bool
  fl_printVersion :: bool

record build_info =
  bi_Version :: string
  bi_Commit :: string
  bi_Date :: string

datatype daemon_run = Exit int | Printed string | Serving daemon_setup daemon

definition out_line :: "string \<Rightarrow> string" where "out_line s = s @ [CHR 0x0A]"

text \<open>The server secret, or the exit code; and what is written to standard error.\<close>

definition daemon_secret :: "string \<Rightarrow> string + bytes \<Rightarrow> (int + bytes) \<times> string" where
  "daemon_secret secretHex rand =
     (if secretHex = [] then
        (case rand of
           Inl e \<Rightarrow> (Inl 1, out_line (''rand: '' @ e))
         | Inr secret \<Rightarrow> (Inr secret, out_line (''generated SERVER_SECRET (save it!): '' @ hex_encode secret)))
      else
        (case hex_decode secretHex of
           None \<Rightarrow> (Inl 2, out_line ''server-secret must be 64 hex chars'')
         | Some secret \<Rightarrow>
             if length secret \<noteq> 32 then (Inl 2, out_line ''server-secret must be 64 hex chars'')
             else (Inr secret, [])))"

definition daemon_main ::
  "nanopack \<Rightarrow> ed25519_verify \<Rightarrow> (bytes \<Rightarrow> bytes \<Rightarrow> bytes) \<Rightarrow> build_info \<Rightarrow> daemon_flags \<Rightarrow> string + bytes
   \<Rightarrow> string + bytes \<times> bytes \<Rightarrow> daemon_run \<times> string" where
  "daemon_main np verify sign build fl rand keys =
     (if fl_printVersion fl then
        (Printed (out_line (''filerelayd '' @ bi_Version build @ '' (commit '' @ bi_Commit build @ '', built ''
           @ bi_Date build @ '')'')), [])
      else
        (case daemon_secret (fl_secretHex fl) rand of
           (Inl code, notice) \<Rightarrow> (Exit code, notice)
         | (Inr secret, notice) \<Rightarrow>
             (case keys of
                Inl e \<Rightarrow> (Exit 1, notice @ out_line (''keygen: '' @ e))
              | Inr (rpub, rpriv) \<Rightarrow>
                  let base = baseURL (fl_addr fl) in
                  if fl_printTemplate fl then
                    (Printed (out_line (''ROUTER_URL='' @ base) @ out_line (''SHARD_URL='' @ base)), notice)
                  else
                    (Serving (setup_daemon secret (copy_array 32 rpub) (sign rpriv) np verify) (new_daemon (fl_addr fl)),
                     notice @ out_line (''filerelayd on '' @ base @ '' (router+shard, replication=1)'')))))"

section \<open>The bridge\<close>

text \<open>\<open>filerelay-bridge wrap\<close>: the exit code and what is written to standard output.\<close>

definition bridge_wrap :: "int \<Rightarrow> string \<Rightarrow> string + bytes \<Rightarrow> int \<times> bytes" where
  "bridge_wrap typ file content =
     (if typ < 1 \<or> typ > 4 \<or> file = [] then (2, [])
      else (case content of Inl e \<Rightarrow> (1, []) | Inr raw \<Rightarrow> (0, word_of_int typ # raw)))"

text \<open>\<open>filerelay-bridge --ntx-serve\<close>: the key is loaded with the draws \<open>start\<close>, request \<open>i\<close> draws \<open>dr i\<close>.\<close>

definition bridge_main ::
  "'w host \<Rightarrow> bool \<Rightarrow> draws \<Rightarrow> (nat \<Rightarrow> draws) \<Rightarrow> bytes \<Rightarrow> disk \<Rightarrow> 'w \<Rightarrow> (int \<times> bytes) \<times> 'w session" where
  "bridge_main ho serve start dr input files w =
     (let s = \<lparr>ss_bridge = new_bridge, ss_disk = files, ss_net = w\<rparr> in
      if \<not> serve then ((2, []), s)
      else
        (case loadOrCreateCourierKey start s of
           (Inl e, s1) \<Rightarrow> ((1, []), s1)
         | (Inr u, s1) \<Rightarrow> (case serveLoop ho dr 0 input s1 of (out, s2) \<Rightarrow> ((0, out), s2))))"

section \<open>Secrets survive a restart\<close>

lemma hex_value_hextable: "n < 16 \<Longrightarrow> hex_value (hextable ! n) = Some (word_of_nat n)"
proof -
  assume "n < 16"
  then have "n \<in> set [0..<16]" by simp
  moreover have "\<forall>n \<in> set [0..<16]. hex_value (hextable ! n) = Some (word_of_nat n)"
    by (simp add: upt_rec hextable_def hex_value_def Let_def)
  ultimately show ?thesis by blast
qed

lemma nibbles_join: "push_bit 4 (drop_bit 4 w) OR (w AND 0x0f) = (w :: byte)"
proof (rule bit_word_eqI)
  fix n
  have mask: "(0x0f :: byte) = mask 4" by (simp add: mask_eq_exp_minus_1)
  show "n < LENGTH(8) \<Longrightarrow> bit (push_bit 4 (drop_bit 4 w) OR (w AND 0x0f)) n = bit w n"
    by (auto simp: mask bit_or_iff bit_push_bit_iff bit_drop_bit_eq bit_and_iff bit_mask_iff)
qed

lemma hex_roundtrip: "hex_decode (hex_encode b) = Some b"
proof (induction b)
  case (Cons w b)
  then show ?case
    by (simp add: hex_encode_def hex_value_hextable high_nibble_bound low_nibble_bound nibbles_join)
qed (simp add: hex_encode_def)

lemma secret_printed:
  assumes "length secret = 32"
  shows "daemon_secret [] (Inr secret) = (Inr secret, out_line (''generated SERVER_SECRET (save it!): '' @ hex_encode secret))"
    and "daemon_secret (hex_encode secret) rand = (Inr secret, [])"
proof -
  have "length (hex_encode secret) = 64" using assms by simp
  then have "hex_encode secret \<noteq> []" by (metis list.size(3) zero_neq_numeral)
  then show "daemon_secret (hex_encode secret) rand = (Inr secret, [])"
    using assms by (simp only: daemon_secret_def hex_roundtrip) simp
qed (simp add: daemon_secret_def)

lemma daemon_main_Serving:
  assumes "fst (daemon_main np verify sign build fl rand keys) = Serving ds d"
  obtains secret rpub rsign where "ds = setup_daemon secret rpub rsign np verify" "d = new_daemon (fl_addr fl)"
  using assms by (auto simp: daemon_main_def Let_def split: if_splits prod.splits sum.splits)

section \<open>The bridge starts well typed\<close>

lemma courier_key_ok:
  assumes "loadOrCreateCourierKey start s = (Inr u, s')" "draws_ok start" "ss_bridge s = new_bridge"
  shows "bridge_ok (ss_bridge s')"
  using assms
  by (auto simp: loadOrCreateCourierKey_def Let_def on_bridge_def bridge_ok_def new_bridge_def newXferState_def
      draws_ok_def split: option.splits sum.splits if_splits)

lemma bridge_main_ok:
  assumes "draws_ok start" "\<And>i. draws_ok (dr i)" "bridge_main ho serve start dr input files w = ((0, out), s')"
  shows "bridge_ok (ss_bridge s')"
proof -
  let ?s = "\<lparr>ss_bridge = new_bridge, ss_disk = files, ss_net = w\<rparr>"
  obtain u s1 where key: "loadOrCreateCourierKey start ?s = (Inr u, s1)" "serveLoop ho dr 0 input s1 = (out, s')"
    using assms(3) by (auto simp: bridge_main_def Let_def split: if_splits prod.splits sum.splits)
  have "bridge_ok (ss_bridge s1)" using courier_key_ok [OF key(1) assms(1)] by simp
  moreover have "kept s1 (snd (serveLoop ho dr 0 input s1))" using assms(2) by (rule serveLoop_kept)
  ultimately show ?thesis by (simp add: kept_def key(2))
qed

lemma bridge_main_serves:
  assumes "loadOrCreateCourierKey start \<lparr>ss_bridge = new_bridge, ss_disk = files, ss_net = w\<rparr> = (Inr u, s1)"
  shows "\<exists>out s'. bridge_main ho True start dr input files w = ((0, out), s')"
  using assms by (cases "serveLoop ho dr 0 input s1") (simp add: bridge_main_def)

end
