(* ===== verification/Bridge_Examples.thy ===== *)
theory Bridge_Examples
  imports File_Courier Processes Server_Examples
begin

text \<open>A concrete deployment: a daemon with the documented layout as its serialisation library, and
  couriers on it.\<close>

definition ex_base :: string where "ex_base = baseURL ''relay''"

definition ex_setup :: daemon_setup where
  "ex_setup = setup_daemon [1] ex_pub (\<lambda>m. ex_sig) framing ex_verify"

definition ex_envs :: "nat \<Rightarrow> router_env \<times> environment" where
  "ex_envs k = (ex_router_env, (ex_env 100000)\<lparr>ev_ticket := Some ex_secret\<rparr>)"

definition ex_host :: "(nat \<times> daemon) host" where
  "ex_host = \<lparr>ho_np = framing, ho_short = ''short body'', ho_sign = (\<lambda>priv m. ex_sig), ho_json = (\<lambda>raw. None),
     ho_http = daemon_http ex_setup ex_base ex_envs\<rparr>"

definition ex_key :: bytes where "ex_key = replicate 64 7"

definition ex_draws :: draws where
  "ex_draws = \<lparr>dr_now = 100000, dr_nonce = Inr ex_nonce, dr_key = Inr ex_key, dr_readErr = (\<lambda>f. None),
     dr_writeErr = (\<lambda>f. None)\<rparr>"

definition ex_bridge :: bridge where
  "ex_bridge = new_bridge\<lparr>br_running := True, br_courierPriv := ex_key, br_routerURL := ex_base\<rparr>"

definition ex_session :: "daemon \<Rightarrow> (nat \<times> daemon) session" where
  "ex_session d = \<lparr>ss_bridge = ex_bridge, ss_disk = \<lparr>dk_keys = [], dk_transfers = None\<rparr>, ss_net = (0, d)\<rparr>"

lemma ex_courier_sel [simp]:
  "length ex_key = 64" "dr_now ex_draws = 100000" "dr_nonce ex_draws = Inr ex_nonce" "dr_key ex_draws = Inr ex_key"
  "dr_readErr ex_draws f = None" "dr_writeErr ex_draws f = None"
  "br_running ex_bridge" "br_courierPriv ex_bridge = ex_key" "br_routerURL ex_bridge = ex_base"
  "br_mailboxes ex_bridge = []" "br_xfer ex_bridge = newXferState"
  "ss_bridge (ex_session d) = ex_bridge" "ss_net (ex_session d) = (0, d)"
  "dk_keys (ss_disk (ex_session d)) = []"
  by (simp_all add: ex_key_def ex_draws_def ex_bridge_def new_bridge_def ex_session_def)

lemma ex_base_plain: "plain_base ex_base"
  by (simp add: plain_base_def ex_base_def baseURL_def has_suffix_def)

lemma ex_near: "near 100000 100000"
  by (simp add: near_def)

lemma ex_env_ok: "env_ok 100000 (ex_envs k)"
  by (simp add: env_ok_def ex_envs_def ex_router_env_def ex_near)

interpretation ex_net: courier_net framing ex_host ex_setup ex_base ex_envs 100000
  by unfold_locales
     (simp_all add: ex_host_def ex_setup_def setup_daemon_def ex_base_plain ex_verify_def ex_env_ok)

definition ex_payload :: "(u8 \<times> bytes) list \<Rightarrow> bytes" where
  "ex_payload fs = (case np_bytes framing fs of Inr p \<Rightarrow> p | Inl e \<Rightarrow> [])"

lemma ex_payload_ok: "length fs < 256 \<Longrightarrow> np_bytes framing fs = Inr (ex_payload fs)"
  using framing_laws.np_total [of fs] by (auto simp: ex_payload_def)

lemma ex_scoped:
  "\<exists>s'. scopedKey ex_draws ''bob'' (ex_session d) = (Inr ex_key, s')"
  by (simp add: scopedKey_def tagRe_def tag_char_def Let_def newXferState_def)

text \<open>A daemon that holds the store \<open>st\<close>, and a transfer of three bytes in two chunks on it.\<close>

definition ex_relay :: "MemStore \<Rightarrow> daemon" where
  "ex_relay st = new_daemon ''relay''\<lparr>dm_router := NewRouter [(ex_base, st)]\<rparr>"

definition ex_createp :: bytes where
  "ex_createp = ex_payload [(1, putU64 3), (2, putU32 2), (3, putU32 2), (4, []), (5, ex_id), (7, bytes_of ex_base)]"

lemma ex_relay_sel [simp]: "ro_shards (dm_router (ex_relay st)) = [(ex_base, st)]" "dm_buckets (ex_relay st) = []"
  by (simp_all add: ex_relay_def new_daemon_def NewRouter_def)

lemma ex_envs_sel [simp]:
  "ev_first (snd (ex_envs k)) = 100000" "ev_second (snd (ex_envs k)) = 100000" "ev_id (snd (ex_envs k)) = ex_nonce"
  "ev_ticket (snd (ex_envs k)) = Some ex_secret"
  by (simp_all add: ex_envs_def)

lemma ex_mailbox_rest [simp]: "ms_transfers ex_mailbox = []" "ms_replay ex_mailbox = []" "transfer_bytes mid [] = 0"
  by (simp_all add: ex_mailbox_def CreateMailbox_def put_mailbox_def transfer_bytes_def)

lemma ex_later: "later ex_envs k"
  by (simp add: later_def ex_envs_def)

lemma ex_courier_create:
  "\<exists>st'. CreateTransfer 100000 ex_nonce (Some ex_secret)
     (courier_create ex_host ex_key ex_nonce (u64_of_int64 100000) ex_id 3 2 2 []) ex_mailbox
     = (Inr (ex_nonce, ex_secret, 86500000), st')"
proof -
  have "ValidateTransferCreateMsg (courier_create ex_host ex_key ex_nonce (u64_of_int64 100000) ex_id 3 2 2 []) = None"
    by (simp add: courier_create_def ValidateTransferCreateMsg_def ValidateTransferCreate_def Public_length ex_host_def)
  then show ?thesis
    by (simp add: CreateTransfer_def Let_def courier_create_def getMailboxLocked_def ex_mailbox_state
        prune_filter mailboxStoredBytesLocked_def activeTransfersLocked_def i64_def u64_of_int64_def int64_of_u64_def)
qed

lemma ex_created:
  assumes "ss_net s = (0, ex_relay ex_mailbox)" "br_courierPriv (ss_bridge s) = ex_key"
  shows "\<exists>s'. dispatch ex_host ex_draws opXferCreate ex_createp s
    = ((opXferCreate, marshalXferCreated framing ex_nonce ex_secret ex_base 86500000), s')"
proof -
  obtain st' where st': "CreateTransfer 100000 ex_nonce (Some ex_secret)
     (courier_create ex_host ex_key ex_nonce (u64_of_int64 100000) ex_id 3 2 2 []) ex_mailbox
     = (Inr (ex_nonce, ex_secret, 86500000), st')" using ex_courier_create by blast
  have "\<exists>d' m. dispatch ex_host ex_draws opXferCreate ex_createp s
      = ((opXferCreate, marshalXferCreated framing ex_nonce ex_secret ex_base 86500000), saveBindings ex_draws
          (on_bridge (bind_transfer (hex_encode ex_nonce) \<lparr>tb_MailboxID = ex_id, tb_ShardURL = ex_base, tb_ChunkCount = 2\<rparr>)
            (s\<lparr>ss_net := (Suc 0, d')\<rparr>)))
    \<and> ro_shards (dm_router d') = [(ex_base, st'\<lparr>ms_replay := m\<rparr>)] \<and> store_ok (ex_mailbox\<lparr>ms_replay := m\<rparr>)
    \<and> (\<forall>key. key \<noteq> replayKey replayDomainCreate (Public ex_key) ex_nonce \<longrightarrow> map_of m key = None)
    \<and> (\<forall>key. window_of (dm_buckets d') (''put-'' @ key) = None)"
    by (rule ex_net.create_answer [where fsize = 3 and csize = 2 and manifest = "[]" and k = 0 and d = "ex_relay ex_mailbox"])
       (simp_all only: ex_courier_sel ex_lengths ex_near ex_relay_sel ex_mailbox_ok ex_mailbox_rest ex_envs_sel st' assms,
        simp_all only: ex_createp_def, rule ex_payload_ok, simp)
  then show ?thesis by blast
qed

text \<open>Two attached mailboxes, of which the shard has one, with a message in it.\<close>

definition ex_one_message :: MemStore where
  "ex_one_message = snd (SendMessage 1 ex_nonce ex_message ex_mailbox)"

definition ex_two_mailboxes :: "(nat \<times> daemon) session" where
  "ex_two_mailboxes = (let m = \<lparr>bm_readSecret = ex_secret, bm_shardURL = ex_base, bm_routerURL = ex_base\<rparr> in
     ex_session (ex_relay ex_one_message)\<lparr>ss_bridge := ex_bridge\<lparr>br_mailboxes := [(ex_id, m), (ex_nonce, m)]\<rparr>\<rparr>)"

lemma ex_one_message_state:
  "mailbox_of ex_one_message ex_nonce = None" "queue ex_one_message ex_id = [stored 1 ex_nonce ex_message]"
  "MailboxExists 100000 ex_id ex_one_message" "CheckReadSecret ex_id ex_secret ex_one_message"
  "length (msg_ID (stored 1 ex_nonce ex_message)) = 16" "msg_Envelope (stored 1 ex_nonce ex_message) = [7, 8]"
  "100000 < msg_ExpiresAt (stored 1 ex_nonce ex_message)"
proof -
  note one = ex_one_message_def ex_sent
  have ids: "ex_nonce \<noteq> ex_id" by (simp add: ex_id_def ex_nonce_def)
  then have "mailbox_of ex_mailbox ex_nonce = None" by (simp add: ex_mailbox_def CreateMailbox_def)
  with ids show "mailbox_of ex_one_message ex_nonce = None" by (simp add: one)
  show "queue ex_one_message ex_id = [stored 1 ex_nonce ex_message]" by (simp add: one queue_def)
  show "MailboxExists 100000 ex_id ex_one_message" by (simp add: one MailboxExists_def)
  show "CheckReadSecret ex_id ex_secret ex_one_message" by (simp add: one CheckReadSecret_def hashSecret_def)
qed (simp_all add: stored_def ex_message_def i64_def)

text \<open>A bridge that was restarted: the file has a binding, the tables are empty.\<close>

definition ex_restarted :: "(nat \<times> daemon) session" where
  "ex_restarted = ex_session (ex_relay ex_mailbox)\<lparr>ss_disk := \<lparr>dk_keys = [], dk_transfers =
     Some [(hex_encode ex_id, \<lparr>tb_MailboxID = ex_id, tb_ShardURL = ex_base, tb_ChunkCount = 2\<rparr>)]\<rparr>\<rparr>"

lemma ex_restarted_finds: "fst (bindFor ex_draws ex_id ex_restarted) \<noteq> None"
  by (simp add: bindFor_def Let_def ex_restarted_def newXferState_def)

lemma ex_restarted_creates: "\<exists>r s'. onXferCreate ex_host ex_draws ex_createp ex_restarted = (Inr r, s')"
proof -
  have "ss_net ex_restarted = (0, ex_relay ex_mailbox)" "br_courierPriv (ss_bridge ex_restarted) = ex_key"
    by (simp_all add: ex_restarted_def)
  then show ?thesis using ex_created dispatch_create by blast
qed

end
