(* ===== verification/Bridge_Properties.thy ===== *)
theory Bridge_Properties
  imports Bridge_Examples
begin

text \<open>
  The properties of the courier bridge and of the daemon. A deployment \<open>courier_net\<close> is a host whose
  network is the daemon behind one base URL, with a total serialisation library, signatures that verify
  under the public half of the signing key, random values of their sizes, and clocks that agree within
  the allowed skew.
\<close>

section \<open>Couriers on a daemon\<close>

text \<open>C2. A frame arrives. On a daemon that was just started, one courier registers and attaches the
  mailbox it was given; another courier, which knows only the first one's public key, sends a frame; the
  next poll of the first courier returns exactly this frame, and the mailbox is empty again.\<close>

theorem courier_delivers:
  assumes "courier_net np ho ds base envs t0" "d = new_daemon addr" "base = baseURL addr"
    and "ss_net bob = (0, d)" "br_running (ss_bridge bob)" "br_mailboxes (ss_bridge bob) = []"
      "scopedKey dr1 tag bob = (Inr bobKey, bob0)" "length bobKey = 64"
      "dr_nonce dr1 = Inr nonce1" "length nonce1 = 16" "near t0 (dr_now dr1)"
    and "br_running (ss_bridge alice)" "br_routerURL (ss_bridge alice) = base"
      "length (br_courierPriv (ss_bridge alice)) = 64"
      "dr_nonce dr2 = Inr nonce2" "length nonce2 = 16" "near t0 (dr_now dr2)"
    and "0 < length frame" "length frame \<le> MaxMessageBytes"
    and "np_bytes np [(1, bytes_of tag), (2, bytes_of base)] = Inr regp"
      "np_bytes np [(1, frame), (2, Public bobKey)] = Inr sendp" "np_bytes np [(1, [limit])] = Inr pollp"
  shows "\<exists>regr bob1 rr attp ack bob2 alice1 bob3.
      dispatch ho dr1 opRegister regp bob = ((opRegister, regr), bob1)
    \<and> unmarshalRegisterResult np regr = Inr rr
    \<and> np_bytes np [(1, rres_MailboxID rr), (2, rres_ReadSecret rr), (3, bytes_of (rres_ShardURL rr)),
                  (4, bytes_of (rres_RouterURL rr))] = Inr attp
    \<and> dispatch ho dr1 opAttach attp bob1 = ((opAttach, ack), bob2) \<and> unmarshalAck np short ack = (True, [])
    \<and> dispatch ho dr2 opSend sendp (alice\<lparr>ss_net := ss_net bob2\<rparr>) = ((opSend, ack), alice1)
    \<and> dispatch ho dr3 opPoll pollp (bob2\<lparr>ss_net := ss_net alice1\<rparr>) = ((opPoll, marshalPollResult np [frame]), bob3)
    \<and> queue (dm_store (snd (ss_net bob3))) (rres_MailboxID rr) = []"
  using assms by (rule courier_net.frame_arrives)

theorem courier_delivers_witness:
  "\<exists>regr bob1 rr attp ack bob2 alice1 bob3.
      dispatch ex_host ex_draws opRegister (ex_payload [(1, bytes_of ''bob''), (2, bytes_of ex_base)])
        (ex_session (new_daemon ''relay'')) = ((opRegister, regr), bob1)
    \<and> unmarshalRegisterResult framing regr = Inr rr
    \<and> np_bytes framing [(1, rres_MailboxID rr), (2, rres_ReadSecret rr), (3, bytes_of (rres_ShardURL rr)),
                  (4, bytes_of (rres_RouterURL rr))] = Inr attp
    \<and> dispatch ex_host ex_draws opAttach attp bob1 = ((opAttach, ack), bob2) \<and> unmarshalAck framing [] ack = (True, [])
    \<and> dispatch ex_host ex_draws opSend (ex_payload [(1, [7, 8]), (2, Public ex_key)])
        (ex_session (new_daemon ''relay'')\<lparr>ss_net := ss_net bob2\<rparr>) = ((opSend, ack), alice1)
    \<and> dispatch ex_host ex_draws opPoll (ex_payload [(1, [0])]) (bob2\<lparr>ss_net := ss_net alice1\<rparr>)
        = ((opPoll, marshalPollResult framing [[7, 8]]), bob3)
    \<and> queue (dm_store (snd (ss_net bob3))) (rres_MailboxID rr) = []"
proof -
  obtain bob0 where key: "scopedKey ex_draws ''bob'' (ex_session (new_daemon ''relay'')) = (Inr ex_key, bob0)"
    using ex_scoped by blast
  show ?thesis
    by (rule courier_delivers [OF ex_net.courier_net_axioms refl ex_base_def _ _ _ key])
       (simp_all only: ex_courier_sel ex_lengths ex_near MaxMessageBytes_def, simp_all add: ex_payload_ok)
qed

text \<open>C1. A file arrives. On a daemon with a consistent store, an idle rate limiter and room in the
  recipient's mailbox, a courier creates a transfer, uploads the file chunk by chunk and seals it; every
  courier that knows the ticket, the shard and the number of chunks then downloads exactly the file. The
  one exception is that the replay keys of the two signed requests, which are SHA-256 values, collide.\<close>

theorem file_over_bridge:
  assumes "courier_net np ho ds base envs t0"
    and "np_bytes np [(1, putU64 fsize), (2, putU32 csize), (3, putU32 count), (4, manifest), (5, mid),
      (7, bytes_of base)] = Inr createp" "length mid = 16"
      "np_bytes np [(1, tid), (2, mhash)] = Inr sealp" "length mhash = 32"
    and "br_courierPriv (ss_bridge alice) = priv" "length priv = 64" "ss_net alice = (k, d)"
    and "dr_nonce dr1 = Inr nonce1" "length nonce1 = 16" "near t0 (dr_now dr1)"
      "dr_nonce dr3 = Inr nonce3" "length nonce3 = 16" "near t0 (dr_now dr3)"
    and "ro_shards (dm_router d) = [(base, st)]" "dm_buckets d = []" "store_ok st" "ms_replay st = []"
      "sv_limits (ds_server ds) = DefaultRateLimits" "later envs k"
    and "CreateTransfer (ev_second (snd (envs k))) (ev_id (snd (envs k))) (ev_ticket (snd (envs k)))
        (courier_create ho priv nonce1 (u64_of_int64 (dr_now dr1)) mid fsize csize count manifest) st
        = (Inr (tid, tk, e), st1)" "length tk = 32"
      "mailboxStoredBytesLocked mid st + int (length manifest) + int (length data) \<le> MaxStoredBytesPerMailbox"
    and "length data = unat fsize" "unat count \<le> 256"
  shows "(\<exists>alice1 alice2 alice3.
      dispatch ho dr1 opXferCreate createp alice = ((opXferCreate, marshalXferCreated np tid tk base e), alice1)
    \<and> bridge_upload ho dr2 tid (unat csize) 0 (chunks (unat csize) data) alice1 = Some alice2
    \<and> dispatch ho dr3 opXferComplete sealp alice2 = ((opXferComplete, marshalAck np True []), alice3)
    \<and> (\<forall>bob. bridge_download ho dr4 tid tk base [0..<unat count] (bob\<lparr>ss_net := ss_net alice3\<rparr>) = Some data))
    \<or> replayKey replayDomainComplete (Public priv) nonce3 = replayKey replayDomainCreate (Public priv) nonce1"
  using courier_net.file_arrives [OF assms(1-14) _ assms(15-)] by blast

theorem file_over_bridge_witness:
  "(\<exists>alice1 alice2 alice3.
      dispatch ex_host ex_draws opXferCreate ex_createp (ex_session (ex_relay ex_mailbox))
        = ((opXferCreate, marshalXferCreated framing ex_nonce ex_secret ex_base 86500000), alice1)
    \<and> bridge_upload ex_host ex_draws ex_nonce (unat (2 :: u32)) 0 (chunks (unat (2 :: u32)) [1, 2, 3]) alice1 = Some alice2
    \<and> dispatch ex_host ex_draws opXferComplete (ex_payload [(1, ex_nonce), (2, ex_secret)]) alice2
        = ((opXferComplete, marshalAck framing True []), alice3)
    \<and> (\<forall>bob. bridge_download ex_host ex_draws ex_nonce ex_secret ex_base [0..<unat (2 :: u32)]
               (bob\<lparr>ss_net := ss_net alice3\<rparr>) = Some [1, 2, 3]))
    \<or> replayKey replayDomainComplete (Public ex_key) ex_nonce = replayKey replayDomainCreate (Public ex_key) ex_nonce"
proof -
  obtain st' where st': "CreateTransfer 100000 ex_nonce (Some ex_secret)
     (courier_create ex_host ex_key ex_nonce (u64_of_int64 100000) ex_id 3 2 2 []) ex_mailbox
     = (Inr (ex_nonce, ex_secret, 86500000), st')" using ex_courier_create by blast
  show ?thesis
    by (rule file_over_bridge [OF ex_net.courier_net_axioms, where st = ex_mailbox and manifest = "[]" and ?st1.0 = st'
          and k = 0 and mid = ex_id and fsize = 3 and mhash = ex_secret])
       (simp_all only: ex_courier_sel ex_lengths ex_near ex_relay_sel ex_mailbox_ok ex_mailbox_rest ex_later ex_envs_sel st',
        simp_all add: ex_createp_def ex_payload_ok ex_setup_def setup_daemon_def mailboxStoredBytesLocked_def ex_mailbox_state)
qed

section \<open>The bridge against any network\<close>

text \<open>C15. Whatever the network answers, a chunk the bridge hands to the messenger is the payload of a
  response with status 200, cut at two mebibytes, and its hash is the SHA-256 of that payload; every other
  answer to the request is an error.\<close>

theorem chunk_integrity:
  "case dispatch ho dr opXferGet p s of ((rop, resp), s') \<Rightarrow>
     (\<exists>code detail. rop = opError \<and> resp = marshal_rpc_error (ho_np ho) code detail)
   \<or> (\<exists>url body w raw w' res. rop = opXferGet
        \<and> ho_http ho url body w = (Inr (200, raw), w')
        \<and> UnmarshalChunkDownloadResponse (ho_np ho) (take 2097152 raw) = Inr res
        \<and> cdr_ChunkHash res = sha256 (cdr_Payload res)
        \<and> resp = marshalXferChunk (ho_np ho) (cdr_Payload res) (sha256 (cdr_Payload res)))"
proof (cases "onXferGet ho dr p s")
  case (Pair r s')
  show ?thesis
  proof (cases r)
    case (Inl e)
    with Pair show ?thesis by (auto simp: dispatch_def answer_def transport_def)
  next
    case (Inr a)
    then obtain rop resp where a: "r = Inr (rop, resp)" by (cases a) simp
    then have "dispatch ho dr opXferGet p s = ((rop, resp), s')"
      using Pair by (simp add: dispatch_def answer_def transport_def)
    moreover have "onXferGet ho dr p s = (Inr (rop, resp), s')" using Pair a by simp
    ultimately show ?thesis by (elim onXferGet_integrity) (simp, metis (no_types))
  qed
qed

text \<open>C13. The bridge is well typed at every moment: whatever its directory holds, whatever bytes arrive on
  standard input and whatever the network answers, after any number of requests the signing key has 64
  bytes, every mailbox a 16-byte id, a 32-byte read secret and a shard, every scoped key an admissible tag
  and 64 bytes, every transfer a 16-byte mailbox id, and no table has two entries for one key.\<close>

theorem bridge_state_typed:
  assumes "draws_ok start" "\<And>i. draws_ok (dr i)" "bridge_main ho serve start dr input files w = ((0, out), s')"
  shows "bridge_ok (ss_bridge s')"
  using assms by (rule bridge_main_ok)

theorem bridge_state_typed_witness:
  "\<exists>out s'. bridge_main ex_host True ex_draws (\<lambda>i. ex_draws)
     (wire_envelope framing \<lparr>en_op = opXferCreate, en_reqID = 7, en_payload = ex_createp\<rparr>)
     \<lparr>dk_keys = [], dk_transfers = None\<rparr> (0, ex_relay ex_mailbox) = ((0, out), s') \<and> bridge_ok (ss_bridge s')"
proof -
  have draws: "draws_ok ex_draws" by (simp add: draws_ok_def)
  obtain u s1 where key: "loadOrCreateCourierKey ex_draws
      \<lparr>ss_bridge = new_bridge, ss_disk = \<lparr>dk_keys = [], dk_transfers = None\<rparr>, ss_net = (0 :: nat, ex_relay ex_mailbox)\<rparr> = (Inr u, s1)"
    by (simp add: loadOrCreateCourierKey_def)
  obtain out s' where "bridge_main ex_host True ex_draws (\<lambda>i. ex_draws)
     (wire_envelope framing \<lparr>en_op = opXferCreate, en_reqID = 7, en_payload = ex_createp\<rparr>)
     \<lparr>dk_keys = [], dk_transfers = None\<rparr> (0, ex_relay ex_mailbox) = ((0, out), s')"
    using bridge_main_serves [OF key] by blast
  with bridge_state_typed [OF draws draws this] show ?thesis by blast
qed

text \<open>C14. The request loop refines its specification: on the frames of any sequence of requests that fit
  the frame limit, followed by at most three stray bytes, it writes the frames of the answers \<open>dispatch\<close>
  gives to these requests in order, one for each request and under its id, and returns.\<close>

theorem rpc_loop_serves:
  assumes "total_codec (ho_np ho)" "\<forall>e \<in> set es. length (en_payload e) < 2097000" "length rest < 4"
  shows "serveLoop ho dr k (concat (map (wire_envelope (ho_np ho)) es) @ rest) s =
      (concat (map (wire_envelope (ho_np ho)) (fst (serve_all ho dr k es s))), snd (serve_all ho dr k es s))
    \<and> map en_reqID (fst (serve_all ho dr k es s)) = map en_reqID es"
  using total_codec.serveLoop_serves [OF assms(1) refl assms(2,3)] serve_all_ids
  by (simp add: split_beta)

theorem rpc_loop_serves_witness:
  "serveLoop ex_host (\<lambda>i. ex_draws) 0
     (concat (map (wire_envelope framing) [\<lparr>en_op = opStatus, en_reqID = 7, en_payload = []\<rparr>,
        \<lparr>en_op = 99, en_reqID = 8, en_payload = [1]\<rparr>]) @ [0]) (ex_session (new_daemon ''relay''))
   = (concat (map (wire_envelope framing)
        [\<lparr>en_op = opStatus, en_reqID = 7, en_payload = marshalStatus framing True ''courier running''\<rparr>,
         \<lparr>en_op = opError, en_reqID = 8, en_payload = marshal_rpc_error framing errUnsupported ''unknown op''\<rparr>]),
      ex_session (new_daemon ''relay''))"
  using rpc_loop_serves [of ex_host "[\<lparr>en_op = opStatus, en_reqID = 7, en_payload = []\<rparr>,
      \<lparr>en_op = 99, en_reqID = 8, en_payload = [1]\<rparr>]" "[0]" "\<lambda>i. ex_draws" 0 "ex_session (new_daemon ''relay'')"]
    framing_laws.total_codec_axioms
  by (simp add: ex_host_def dispatch_def)

section \<open>Losses\<close>

text \<open>C22. A poll loses frames. When the second of two attached mailboxes no longer exists on the shard, a
  poll that still has room fails as a whole after it has fetched and thereby removed everything the first
  mailbox held: the messenger gets an error, and the frames are gone.\<close>

theorem poll_loses_frames:
  assumes "courier_net np ho ds base envs t0"
    and "np_bytes np [(1, [limit])] = Inr p" "length (queue st mid) < unat (if limit = 0 then 32 else limit)"
      "length (queue st mid) \<le> 32"
    and "br_running (ss_bridge s)" "br_mailboxes (ss_bridge s)
        = [(mid, \<lparr>bm_readSecret = secret, bm_shardURL = base, bm_routerURL = r\<rparr>),
           (gone, \<lparr>bm_readSecret = secret', bm_shardURL = base, bm_routerURL = r'\<rparr>)]"
    and "ss_net s = (k, d)" "ro_shards (dm_router d) = [(base, st)]" "window_of (dm_buckets d) ''recv-ip:'' = None"
    and "length mid = 16" "length secret = 32" "MailboxExists (ev_first (snd (envs k))) mid st"
      "CheckReadSecret mid secret st"
    and "length gone = 16" "length secret' = 32" "mailbox_of st gone = None"
    and "\<forall>m \<in> set (queue st mid). ev_first (snd (envs k)) < msg_ExpiresAt m
       \<and> length (msg_ID m) = 16 \<and> 0 < length (msg_Envelope m) \<and> length (msg_Envelope m) \<le> MaxMessageBytes"
  shows "\<exists>e s'. dispatch ho dr opPoll p s = ((opError, marshal_rpc_error np errTransport e), s')
    \<and> queue (dm_store (snd (ss_net s'))) mid = []"
  using assms by (rule courier_net.poll_loses)

theorem poll_loses_frames_witness:
  "\<exists>e s'. dispatch ex_host ex_draws opPoll (ex_payload [(1, [0])]) ex_two_mailboxes
      = ((opError, marshal_rpc_error framing errTransport e), s')
    \<and> queue (dm_store (snd (ss_net s'))) ex_id = []"
  by (rule poll_loses_frames [OF ex_net.courier_net_axioms ex_payload_ok, where st = ex_one_message and k = 0
        and d = "ex_relay ex_one_message" and secret = ex_secret and gone = ex_nonce and secret' = ex_secret])
     (simp_all add: ex_two_mailboxes_def Let_def ex_one_message_state MaxMessageBytes_def)



section \<open>The daemon\<close>

text \<open>C10. Once the daemon serves, then after every sequence of HTTP requests, well-formed or not, to its
  router or to its shard, there is exactly one shard, at the daemon's own address, and its store is
  consistent.\<close>

theorem requests_keep_store:
  assumes "fst (daemon_main np verify sign build fl rand keys) = Serving ds d0"
    and "reachable (\<lambda>(renv, ev, r) d. snd (daemon_ServeHTTP ds renv ev r d)) d0 d"
  shows "store_ok (dm_store d) \<and> shardURLs (dm_router d) = [baseURL (fl_addr fl)]"
proof -
  obtain secret rpub rsign where start: "ds = setup_daemon secret rpub rsign np verify" "d0 = new_daemon (fl_addr fl)"
    using assms(1) by (rule daemon_main_Serving)
  from relayd.reachable_inv [OF assms(2) [unfolded start]] show ?thesis by (simp add: daemon_ok_def)
qed

theorem requests_keep_store_witness:
  "store_ok (dm_store (snd (daemon_ServeHTTP (setup_daemon ex_secret ex_pub (\<lambda>m. ex_sig) framing ex_verify)
      ex_router_env (ex_env 100000) ex_send (new_daemon ''relay''))))"
proof -
  have "fst (daemon_main framing ex_verify (\<lambda>priv m. ex_sig) \<lparr>bi_Version = ''v1'', bi_Commit = ''c'', bi_Date = ''d''\<rparr>
      \<lparr>fl_addr = ''relay'', fl_secretHex = [], fl_printTemplate = False, fl_printVersion = False\<rparr> (Inr ex_secret)
      (Inr (ex_pub, ex_key))) = Serving (setup_daemon ex_secret ex_pub (\<lambda>m. ex_sig) framing ex_verify) (new_daemon ''relay'')"
    by (simp add: daemon_main_def daemon_secret_def Let_def)
  from requests_keep_store [OF this reach_step [OF reach_init, of _ _ "(ex_router_env, ex_env 100000, ex_send)"]]
  show ?thesis by (simp only: prod.case)
qed

end
